theory Spec2Isabelle
  imports Complex_Main "HOL-Library.Sublist"
begin

section \<open>Strings and numbers as the TypeScript sources use them\<close>

text \<open>
  Strings are \<^typ>\<open>string\<close>; the messages handled here are taken to be ASCII, so
  \<open>toLowerCase\<close> only folds the letters A to Z. Numbers that the sources use as counters
  (attempt numbers, ranks, progress percentages, millisecond delays) are \<^typ>\<open>int\<close>;
  the one computation that leaves the integers, \<open>Math.pow(2, n)\<close> with a negative
  exponent, is carried out in \<^typ>\<open>real\<close>.
\<close>

definition toLowerCase_char :: "char \<Rightarrow> char" where
  "toLowerCase_char c =
     (case map_of (zip ''ABCDEFGHIJKLMNOPQRSTUVWXYZ'' ''abcdefghijklmnopqrstuvwxyz'') c of
        Some l \<Rightarrow> l
      | None \<Rightarrow> c)"

definition toLowerCase :: "string \<Rightarrow> string" where
  "toLowerCase s = map toLowerCase_char s"

fun startsWith :: "string \<Rightarrow> string \<Rightarrow> bool" where
  "startsWith s [] = True"
| "startsWith [] (p # ps) = False"
| "startsWith (c # cs) (p # ps) = (c = p \<and> startsWith cs ps)"

text \<open>\<open>String.prototype.includes\<close>: the pattern occurs at some position of the string.\<close>

fun str_includes :: "string \<Rightarrow> string \<Rightarrow> bool" where
  "str_includes [] p = (p = [])"
| "str_includes (c # cs) p = (startsWith (c # cs) p \<or> str_includes cs p)"

text \<open>Decimal rendering of an integer, as a template literal renders a whole number.\<close>

fun digits :: "nat \<Rightarrow> string" where
  "digits n =
     (if n < 10 then [''0123456789'' ! n]
      else digits (n div 10) @ [''0123456789'' ! (n mod 10)])"

definition num_str :: "int \<Rightarrow> string" where
  "num_str i = (if i < 0 then CHR ''-'' # digits (nat (- i)) else digits (nat i))"


section \<open>Error handling (src/lib/queue/errorHandling.ts, src/lib/queue/types.ts)\<close>

datatype ErrorType =
  RATE_LIMIT | API_ERROR | NETWORK_ERROR | VALIDATION_ERROR | JUDGE_REJECTION | UNKNOWN

record JobError =
  errorType :: ErrorType
  message :: string
  retryable :: bool
  retryDelay :: "int option"

text \<open>
  A caught value (\<open>error: unknown\<close>): either an \<open>Error\<close> object with its message and
  optional stack, or any other value, of which only \<open>String(error)\<close> is ever used.
\<close>

datatype thrown = ErrorObj string "string option" | OtherValue string

fun error_text :: "thrown \<Rightarrow> string" where
  "error_text (ErrorObj m st) = m"
| "error_text (OtherValue s) = s"

fun error_stack :: "thrown \<Rightarrow> string option" where
  "error_stack (ErrorObj m st) = st"
| "error_stack (OtherValue s) = None"

definition classifyError :: "thrown \<Rightarrow> JobError" where
  "classifyError error =
     (let errorMessage = error_text error;
          errorString = toLowerCase errorMessage
      in if str_includes errorString ''rate limit'' \<or> str_includes errorString ''429''
            \<or> str_includes errorString ''too many requests''
         then \<lparr>errorType = RATE_LIMIT, message = errorMessage, retryable = True,
               retryDelay = Some 60000\<rparr>
         else if str_includes errorString ''400'' \<or> str_includes errorString ''bad request''
            \<or> str_includes errorString ''invalid''
         then \<lparr>errorType = VALIDATION_ERROR, message = errorMessage, retryable = False,
               retryDelay = None\<rparr>
         else if str_includes errorString ''401'' \<or> str_includes errorString ''403''
            \<or> str_includes errorString ''unauthorized''
         then \<lparr>errorType = API_ERROR, message = errorMessage, retryable = False,
               retryDelay = None\<rparr>
         else if str_includes errorString ''network'' \<or> str_includes errorString ''timeout''
            \<or> str_includes errorString ''econnrefused''
            \<or> str_includes errorString ''enotfound''
         then \<lparr>errorType = NETWORK_ERROR, message = errorMessage, retryable = True,
               retryDelay = Some 10000\<rparr>
         else if str_includes errorString ''judge reject''
         then \<lparr>errorType = JUDGE_REJECTION, message = errorMessage, retryable = True,
               retryDelay = Some 5000\<rparr>
         else \<lparr>errorType = UNKNOWN, message = errorMessage, retryable = True,
               retryDelay = Some 5000\<rparr>)"

definition shouldRetry :: "JobError \<Rightarrow> int \<Rightarrow> int \<Rightarrow> bool" where
  "shouldRetry error attemptNumber maxAttempts =
     (if \<not> retryable error then False
      else if attemptNumber \<ge> maxAttempts then False
      else True)"

text \<open>
  \<open>error.retryDelay || baseDelay\<close>: an absent delay and a delay of 0 both fall through
  to the base delay. \<open>Math.pow(2, attemptNumber - 1)\<close> is a fraction when the attempt
  number is below 1, hence the result in \<^typ>\<open>real\<close>.
\<close>

definition calculateRetryDelay :: "JobError \<Rightarrow> int \<Rightarrow> int \<Rightarrow> real" where
  "calculateRetryDelay error attemptNumber baseDelay =
     (let initialDelay = (case retryDelay error of
                            None \<Rightarrow> baseDelay
                          | Some d \<Rightarrow> if d = 0 then baseDelay else d)
      in of_int initialDelay * 2 powi (attemptNumber - 1))"

text \<open>
  \<open>formatErrorMessage(error, context?)\<close>: an absent and an empty context are both falsy,
  and so are an absent and an empty stack; the stack is cut to 1000 characters.
\<close>

definition formatErrorMessage :: "thrown \<Rightarrow> string option \<Rightarrow> string" where
  "formatErrorMessage error ctx =
     (let baseMessage = error_text error;
          msg = (case ctx of
                   None \<Rightarrow> baseMessage
                 | Some c \<Rightarrow> if c = [] then baseMessage else c @ '': '' @ baseMessage)
      in case error_stack error of
           None \<Rightarrow> msg
         | Some st \<Rightarrow>
             if st = [] then msg
             else msg @ [CHR 0x0A, CHR 0x0A] @ ''Stack trace:'' @ [CHR 0x0A] @ take 1000 st)"

text \<open>
  \<open>withRetry(fn, {maxAttempts, onRetry, context})\<close>. The wrapped function is a black
  box that may answer differently at each call, so it is given as the outcome of its
  \<open>k\<close>-th invocation (\<open>k\<close> counted from 0): \<open>Inl\<close> a thrown value, \<open>Inr\<close> a result.
  The run returns what the caller sees (\<open>Inl\<close> the message of the \<open>Error\<close> thrown,
  \<open>Inr\<close> the value returned), the number of invocations made, the \<open>onRetry\<close>
  notifications and the delays slept, in order.
\<close>

record 'a retry_run =
  outcome :: "string + 'a"
  calls :: nat
  notified :: "(int \<times> JobError) list"
  slept :: "real list"

function withRetry_loop ::
  "(nat \<Rightarrow> thrown + 'a) \<Rightarrow> int \<Rightarrow> string option \<Rightarrow> int \<Rightarrow> nat \<Rightarrow> JobError option \<Rightarrow>
   (int \<times> JobError) list \<Rightarrow> real list \<Rightarrow> 'a retry_run" where
  "withRetry_loop fn maxAttempts ctx attempt n lastError ns ds =
     (if attempt \<le> maxAttempts then
        (case fn n of
           Inr v \<Rightarrow> \<lparr>outcome = Inr v, calls = Suc n, notified = ns, slept = ds\<rparr>
         | Inl error \<Rightarrow>
             (let lastError' = classifyError error in
              if \<not> shouldRetry lastError' attempt maxAttempts
              then \<lparr>outcome = Inl (formatErrorMessage error ctx), calls = Suc n,
                    notified = ns, slept = ds\<rparr>
              else withRetry_loop fn maxAttempts ctx (attempt + 1) (Suc n)
                     (Some lastError') (ns @ [(attempt, lastError')])
                     (ds @ [calculateRetryDelay lastError' attempt 5000])))
      else
        \<lparr>outcome = Inl (formatErrorMessage
                  (OtherValue (case lastError of
                                 None \<Rightarrow> ''Unknown error after retries''
                               | Some e \<Rightarrow> if message e = [] then ''Unknown error after retries''
                                          else message e))
                  ctx),
         calls = n, notified = ns, slept = ds\<rparr>)"
  by pat_completeness auto
termination
  by (relation "measure (\<lambda>(fn, maxAttempts, ctx, attempt, n, lastError, ns, ds).
                  nat (maxAttempts + 1 - attempt))") auto

definition withRetry :: "(nat \<Rightarrow> thrown + 'a) \<Rightarrow> int \<Rightarrow> string option \<Rightarrow> 'a retry_run" where
  "withRetry fn maxAttempts ctx = withRetry_loop fn maxAttempts ctx 1 0 None [] []"

text \<open>
  The matching signals of the classification table: some pattern of the list occurs in
  the lower-cased text of the failure.
\<close>

definition signal :: "string list \<Rightarrow> thrown \<Rightarrow> bool" where
  "signal patterns error = list_ex (str_includes (toLowerCase (error_text error))) patterns"


section \<open>Persistent store (prisma/schema, migration.sql) and queue payloads (src/lib/queue/types.ts)\<close>

text \<open>
  Every table is the list of its rows. The status columns are \<open>TEXT\<close> and are kept as
  strings. The \<open>createdAt\<close>/\<open>updatedAt\<close> timestamps are left out: nothing below reads
  them.
\<close>

record JobStatus =
  jobId :: string
  jobType :: string
  relatedId :: string
  js_status :: string
  progress :: int
  errorMessage :: "string option"

datatype metric_value = MetricNum rat | MetricStr string

record FormattedInsights =
  recommendation :: string
  targetPrice :: "rat option"
  keyMetrics :: "(string \<times> metric_value \<times> string option) list"
  opportunities :: "string list"
  risks :: "string list"
  catalysts :: "string list"
  summary :: string

record StockAnalysis =
  sa_id :: string
  sa_stockId :: string
  sa_status :: string
  sa_rawAnalysis :: string
  sa_judgeReview :: string
  sa_insights :: "FormattedInsights option"
  sa_attemptCount :: int
  sa_failureReason :: "string option"

record Stock =
  st_id :: string
  st_subSectorId :: string
  st_companyName :: string
  st_ticker :: "string option"
  st_rank :: int
  st_preliminaryNotes :: string

record SubSector =
  ss_id :: string
  ss_sectorAnalysisId :: string
  ss_name :: string
  ss_summary :: string
  ss_status :: string

record StockAnalysisJobData =
  a_stockId :: string
  a_stockAnalysisId :: string
  a_companyName :: string
  a_ticker :: "string option"
  a_subSectorName :: string
  a_attemptNumber :: int

record JudgeReviewJobData =
  j_stockAnalysisId :: string
  j_stockId :: string
  j_rawAnalysis :: string
  j_companyName :: string
  j_attemptNumber :: int

record FormatInsightsJobData =
  f_stockAnalysisId :: string
  f_rawAnalysis :: string
  f_judgeReview :: string
  f_companyName :: string

record RankingCandidate =
  c_id :: string
  c_companyName :: string
  c_ticker :: "string option"
  c_preliminaryNotes :: string

record StockRankingJobData =
  r_subSectorId :: string
  r_stocks :: "RankingCandidate list"

text \<open>A call \<open>queue.add(name, data, {jobId, delay, priority})\<close> as the queue receives it.\<close>

record 'd queued =
  q_name :: string
  q_data :: 'd
  q_jobId :: "string option"
  q_delay :: "int option"
  q_priority :: "int option"

text \<open>
  The state the workers act on: the tables, and for each queue the jobs added to it, in
  the order of the \<open>add\<close> calls.
\<close>

record world =
  jobStatuses :: "JobStatus list"
  stockAnalyses :: "StockAnalysis list"
  stocks :: "Stock list"
  subSectors :: "SubSector list"
  stockAnalysisQueue :: "StockAnalysisJobData queued list"
  judgeReviewQueue :: "JudgeReviewJobData queued list"
  formatInsightsQueue :: "FormatInsightsJobData queued list"

text \<open>
  An asynchronous operation either throws, leaving the state as it was when it threw
  (there is no transaction around a worker), or returns a value and a new state.
\<close>

type_synonym 'a io = "world \<Rightarrow> (thrown \<times> world) + ('a \<times> world)"

definition return_io :: "'a \<Rightarrow> 'a io" where
  "return_io a w = Inr (a, w)"

definition bind_io :: "'a io \<Rightarrow> ('a \<Rightarrow> 'b io) \<Rightarrow> 'b io" where
  "bind_io m f w = (case m w of Inl ew \<Rightarrow> Inl ew | Inr (a, w') \<Rightarrow> f a w')"

definition then_io :: "'a io \<Rightarrow> 'b io \<Rightarrow> 'b io" where
  "then_io m k = bind_io m (\<lambda>_. k)"

text \<open>
  \<open>prisma.<table>.update({where: {key}, data})\<close> rejects when no row has the key (the
  client's record-not-found error, whose text no code below inspects); otherwise the row
  with that key is rewritten and returned. \<open>findUnique\<close> returns the row or null. The
  \<open>data\<close> of an update is given as the function it applies to the row.
\<close>

definition record_not_found :: thrown where
  "record_not_found = ErrorObj ''Record to update not found.'' None"

definition findUnique :: "('r \<Rightarrow> string) \<Rightarrow> string \<Rightarrow> 'r list \<Rightarrow> 'r option" where
  "findUnique key k rows = find (\<lambda>r. key r = k) rows"

definition rewrite_rows :: "('r \<Rightarrow> string) \<Rightarrow> string \<Rightarrow> ('r \<Rightarrow> 'r) \<Rightarrow> 'r list \<Rightarrow> 'r list" where
  "rewrite_rows key k f rows = map (\<lambda>r. if key r = k then f r else r) rows"

definition stockAnalysis_update :: "string \<Rightarrow> (StockAnalysis \<Rightarrow> StockAnalysis) \<Rightarrow> StockAnalysis io" where
  "stockAnalysis_update k f w =
     (case findUnique sa_id k (stockAnalyses w) of
        None \<Rightarrow> Inl (record_not_found, w)
      | Some r \<Rightarrow> Inr (f r, w\<lparr>stockAnalyses := rewrite_rows sa_id k f (stockAnalyses w)\<rparr>))"

definition subSector_update :: "string \<Rightarrow> (SubSector \<Rightarrow> SubSector) \<Rightarrow> SubSector io" where
  "subSector_update k f w =
     (case findUnique ss_id k (subSectors w) of
        None \<Rightarrow> Inl (record_not_found, w)
      | Some r \<Rightarrow> Inr (f r, w\<lparr>subSectors := rewrite_rows ss_id k f (subSectors w)\<rparr>))"

definition stock_update :: "string \<Rightarrow> (Stock \<Rightarrow> Stock) \<Rightarrow> Stock io" where
  "stock_update k f w =
     (case findUnique st_id k (stocks w) of
        None \<Rightarrow> Inl (record_not_found, w)
      | Some r \<Rightarrow> Inr (f r, w\<lparr>stocks := rewrite_rows st_id k f (stocks w)\<rparr>))"

text \<open>
  \<open>prisma.stockAnalysis.create\<close>: the store assigns the id (\<open>newId\<close>); the insert is
  rejected when the id or the stock id (unique index \<open>StockAnalysis_stockId_key\<close>) is
  already taken.
\<close>

definition unique_violation :: thrown where
  "unique_violation = ErrorObj ''Unique constraint failed'' None"

definition stockAnalysis_create :: "string \<Rightarrow> string \<Rightarrow> StockAnalysis io" where
  "stockAnalysis_create newId stockId w =
     (if list_ex (\<lambda>a. sa_id a = newId \<or> sa_stockId a = stockId) (stockAnalyses w)
      then Inl (unique_violation, w)
      else let row = \<lparr>sa_id = newId, sa_stockId = stockId, sa_status = ''pending'',
                       sa_rawAnalysis = [], sa_judgeReview = [], sa_insights = None,
                       sa_attemptCount = 1, sa_failureReason = None\<rparr>
           in Inr (row, w\<lparr>stockAnalyses := stockAnalyses w @ [row]\<rparr>))"

text \<open>\<open>queue.add\<close> on each of the three queues the workers write to; the job is returned.\<close>

definition stockAnalysisQueue_add ::
  "string \<Rightarrow> StockAnalysisJobData \<Rightarrow> string option \<Rightarrow> int option \<Rightarrow> int option \<Rightarrow>
   (StockAnalysisJobData queued) io" where
  "stockAnalysisQueue_add name d jid delay priority w =
     (let job = \<lparr>q_name = name, q_data = d, q_jobId = jid, q_delay = delay, q_priority = priority\<rparr>
      in Inr (job, w\<lparr>stockAnalysisQueue := stockAnalysisQueue w @ [job]\<rparr>))"

definition judgeReviewQueue_add ::
  "string \<Rightarrow> JudgeReviewJobData \<Rightarrow> string option \<Rightarrow> int option \<Rightarrow> int option \<Rightarrow>
   (JudgeReviewJobData queued) io" where
  "judgeReviewQueue_add name d jid delay priority w =
     (let job = \<lparr>q_name = name, q_data = d, q_jobId = jid, q_delay = delay, q_priority = priority\<rparr>
      in Inr (job, w\<lparr>judgeReviewQueue := judgeReviewQueue w @ [job]\<rparr>))"

definition formatInsightsQueue_add ::
  "string \<Rightarrow> FormatInsightsJobData \<Rightarrow> string option \<Rightarrow> int option \<Rightarrow> int option \<Rightarrow>
   (FormatInsightsJobData queued) io" where
  "formatInsightsQueue_add name d jid delay priority w =
     (let job = \<lparr>q_name = name, q_data = d, q_jobId = jid, q_delay = delay, q_priority = priority\<rparr>
      in Inr (job, w\<lparr>formatInsightsQueue := formatInsightsQueue w @ [job]\<rparr>))"


section \<open>Job status tracker (src/lib/queue/jobStatus.ts)\<close>

text \<open>The partial \<open>data\<close> argument of \<open>updateJobStatus\<close>: an absent field is not written.\<close>

record JobStatusData =
  d_status :: "string option"
  d_progress :: "int option"
  d_errorMessage :: "string option"

definition apply_JobStatusData :: "JobStatusData \<Rightarrow> JobStatus \<Rightarrow> JobStatus" where
  "apply_JobStatusData d r =
     r\<lparr>js_status := (case d_status d of None \<Rightarrow> js_status r | Some s \<Rightarrow> s),
       progress := (case d_progress d of None \<Rightarrow> progress r | Some p \<Rightarrow> p),
       errorMessage := (case d_errorMessage d of None \<Rightarrow> errorMessage r | Some m \<Rightarrow> Some m)\<rparr>"

definition createJobStatus :: "string \<Rightarrow> string \<Rightarrow> string \<Rightarrow> JobStatus io" where
  "createJobStatus jid jtype rid w =
     (if list_ex (\<lambda>r. jobId r = jid) (jobStatuses w)
      then Inl (ErrorObj ''Unique constraint failed on the fields: (jobId)'' None, w)
      else let row = \<lparr>jobId = jid, jobType = jtype, relatedId = rid, js_status = ''waiting'',
                       progress = 0, errorMessage = None\<rparr>
           in Inr (row, w\<lparr>jobStatuses := jobStatuses w @ [row]\<rparr>))"

definition updateJobStatus :: "string \<Rightarrow> JobStatusData \<Rightarrow> JobStatus io" where
  "updateJobStatus jid d w =
     (case findUnique jobId jid (jobStatuses w) of
        None \<Rightarrow> Inl (record_not_found, w)
      | Some r \<Rightarrow>
          Inr (apply_JobStatusData d r,
               w\<lparr>jobStatuses := rewrite_rows jobId jid (apply_JobStatusData d) (jobStatuses w)\<rparr>))"

definition markJobActive :: "string \<Rightarrow> int \<Rightarrow> JobStatus io" where
  "markJobActive jid p =
     updateJobStatus jid \<lparr>d_status = Some ''active'', d_progress = Some p, d_errorMessage = None\<rparr>"

definition updateJobProgress :: "string \<Rightarrow> int \<Rightarrow> JobStatus io" where
  "updateJobProgress jid p =
     updateJobStatus jid
       \<lparr>d_status = None, d_progress = Some (min 100 (max 0 p)), d_errorMessage = None\<rparr>"

definition markJobCompleted :: "string \<Rightarrow> JobStatus io" where
  "markJobCompleted jid =
     updateJobStatus jid
       \<lparr>d_status = Some ''completed'', d_progress = Some 100, d_errorMessage = None\<rparr>"

definition markJobFailed :: "string \<Rightarrow> string \<Rightarrow> JobStatus io" where
  "markJobFailed jid msg =
     updateJobStatus jid
       \<lparr>d_status = Some ''failed'', d_progress = None, d_errorMessage = Some msg\<rparr>"

definition getJobStatus :: "string \<Rightarrow> world \<Rightarrow> JobStatus option" where
  "getJobStatus jid w = findUnique jobId jid (jobStatuses w)"


section \<open>Update stream (src/app/api/analysis/[id]/stream/route.ts)\<close>

text \<open>
  The events written to the subscriber, and one run of the polling callback. The rows
  \<open>relatedJobs\<close> are what the store returns for the query of that poll; a failed query
  is \<open>None\<close>. \<open>seen\<close> is the map \<open>lastJobStates\<close> kept across polls.
\<close>

datatype sse_event =
  Connected
| Progress string string string string int "string option"
| Complete string string string string
| Error string string string string "string option"
| PollError

type_synonym lastJobStates = "string \<rightharpoonup> (string \<times> int)"

definition job_events :: "JobStatus \<Rightarrow> sse_event list" where
  "job_events job =
     [Progress (jobType job) (jobId job) (relatedId job) (js_status job) (progress job)
        (errorMessage job)]
     @ (if js_status job = ''completed''
        then [Complete (jobType job) (jobId job) (relatedId job) (js_status job)] else [])
     @ (if js_status job = ''failed''
        then [Error (jobType job) (jobId job) (relatedId job) (js_status job) (errorMessage job)]
        else [])"

fun poll_jobs :: "JobStatus list \<Rightarrow> lastJobStates \<Rightarrow> sse_event list \<times> lastJobStates" where
  "poll_jobs [] seen = ([], seen)"
| "poll_jobs (job # jobs) seen =
     (let lastState = seen (jobId job);
          currentState = (js_status job, progress job)
      in if (case lastState of
               None \<Rightarrow> True
             | Some l \<Rightarrow> fst l \<noteq> fst currentState \<or> snd l \<noteq> snd currentState)
         then (let (evs, seen') = poll_jobs jobs (seen(jobId job \<mapsto> currentState))
               in (job_events job @ evs, seen'))
         else poll_jobs jobs seen)"

definition poll :: "JobStatus list option \<Rightarrow> lastJobStates \<Rightarrow> sse_event list \<times> lastJobStates" where
  "poll relatedJobs seen =
     (case relatedJobs of
        None \<Rightarrow> ([PollError], seen)
      | Some jobs \<Rightarrow> poll_jobs jobs seen)"

text \<open>The stream over a sequence of polls, after the initial \<open>connected\<close> event.\<close>

fun polls :: "JobStatus list option list \<Rightarrow> lastJobStates \<Rightarrow> sse_event list" where
  "polls [] seen = []"
| "polls (r # rs) seen = (let (evs, seen') = poll r seen in evs @ polls rs seen')"

definition stream :: "JobStatus list option list \<Rightarrow> sse_event list" where
  "stream rs = Connected # polls rs Map.empty"

section \<open>Stage workers (src/lib/queue/workers)\<close>

text \<open>
  Each worker is its \<open>try\<close> body and its \<open>catch\<close> handler. The handler runs in
  the state the body had reached when it threw. A worker returns what its promise
  settles with (\<open>Inl\<close> the value it rejects with, \<open>Inr\<close> its result) and the state it
  leaves. The workers' calls to \<open>job.updateProgress\<close> write to the queue library's own
  copy of the job and are left out, as are the console messages.
\<close>

definition lines_str :: "string list \<Rightarrow> string" where
  "lines_str ls = concat (map (\<lambda>l. l @ [CHR 0x0A]) ls)"

text \<open>
  The shape shared by the four workers: run the body; if it throws, build the message
  with \<open>formatErrorMessage\<close>, run the handler's writes in the state reached, and
  rethrow \<open>new Error(errorMessage)\<close> (or whatever a write of the handler throws).
\<close>

definition try_catch ::
  "'a io \<Rightarrow> (thrown \<Rightarrow> string) \<Rightarrow> (string \<Rightarrow> 'b io) \<Rightarrow> world \<Rightarrow> (thrown + 'a) \<times> world" where
  "try_catch body describe handler w =
     (case body w of
        Inr (res, w') \<Rightarrow> (Inr res, w')
      | Inl (error, w') \<Rightarrow>
          (let errorMessage = describe error
           in case handler errorMessage w' of
                Inl (error', w'') \<Rightarrow> (Inl error', w'')
              | Inr (_, w'') \<Rightarrow> (Inl (ErrorObj errorMessage None), w'')))"

subsection \<open>Stock analysis (stockAnalysisWorker.ts)\<close>

definition mockRawAnalysis :: "StockAnalysisJobData \<Rightarrow> string" where
  "mockRawAnalysis d =
     lines_str
       [[],
        ''Deep Analysis of '' @ a_companyName d @ '' (''
          @ (case a_ticker d of None \<Rightarrow> ''N/A'' | Some t \<Rightarrow> if t = [] then ''N/A'' else t) @ '')'',
        ''Attempt: '' @ num_str (a_attemptNumber d),
        [],
        ''This is a placeholder for the AI-generated deep stock analysis.'',
        ''In production, this would be a comprehensive 7-10 page report including:'',
        ''- Company overview and business model'',
        ''- Financial analysis'',
        ''- Competitive positioning'',
        ''- Growth opportunities'',
        ''- Risk factors'',
        ''- Valuation assessment'',
        ''- Investment thesis'']"

text \<open>The result object \<open>{success, stockAnalysisId, judgeJobId}\<close>.\<close>

datatype analysis_result = AnalysisQueued string "string option"

definition stockAnalysis_try :: "string \<Rightarrow> StockAnalysisJobData \<Rightarrow> analysis_result io" where
  "stockAnalysis_try jid d =
     then_io (markJobActive jid 0)
    (then_io (stockAnalysis_update (a_stockAnalysisId d)
                (\<lambda>a. a\<lparr>sa_status := ''analyzing'', sa_attemptCount := a_attemptNumber d\<rparr>))
    (then_io (updateJobProgress jid 10)
    (then_io (updateJobProgress jid 80)
    (then_io (stockAnalysis_update (a_stockAnalysisId d)
                (\<lambda>a. a\<lparr>sa_rawAnalysis := mockRawAnalysis d\<rparr>))
    (then_io (updateJobProgress jid 90)
    (bind_io (judgeReviewQueue_add ''judge-review''
                \<lparr>j_stockAnalysisId = a_stockAnalysisId d, j_stockId = a_stockId d,
                 j_rawAnalysis = mockRawAnalysis d, j_companyName = a_companyName d,
                 j_attemptNumber = a_attemptNumber d\<rparr>
                (Some (''judge-'' @ a_stockAnalysisId d @ ''-'' @ num_str (a_attemptNumber d)))
                None None)
       (\<lambda>judgeJob.
          then_io (markJobCompleted jid)
            (return_io (AnalysisQueued (a_stockAnalysisId d) (q_jobId judgeJob))))))))))"

definition processStockAnalysis ::
  "string \<Rightarrow> StockAnalysisJobData \<Rightarrow> world \<Rightarrow> (thrown + analysis_result) \<times> world" where
  "processStockAnalysis jid d =
     try_catch (stockAnalysis_try jid d)
       (\<lambda>error. formatErrorMessage error (Some (''Stock analysis failed for '' @ a_companyName d)))
       (\<lambda>errorMessage.
          then_io (stockAnalysis_update (a_stockAnalysisId d)
                     (\<lambda>a. a\<lparr>sa_status := ''review_failed'',
                             sa_failureReason := Some errorMessage\<rparr>))
            (markJobFailed jid errorMessage))"

subsection \<open>Judge review (judgeReviewWorker.ts)\<close>

definition MAX_RETRY_ATTEMPTS :: int where
  "MAX_RETRY_ATTEMPTS = 3"

text \<open>
  The verdict is drawn at random in the source (\<open>Math.random() > 0.3\<close>); it is the
  parameter \<open>mockApproved\<close> here.
\<close>

definition mockJudgeReview :: "bool \<Rightarrow> string \<Rightarrow> string" where
  "mockJudgeReview mockApproved companyName =
     (if mockApproved
      then ''APPROVED: The analysis for '' @ companyName
             @ '' is comprehensive and well-researched.''
      else ''REJECTED: The analysis for '' @ companyName
             @ '' lacks depth in financial analysis. Please retry with more focus on valuation metrics.'')"

text \<open>
  The three result objects: \<open>{approved: true, formatJobId}\<close>,
  \<open>{approved: false, retryQueued: true, retryJobId}\<close> and
  \<open>{approved: false, retryQueued: false, maxRetriesExceeded: true}\<close>.
\<close>

datatype judge_result =
  Approved "string option"
| RetryQueued "string option"
| MaxRetriesExceeded

definition judgeReview_try :: "bool \<Rightarrow> string \<Rightarrow> JudgeReviewJobData \<Rightarrow> judge_result io" where
  "judgeReview_try mockApproved jid d =
     then_io (markJobActive jid 0)
    (then_io (updateJobProgress jid 20)
    (then_io (updateJobProgress jid 70)
    (then_io (stockAnalysis_update (j_stockAnalysisId d)
                (\<lambda>a. a\<lparr>sa_judgeReview := mockJudgeReview mockApproved (j_companyName d)\<rparr>))
    (if mockApproved then
       then_io (updateJobProgress jid 90)
      (bind_io (formatInsightsQueue_add ''format-insights''
                  \<lparr>f_stockAnalysisId = j_stockAnalysisId d, f_rawAnalysis = j_rawAnalysis d,
                   f_judgeReview = mockJudgeReview mockApproved (j_companyName d),
                   f_companyName = j_companyName d\<rparr>
                  (Some (''format-'' @ j_stockAnalysisId d)) None None)
         (\<lambda>formatJob.
            then_io (markJobCompleted jid) (return_io (Approved (q_jobId formatJob)))))
     else if j_attemptNumber d < MAX_RETRY_ATTEMPTS then
       then_io (updateJobProgress jid 90)
      (bind_io (stockAnalysisQueue_add ''stock-analysis-retry''
                  \<lparr>a_stockId = j_stockId d, a_stockAnalysisId = j_stockAnalysisId d,
                   a_companyName = j_companyName d, a_ticker = Some (j_companyName d),
                   a_subSectorName = ''Unknown'', a_attemptNumber = j_attemptNumber d + 1\<rparr>
                  (Some (''stock-'' @ j_stockAnalysisId d @ ''-attempt-''
                           @ num_str (j_attemptNumber d + 1)))
                  (Some 5000) None)
         (\<lambda>retryJob.
            then_io (markJobCompleted jid) (return_io (RetryQueued (q_jobId retryJob)))))
     else
       then_io (stockAnalysis_update (j_stockAnalysisId d)
                  (\<lambda>a. a\<lparr>sa_status := ''review_failed'',
                          sa_failureReason :=
                            Some (''Judge rejected after '' @ num_str MAX_RETRY_ATTEMPTS
                                    @ '' attempts: ''
                                    @ mockJudgeReview mockApproved (j_companyName d))\<rparr>))
      (then_io (markJobCompleted jid) (return_io MaxRetriesExceeded))))))"

definition processJudgeReview ::
  "bool \<Rightarrow> string \<Rightarrow> JudgeReviewJobData \<Rightarrow> world \<Rightarrow> (thrown + judge_result) \<times> world" where
  "processJudgeReview mockApproved jid d =
     try_catch (judgeReview_try mockApproved jid d)
       (\<lambda>error. formatErrorMessage error (Some (''Judge review failed for '' @ j_companyName d)))
       (\<lambda>errorMessage. markJobFailed jid errorMessage)"

subsection \<open>Format insights (formatInsightsWorker.ts)\<close>

definition mockInsights :: "string \<Rightarrow> FormattedInsights" where
  "mockInsights companyName =
     \<lparr>recommendation = ''Buy'',
      targetPrice = Some 150,
      keyMetrics =
        [(''P/E Ratio'', MetricNum (37 / 2), Some ''positive''),
         (''Revenue Growth (YoY)'', MetricStr ''23%'', Some ''positive''),
         (''Profit Margin'', MetricStr ''15.2%'', Some ''neutral''),
         (''Debt/Equity'', MetricNum (9 / 20), Some ''positive'')],
      opportunities =
        [''Expanding into emerging markets with strong demand'',
         ''New product line launching Q3 2026'',
         ''Strategic partnerships with industry leaders''],
      risks =
        [''Regulatory uncertainty in key markets'',
         ''Increasing competition from new entrants'',
         ''Supply chain vulnerabilities''],
      catalysts =
        [''Q2 earnings report (expected strong results)'',
         ''FDA approval decision (pending)'',
         ''Annual investor day presentation''],
      summary = companyName @ '' demonstrates strong fundamentals with impressive revenue growth and expanding market presence. The company is well-positioned to capitalize on industry trends, though investors should monitor regulatory developments.''\<rparr>"

text \<open>
  The nested read \<open>stockAnalysis \<rightarrow> stock \<rightarrow> subSector \<rightarrow> stocks \<rightarrow> deepAnalysis\<close> of the
  completion check, resolved over the tables: the stocks of a sub-sector are the stock
  rows that reference it, the deep analysis of a stock is the analysis row that
  references it.
\<close>

definition stocks_of :: "SubSector \<Rightarrow> world \<Rightarrow> Stock list" where
  "stocks_of subSector w = filter (\<lambda>s. st_subSectorId s = ss_id subSector) (stocks w)"

definition deepAnalysis :: "Stock \<Rightarrow> world \<Rightarrow> StockAnalysis option" where
  "deepAnalysis stock w = findUnique sa_stockId (st_id stock) (stockAnalyses w)"

definition topStocks :: "SubSector \<Rightarrow> world \<Rightarrow> Stock list" where
  "topStocks subSector w = sort_key st_rank (filter (\<lambda>s. st_rank s \<le> 5) (stocks_of subSector w))"

definition allCompleted :: "SubSector \<Rightarrow> world \<Rightarrow> bool" where
  "allCompleted subSector w =
     list_all (\<lambda>stock. case deepAnalysis stock w of
                         None \<Rightarrow> False
                       | Some a \<Rightarrow> sa_status a = ''completed'')
       (topStocks subSector w)"

definition null_dereference :: thrown where
  "null_dereference = ErrorObj ''Cannot read properties of null'' None"

definition completion_check :: "string \<Rightarrow> unit io" where
  "completion_check stockAnalysisId w =
     (case findUnique sa_id stockAnalysisId (stockAnalyses w) of
        None \<Rightarrow> Inr ((), w)
      | Some stockAnalysis \<Rightarrow>
          (case findUnique st_id (sa_stockId stockAnalysis) (stocks w) of
             None \<Rightarrow> Inl (null_dereference, w)
           | Some stock \<Rightarrow>
               (case findUnique ss_id (st_subSectorId stock) (subSectors w) of
                  None \<Rightarrow> Inr ((), w)
                | Some subSector \<Rightarrow>
                    if allCompleted subSector w
                    then then_io (subSector_update (ss_id subSector)
                                    (\<lambda>s. s\<lparr>ss_status := ''completed''\<rparr>))
                           (return_io ()) w
                    else Inr ((), w))))"

text \<open>The result object \<open>{success, stockAnalysisId, insights}\<close>.\<close>

datatype format_result = Formatted string FormattedInsights

definition formatInsights_try :: "string \<Rightarrow> FormatInsightsJobData \<Rightarrow> format_result io" where
  "formatInsights_try jid d =
     then_io (markJobActive jid 0)
    (then_io (updateJobProgress jid 20)
    (then_io (updateJobProgress jid 70)
    (then_io (stockAnalysis_update (f_stockAnalysisId d)
                (\<lambda>a. a\<lparr>sa_insights := Some (mockInsights (f_companyName d)),
                        sa_status := ''completed''\<rparr>))
    (then_io (updateJobProgress jid 90)
    (then_io (completion_check (f_stockAnalysisId d))
    (then_io (markJobCompleted jid)
       (return_io (Formatted (f_stockAnalysisId d) (mockInsights (f_companyName d))))))))))"

definition processFormatInsights ::
  "string \<Rightarrow> FormatInsightsJobData \<Rightarrow> world \<Rightarrow> (thrown + format_result) \<times> world" where
  "processFormatInsights jid d =
     try_catch (formatInsights_try jid d)
       (\<lambda>error. formatErrorMessage error (Some (''Format insights failed for '' @ f_companyName d)))
       (\<lambda>errorMessage.
          then_io (stockAnalysis_update (f_stockAnalysisId d)
                     (\<lambda>a. a\<lparr>sa_status := ''review_failed'',
                             sa_failureReason := Some errorMessage\<rparr>))
            (markJobFailed jid errorMessage))"

subsection \<open>Stock ranking (stockRankingWorker.ts)\<close>

text \<open>
  The loops of the ranking worker run an operation over a list, in order, and stop at
  the first rejection. The ids of the analysis rows it creates are chosen by the store:
  \<open>newId k\<close> is the id given to the \<open>k\<close>-th row created by the run.
\<close>

fun mapM_io :: "('a \<Rightarrow> 'b io) \<Rightarrow> 'a list \<Rightarrow> ('b list) io" where
  "mapM_io f [] = return_io []"
| "mapM_io f (x # xs) = bind_io (f x) (\<lambda>y. bind_io (mapM_io f xs) (\<lambda>ys. return_io (y # ys)))"

definition rankedStocks :: "RankingCandidate list \<Rightarrow> (RankingCandidate \<times> int) list" where
  "rankedStocks cs = map (\<lambda>(index, stock). (stock, int index + 1)) (enumerate 0 cs)"

text \<open>The result object \<open>{success, subSectorId, totalStocks, analysisJobsQueued, jobIds}\<close>.\<close>

datatype ranking_result = Ranked string nat nat "string option list"

definition stockRanking_try ::
  "(nat \<Rightarrow> string) \<Rightarrow> string \<Rightarrow> StockRankingJobData \<Rightarrow> ranking_result io" where
  "stockRanking_try newId jid d =
     then_io (markJobActive jid 0)
    (then_io (subSector_update (r_subSectorId d) (\<lambda>s. s\<lparr>ss_status := ''analyzing''\<rparr>))
    (then_io (updateJobProgress jid 20)
    (then_io (updateJobProgress jid 60)
    (then_io (mapM_io (\<lambda>(stock, rank). stock_update (c_id stock) (\<lambda>s. s\<lparr>st_rank := rank\<rparr>))
                (rankedStocks (r_stocks d)))
    (then_io (updateJobProgress jid 70)
    (bind_io (mapM_io (\<lambda>(k, (stock, rank)). stockAnalysis_create (newId k) (c_id stock))
                (enumerate 0 (take 5 (rankedStocks (r_stocks d)))))
       (\<lambda>stockAnalyses.
    then_io (updateJobProgress jid 80)
    (bind_io (\<lambda>w. Inr (findUnique ss_id (r_subSectorId d) (subSectors w), w))
       (\<lambda>subSector.
    bind_io (mapM_io
               (\<lambda>((stock, rank), analysis).
                  stockAnalysisQueue_add ''stock-analysis''
                    \<lparr>a_stockId = c_id stock, a_stockAnalysisId = sa_id analysis,
                     a_companyName = c_companyName stock, a_ticker = c_ticker stock,
                     a_subSectorName =
                       (case subSector of
                          None \<Rightarrow> ''Unknown''
                        | Some s \<Rightarrow> if ss_name s = [] then ''Unknown'' else ss_name s),
                     a_attemptNumber = 1\<rparr>
                    (Some (''stock-'' @ sa_id analysis @ ''-attempt-1''))
                    None (Some rank))
               (zip (take 5 (rankedStocks (r_stocks d))) stockAnalyses))
       (\<lambda>queuedJobs.
    then_io (updateJobProgress jid 100)
    (then_io (markJobCompleted jid)
       (return_io (Ranked (r_subSectorId d) (length (r_stocks d)) (length queuedJobs)
                     (map q_jobId queuedJobs))))))))))))))"

definition processStockRanking ::
  "(nat \<Rightarrow> string) \<Rightarrow> string \<Rightarrow> StockRankingJobData \<Rightarrow> world \<Rightarrow>
   (thrown + ranking_result) \<times> world" where
  "processStockRanking newId jid d =
     try_catch (stockRanking_try newId jid d)
       (\<lambda>error. formatErrorMessage error (Some ''Stock ranking failed''))
       (\<lambda>errorMessage.
          then_io (subSector_update (r_subSectorId d) (\<lambda>s. s\<lparr>ss_status := ''pending''\<rparr>))
            (markJobFailed jid errorMessage))"


section \<open>Notions used to state the properties\<close>

definition getStockAnalysis :: "string \<Rightarrow> world \<Rightarrow> StockAnalysis option" where
  "getStockAnalysis k w = findUnique sa_id k (stockAnalyses w)"

definition getSubSector :: "string \<Rightarrow> world \<Rightarrow> SubSector option" where
  "getSubSector k w = findUnique ss_id k (subSectors w)"

text \<open>
  The derived top 5 of a sub-sector as the specification words it: its 5 lowest-rank
  stocks with rank at least 1, all ranked stocks when fewer than 5 are ranked.
\<close>

definition top5_by_spec :: "Stock list \<Rightarrow> Stock list" where
  "top5_by_spec xs = take 5 (sort_key st_rank (filter (\<lambda>s. 1 \<le> st_rank s) xs))"

definition has_completed_analysis :: "world \<Rightarrow> Stock \<Rightarrow> bool" where
  "has_completed_analysis w stock =
     (case deepAnalysis stock w of None \<Rightarrow> False | Some a \<Rightarrow> sa_status a = ''completed'')"

section \<open>Example states\<close>

definition empty_world :: world where
  "empty_world = \<lparr>jobStatuses = [], stockAnalyses = [], stocks = [], subSectors = [],
                   stockAnalysisQueue = [], judgeReviewQueue = [], formatInsightsQueue = []\<rparr>"

definition tracked :: "string \<Rightarrow> int \<Rightarrow> JobStatus" where
  "tracked s p = \<lparr>jobId = ''stock-a1-attempt-1'', jobType = ''stock_analysis'', relatedId = ''a1'',
                  js_status = s, progress = p, errorMessage = None\<rparr>"

definition tracked_world :: world where
  "tracked_world = empty_world\<lparr>jobStatuses := [tracked ''active'' 40]\<rparr>"

definition review_world :: world where
  "review_world =
     empty_world
       \<lparr>jobStatuses :=
          [\<lparr>jobId = ''stock-a1-attempt-1'', jobType = ''stock_analysis'', relatedId = ''s1'',
            js_status = ''waiting'', progress = 0, errorMessage = None\<rparr>,
           \<lparr>jobId = ''judge-a1-1'', jobType = ''judge_review'', relatedId = ''a1'',
            js_status = ''waiting'', progress = 0, errorMessage = None\<rparr>],
        stockAnalyses :=
          [\<lparr>sa_id = ''a1'', sa_stockId = ''s1'', sa_status = ''pending'', sa_rawAnalysis = [],
            sa_judgeReview = [], sa_insights = None, sa_attemptCount = 1,
            sa_failureReason = None\<rparr>]\<rparr>"

definition review_job :: "int \<Rightarrow> JudgeReviewJobData" where
  "review_job n = \<lparr>j_stockAnalysisId = ''a1'', j_stockId = ''s1'', j_rawAnalysis = ''report'',
                    j_companyName = ''Apple Inc.'', j_attemptNumber = n\<rparr>"

definition original_job :: StockAnalysisJobData where
  "original_job = \<lparr>a_stockId = ''s1'', a_stockAnalysisId = ''a1'', a_companyName = ''Apple Inc.'',
                    a_ticker = Some ''AAPL'', a_subSectorName = ''Consumer Electronics'',
                    a_attemptNumber = 1\<rparr>"

text \<open>
  A sub-sector under analysis with two stocks. The first has rank 1 and the analysis
  \<open>a1\<close>, about to be formatted; the second has the given rank and the given analyses.
\<close>

definition cascade_subSector :: SubSector where
  "cascade_subSector = \<lparr>ss_id = ''ss1'', ss_sectorAnalysisId = ''sec1'', ss_name = ''Solar'',
                         ss_summary = [], ss_status = ''analyzing''\<rparr>"

definition cascade_world :: "int \<Rightarrow> StockAnalysis list \<Rightarrow> world" where
  "cascade_world rank2 analyses2 =
     empty_world
       \<lparr>jobStatuses :=
          [\<lparr>jobId = ''format-a1'', jobType = ''format_insights'', relatedId = ''a1'',
            js_status = ''waiting'', progress = 0, errorMessage = None\<rparr>],
        stockAnalyses :=
          \<lparr>sa_id = ''a1'', sa_stockId = ''s1'', sa_status = ''analyzing'', sa_rawAnalysis = ''report'',
           sa_judgeReview = ''APPROVED'', sa_insights = None, sa_attemptCount = 1,
           sa_failureReason = None\<rparr> # analyses2,
        stocks :=
          [\<lparr>st_id = ''s1'', st_subSectorId = ''ss1'', st_companyName = ''First Solar'',
            st_ticker = Some ''FSLR'', st_rank = 1, st_preliminaryNotes = []\<rparr>,
           \<lparr>st_id = ''s2'', st_subSectorId = ''ss1'', st_companyName = ''Enphase'',
            st_ticker = Some ''ENPH'', st_rank = rank2, st_preliminaryNotes = []\<rparr>],
        subSectors := [cascade_subSector]\<rparr>"

definition cascade_job :: FormatInsightsJobData where
  "cascade_job = \<lparr>f_stockAnalysisId = ''a1'', f_rawAnalysis = ''report'',
                   f_judgeReview = ''APPROVED'', f_companyName = ''First Solar''\<rparr>"

definition second_analysis :: StockAnalysis where
  "second_analysis = \<lparr>sa_id = ''a2'', sa_stockId = ''s2'', sa_status = ''completed'',
                       sa_rawAnalysis = ''report'', sa_judgeReview = ''APPROVED'',
                       sa_insights = Some (mockInsights ''Enphase''), sa_attemptCount = 1,
                       sa_failureReason = None\<rparr>"

section \<open>Assertions about the effect of one worker run\<close>

text \<open>
  A triple \<open>hoare P m Q E\<close> says: started in a state satisfying \<open>P\<close>, the action \<open>m\<close>
  either resolves with a value \<open>a\<close> in a state satisfying \<open>Q a\<close>, or rejects in a state
  satisfying \<open>E\<close>.  The remaining definitions name the jobs that the workers enqueue and relate
  the state after a run to the state \<open>w0\<close> before it.
\<close>

definition hoare :: "(world \<Rightarrow> bool) \<Rightarrow> 'a io \<Rightarrow> ('a \<Rightarrow> world \<Rightarrow> bool) \<Rightarrow> (world \<Rightarrow> bool) \<Rightarrow> bool" where
  "hoare P m Q E = (\<forall>w. P w \<longrightarrow> (case m w of Inl (e, w') \<Rightarrow> E w' | Inr (a, w') \<Rightarrow> Q a w'))"

definition has_row :: "string \<Rightarrow> world \<Rightarrow> bool" where
  "has_row jid w \<longleftrightarrow> findUnique jobId jid (jobStatuses w) \<noteq> None"

definition same_count :: "StockAnalysis \<Rightarrow> StockAnalysis \<Rightarrow> bool" where
  "same_count a a' = (sa_id a' = sa_id a \<and> sa_attemptCount a' = sa_attemptCount a)"

definition count_set :: "string \<Rightarrow> int \<Rightarrow> StockAnalysis \<Rightarrow> StockAnalysis \<Rightarrow> bool" where
  "count_set x n a a' =
     (sa_id a' = sa_id a \<and>
      (sa_attemptCount a' = sa_attemptCount a \<or> (sa_id a = x \<and> sa_attemptCount a' = n)))"

definition judge_job :: "StockAnalysisJobData \<Rightarrow> JudgeReviewJobData queued" where
  "judge_job d =
     \<lparr>q_name = ''judge-review'',
      q_data = \<lparr>j_stockAnalysisId = a_stockAnalysisId d, j_stockId = a_stockId d,
                j_rawAnalysis = mockRawAnalysis d, j_companyName = a_companyName d,
                j_attemptNumber = a_attemptNumber d\<rparr>,
      q_jobId = Some (''judge-'' @ a_stockAnalysisId d @ ''-'' @ num_str (a_attemptNumber d)),
      q_delay = None, q_priority = None\<rparr>"

definition sa_rows :: "world \<Rightarrow> StockAnalysisJobData \<Rightarrow> world \<Rightarrow> bool" where
  "sa_rows w0 d w \<longleftrightarrow>
      list_all2 (count_set (a_stockAnalysisId d) (a_attemptNumber d)) (stockAnalyses w0) (stockAnalyses w)
    \<and> stockAnalysisQueue w = stockAnalysisQueue w0
    \<and> formatInsightsQueue w = formatInsightsQueue w0"

definition sa_count :: "StockAnalysisJobData \<Rightarrow> world \<Rightarrow> bool" where
  "sa_count d w \<longleftrightarrow>
     (\<forall>a \<in> set (stockAnalyses w). sa_id a = a_stockAnalysisId d \<longrightarrow> sa_attemptCount a = a_attemptNumber d)"

definition sa_before :: "world \<Rightarrow> StockAnalysisJobData \<Rightarrow> world \<Rightarrow> bool" where
  "sa_before w0 d w \<longleftrightarrow> sa_rows w0 d w \<and> judgeReviewQueue w = judgeReviewQueue w0"

definition sa_after :: "world \<Rightarrow> StockAnalysisJobData \<Rightarrow> world \<Rightarrow> bool" where
  "sa_after w0 d w \<longleftrightarrow> sa_rows w0 d w \<and> sa_count d w
     \<and> judgeReviewQueue w = judgeReviewQueue w0 @ [judge_job d]"

definition format_job :: "bool \<Rightarrow> JudgeReviewJobData \<Rightarrow> FormatInsightsJobData queued" where
  "format_job mockApproved d =
     \<lparr>q_name = ''format-insights'',
      q_data = \<lparr>f_stockAnalysisId = j_stockAnalysisId d, f_rawAnalysis = j_rawAnalysis d,
                f_judgeReview = mockJudgeReview mockApproved (j_companyName d),
                f_companyName = j_companyName d\<rparr>,
      q_jobId = Some (''format-'' @ j_stockAnalysisId d), q_delay = None, q_priority = None\<rparr>"

definition retry_job :: "JudgeReviewJobData \<Rightarrow> StockAnalysisJobData queued" where
  "retry_job d =
     \<lparr>q_name = ''stock-analysis-retry'',
      q_data = \<lparr>a_stockId = j_stockId d, a_stockAnalysisId = j_stockAnalysisId d,
                a_companyName = j_companyName d, a_ticker = Some (j_companyName d),
                a_subSectorName = ''Unknown'', a_attemptNumber = j_attemptNumber d + 1\<rparr>,
      q_jobId = Some (''stock-'' @ j_stockAnalysisId d @ ''-attempt-''
                        @ num_str (j_attemptNumber d + 1)),
      q_delay = Some 5000, q_priority = None\<rparr>"

definition jr_rows :: "world \<Rightarrow> world \<Rightarrow> bool" where
  "jr_rows w0 w \<longleftrightarrow>
     list_all2 same_count (stockAnalyses w0) (stockAnalyses w)
   \<and> judgeReviewQueue w = judgeReviewQueue w0"

definition jr_before :: "world \<Rightarrow> world \<Rightarrow> bool" where
  "jr_before w0 w \<longleftrightarrow> jr_rows w0 w
   \<and> stockAnalysisQueue w = stockAnalysisQueue w0
   \<and> formatInsightsQueue w = formatInsightsQueue w0"

definition jr_format :: "world \<Rightarrow> bool \<Rightarrow> JudgeReviewJobData \<Rightarrow> world \<Rightarrow> bool" where
  "jr_format w0 b d w \<longleftrightarrow> b \<and> jr_rows w0 w
   \<and> stockAnalysisQueue w = stockAnalysisQueue w0
   \<and> formatInsightsQueue w = formatInsightsQueue w0 @ [format_job b d]"

definition jr_retry :: "world \<Rightarrow> bool \<Rightarrow> JudgeReviewJobData \<Rightarrow> world \<Rightarrow> bool" where
  "jr_retry w0 b d w \<longleftrightarrow> \<not> b \<and> j_attemptNumber d < 3 \<and> jr_rows w0 w
   \<and> stockAnalysisQueue w = stockAnalysisQueue w0 @ [retry_job d]
   \<and> formatInsightsQueue w = formatInsightsQueue w0"

definition jr_failed :: "world \<Rightarrow> bool \<Rightarrow> JudgeReviewJobData \<Rightarrow> world \<Rightarrow> bool" where
  "jr_failed w0 b d w \<longleftrightarrow> \<not> b \<and> 3 \<le> j_attemptNumber d \<and> jr_before w0 w
   \<and> (\<forall>a \<in> set (stockAnalyses w). sa_id a = j_stockAnalysisId d \<longrightarrow> sa_status a = ''review_failed'')"

definition jr_post :: "world \<Rightarrow> bool \<Rightarrow> JudgeReviewJobData \<Rightarrow> judge_result \<Rightarrow> world \<Rightarrow> bool" where
  "jr_post w0 b d res w =
     (case res of
        Approved i \<Rightarrow> jr_format w0 b d w
      | RetryQueued i \<Rightarrow> jr_retry w0 b d w
      | MaxRetriesExceeded \<Rightarrow> jr_failed w0 b d w)"

definition fi_keep :: "world \<Rightarrow> world \<Rightarrow> bool" where
  "fi_keep w0 w \<longleftrightarrow> jr_rows w0 w \<and> stockAnalysisQueue w = stockAnalysisQueue w0"

definition first_job ::
  "SubSector option \<Rightarrow> (RankingCandidate \<times> int) \<times> StockAnalysis \<Rightarrow> StockAnalysisJobData queued" where
  "first_job subSector z =
     (case z of ((stock, rank), analysis) \<Rightarrow>
        \<lparr>q_name = ''stock-analysis'',
         q_data = \<lparr>a_stockId = c_id stock, a_stockAnalysisId = sa_id analysis,
                   a_companyName = c_companyName stock, a_ticker = c_ticker stock,
                   a_subSectorName =
                     (case subSector of
                        None \<Rightarrow> ''Unknown''
                      | Some s \<Rightarrow> if ss_name s = [] then ''Unknown'' else ss_name s),
                   a_attemptNumber = 1\<rparr>,
         q_jobId = Some (''stock-'' @ sa_id analysis @ ''-attempt-1''),
         q_delay = None, q_priority = Some rank\<rparr>)"

definition rk_created :: "world \<Rightarrow> StockAnalysis list \<Rightarrow> world \<Rightarrow> bool" where
  "rk_created w0 rows w \<longleftrightarrow>
     stockAnalyses w = stockAnalyses w0 @ rows
   \<and> stockAnalysisQueue w = stockAnalysisQueue w0
   \<and> judgeReviewQueue w = judgeReviewQueue w0
   \<and> list_all (\<lambda>a. sa_attemptCount a = 1) rows
   \<and> distinct (map sa_id rows)
   \<and> (\<forall>a \<in> set rows. sa_id a \<notin> sa_id ` set (stockAnalyses w0))"

definition rk_added ::
  "world \<Rightarrow> StockAnalysis list \<Rightarrow> StockAnalysisJobData queued list \<Rightarrow> world \<Rightarrow> bool" where
  "rk_added w0 rows jobs w \<longleftrightarrow>
     stockAnalyses w = stockAnalyses w0 @ rows
   \<and> stockAnalysisQueue w = stockAnalysisQueue w0 @ jobs
   \<and> judgeReviewQueue w = judgeReviewQueue w0
   \<and> list_all (\<lambda>a. sa_attemptCount a = 1) rows
   \<and> distinct (map sa_id rows)
   \<and> (\<forall>a \<in> set rows. sa_id a \<notin> sa_id ` set (stockAnalyses w0))
   \<and> list_all (\<lambda>j. a_attemptNumber (q_data j) = 1
                   \<and> q_jobId j = Some (''stock-'' @ a_stockAnalysisId (q_data j) @ ''-attempt-1'')) jobs
   \<and> distinct (map (\<lambda>j. a_stockAnalysisId (q_data j)) jobs)
   \<and> set (map (\<lambda>j. a_stockAnalysisId (q_data j)) jobs) \<subseteq> set (map sa_id rows)"

definition rk_any :: "world \<Rightarrow> world \<Rightarrow> bool" where
  "rk_any w0 w \<longleftrightarrow> (\<exists>rows jobs. rk_added w0 rows jobs w)"

section \<open>The pipeline as a whole\<close>

text \<open>
  Besides the four workers, two routes write the analysis table and the stock-analysis
  queue: \<open>POST /api/stock/[id]/reanalyze\<close>, for one stock, and
  \<open>POST /api/subsector/[id]/approve\<close>, for each of the first five stocks of a
  sub-sector that is already ranked. Both make the same three calls: create the
  StockAnalysis row, add the first stock-analysis job without a job id, and create the
  tracking row under the id the queue gave the job (\<open>analysisJob.id\<close>, here
  \<open>assigned\<close>). The workers themselves never call \<open>createJobStatus\<close>.
\<close>

definition job_id :: "string \<Rightarrow> 'd queued \<Rightarrow> string" where
  "job_id assigned job = (case q_jobId job of None \<Rightarrow> assigned | Some i \<Rightarrow> i)"

text \<open>
  The body of the loop of the approve route (approve/route.ts, lines 75 to 98) for one
  stock of the sub-sector. The rest of that route writes the sub-sector table, the
  ranking queue and the tracker table only.
\<close>

definition startAnalysis :: "string \<Rightarrow> string \<Rightarrow> Stock \<Rightarrow> string \<Rightarrow> JobStatus io" where
  "startAnalysis newId assigned stock subSectorName =
     bind_io (stockAnalysis_create newId (st_id stock))
       (\<lambda>stockAnalysis.
     bind_io (stockAnalysisQueue_add ''stock-analysis''
                \<lparr>a_stockId = st_id stock, a_stockAnalysisId = sa_id stockAnalysis,
                 a_companyName = st_companyName stock,
                 a_ticker = (case st_ticker stock of
                               None \<Rightarrow> None
                             | Some t \<Rightarrow> if t = [] then None else Some t),
                 a_subSectorName = subSectorName, a_attemptNumber = 1\<rparr>
                None None None)
       (\<lambda>analysisJob.
          createJobStatus (job_id assigned analysisJob) ''stock_analysis'' (st_id stock)))"

text \<open>
  The reanalyze route (reanalyze/route.ts). Its responses: 200 with the job id and the
  analysis id, 404 when the stock does not exist, 400 when the stock has an analysis
  already, 500 when a call in its \<open>try\<close> block throws. The stock is read together with
  its analysis and its sub-sector; the name of the sub-sector is taken from that read
  when the job is added.
\<close>

datatype reanalyze_response =
  AnalysisStarted string string
| StockNotFound
| AnalysisExists
| FailedToTrigger

definition reanalyze :: "string \<Rightarrow> string \<Rightarrow> string \<Rightarrow> world \<Rightarrow> reanalyze_response \<times> world" where
  "reanalyze newId assigned stockId w =
     (case findUnique st_id stockId (stocks w) of
        None \<Rightarrow> (StockNotFound, w)
      | Some stock \<Rightarrow>
          (case deepAnalysis stock w of
             Some existing \<Rightarrow> (AnalysisExists, w)
           | None \<Rightarrow>
               (case bind_io (stockAnalysis_create newId stockId)
                       (\<lambda>stockAnalysis.
                          case findUnique ss_id (st_subSectorId stock) (subSectors w) of
                            None \<Rightarrow> (\<lambda>w'. Inl (null_dereference, w'))
                          | Some subSector \<Rightarrow>
                              bind_io (stockAnalysisQueue_add ''stock-analysis''
                                         \<lparr>a_stockId = stockId, a_stockAnalysisId = sa_id stockAnalysis,
                                          a_companyName = st_companyName stock,
                                          a_ticker = (case st_ticker stock of
                                                        None \<Rightarrow> None
                                                      | Some t \<Rightarrow> if t = [] then None else Some t),
                                          a_subSectorName = ss_name subSector,
                                          a_attemptNumber = 1\<rparr>
                                         None None None)
                                (\<lambda>analysisJob.
                                   then_io (createJobStatus (job_id assigned analysisJob)
                                              ''stock_analysis'' stockId)
                                     (return_io (AnalysisStarted (job_id assigned analysisJob)
                                                   (sa_id stockAnalysis))))) w of
                  Inl (error, w') \<Rightarrow> (FailedToTrigger, w')
                | Inr (response, w') \<Rightarrow> (response, w'))))"

text \<open>
  A worker is run on a job taken from its queue, under the job's id: the id given at
  \<open>add\<close>, or the one the queue assigned when none was given.
\<close>

definition take_job :: "nat \<Rightarrow> 'a list \<Rightarrow> 'a list" where
  "take_job k queue = take k queue @ drop (Suc k) queue"

definition run_analysis :: "nat \<Rightarrow> string \<Rightarrow> world \<Rightarrow> (thrown + analysis_result) \<times> world" where
  "run_analysis k assigned w =
     (let job = stockAnalysisQueue w ! k
      in processStockAnalysis (job_id assigned job) (q_data job)
           (w\<lparr>stockAnalysisQueue := take_job k (stockAnalysisQueue w)\<rparr>))"

definition run_judge :: "nat \<Rightarrow> string \<Rightarrow> bool \<Rightarrow> world \<Rightarrow> (thrown + judge_result) \<times> world" where
  "run_judge k assigned mockApproved w =
     (let job = judgeReviewQueue w ! k
      in processJudgeReview mockApproved (job_id assigned job) (q_data job)
           (w\<lparr>judgeReviewQueue := take_job k (judgeReviewQueue w)\<rparr>))"

definition run_format :: "nat \<Rightarrow> string \<Rightarrow> world \<Rightarrow> (thrown + format_result) \<times> world" where
  "run_format k assigned w =
     (let job = formatInsightsQueue w ! k
      in processFormatInsights (job_id assigned job) (q_data job)
           (w\<lparr>formatInsightsQueue := take_job k (formatInsightsQueue w)\<rparr>))"

text \<open>
  What can happen to the store and the queues, one event at a time. \<open>Catalogue\<close> and
  \<open>Tracked\<close> stand for the writers of the stock, sub-sector and tracker tables that are
  not modelled (they may put anything there); \<open>Rank\<close> runs the ranking worker on a job
  of any content; \<open>Reanalyze\<close> is a request to the reanalyze route; \<open>Start\<close> is one
  turn of the loop of the approve route, for any stock; \<open>Analyse\<close>, \<open>Judge\<close> and
  \<open>Format\<close> run a worker on the \<open>k\<close>-th job waiting in its queue. When such a run rejects, the
  queue either drops the job or, with \<open>again\<close>, keeps it for another run (the
  \<open>attempts\<close> option of the queues in config.ts).
\<close>

datatype event =
  Catalogue "Stock list" "SubSector list"
| Tracked "JobStatus list"
| Rank "nat \<Rightarrow> string" string StockRankingJobData
| Reanalyze string string string
| Start string string Stock string
| Analyse nat string bool
| Judge nat string bool bool
| Format nat string bool

fun step :: "event \<Rightarrow> world \<Rightarrow> world" where
  "step (Catalogue st ss) w = w\<lparr>stocks := st, subSectors := ss\<rparr>"
| "step (Tracked js) w = w\<lparr>jobStatuses := js\<rparr>"
| "step (Rank newId jid d) w = snd (processStockRanking newId jid d w)"
| "step (Reanalyze newId assigned stockId) w = snd (reanalyze newId assigned stockId w)"
| "step (Start newId assigned stock subSectorName) w =
     (case startAnalysis newId assigned stock subSectorName w of
        Inl (error, w') \<Rightarrow> w'
      | Inr (row, w') \<Rightarrow> w')"
| "step (Analyse k assigned again) w =
     (if k < length (stockAnalysisQueue w) then
        (case run_analysis k assigned w of
           (Inr res, w') \<Rightarrow> w'
         | (Inl error, w') \<Rightarrow>
             if again
             then w'\<lparr>stockAnalysisQueue := stockAnalysisQueue w' @ [stockAnalysisQueue w ! k]\<rparr>
             else w')
      else w)"
| "step (Judge k assigned mockApproved again) w =
     (if k < length (judgeReviewQueue w) then
        (case run_judge k assigned mockApproved w of
           (Inr res, w') \<Rightarrow> w'
         | (Inl error, w') \<Rightarrow>
             if again
             then w'\<lparr>judgeReviewQueue := judgeReviewQueue w' @ [judgeReviewQueue w ! k]\<rparr>
             else w')
      else w)"
| "step (Format k assigned again) w =
     (if k < length (formatInsightsQueue w) then
        (case run_format k assigned w of
           (Inr res, w') \<Rightarrow> w'
         | (Inl error, w') \<Rightarrow>
             if again
             then w'\<lparr>formatInsightsQueue := formatInsightsQueue w' @ [formatInsightsQueue w ! k]\<rparr>
             else w')
      else w)"

definition pipeline :: "event list \<Rightarrow> world" where
  "pipeline es = foldl (\<lambda>w e. step e w) empty_world es"

text \<open>
  A manual analysis of one stock, up to the judge. The store holds one sub-sector with
  one stock and nothing else. The reanalyze route is called for the stock (the store
  gives the new analysis the id \<open>a1\<close>, the queue gives the first job the id \<open>1\<close>),
  then the stock-analysis worker runs that job.
\<close>

definition apple :: Stock where
  "apple = \<lparr>st_id = ''s1'', st_subSectorId = ''ss1'', st_companyName = ''Apple Inc.'',
             st_ticker = Some ''AAPL'', st_rank = 6, st_preliminaryNotes = []\<rparr>"

definition consumer_electronics :: SubSector where
  "consumer_electronics = \<lparr>ss_id = ''ss1'', ss_sectorAnalysisId = ''sec1'',
                            ss_name = ''Consumer Electronics'', ss_summary = [],
                            ss_status = ''analyzing''\<rparr>"

definition manual_request :: "event list" where
  "manual_request = [Catalogue [apple] [consumer_electronics], Reanalyze ''a1'' ''1'' ''s1'']"

definition analysed_once :: world where
  "analysed_once = pipeline (manual_request @ [Analyse 0 ''1'' False])"

section \<open>Invariant of the pipeline\<close>

text \<open>
  The analysis ids of the jobs waiting in the stock-analysis and judge-review queues, and
  the invariant of the reachable states: attempt counters and attempt numbers are at
  most 3; a waiting judge-review job carries the attempt counter of its analysis; no
  analysis has two jobs waiting in these two queues; every waiting job names an existing
  analysis. \<open>grown\<close> relates a state to one in which first-attempt analyses and their
  jobs were added.
\<close>

definition pending_ids :: "world \<Rightarrow> string list" where
  "pending_ids w =
     map (\<lambda>j. a_stockAnalysisId (q_data j)) (stockAnalysisQueue w)
     @ map (\<lambda>j. j_stockAnalysisId (q_data j)) (judgeReviewQueue w)"

definition pipeline_inv :: "world \<Rightarrow> bool" where
  "pipeline_inv w \<longleftrightarrow>
     (\<forall>a \<in> set (stockAnalyses w). sa_attemptCount a \<le> 3)
   \<and> (\<forall>j \<in> set (stockAnalysisQueue w). a_attemptNumber (q_data j) \<le> 3)
   \<and> (\<forall>j \<in> set (judgeReviewQueue w).
        j_attemptNumber (q_data j) \<le> 3
      \<and> (\<forall>a \<in> set (stockAnalyses w).
            sa_id a = j_stockAnalysisId (q_data j) \<longrightarrow>
            sa_attemptCount a = j_attemptNumber (q_data j)))
   \<and> distinct (pending_ids w)
   \<and> set (pending_ids w) \<subseteq> sa_id ` set (stockAnalyses w)"

definition grown :: "world \<Rightarrow> world \<Rightarrow> bool" where
  "grown w0 w \<longleftrightarrow>
     (\<exists>rows jobs.
        stockAnalyses w = stockAnalyses w0 @ rows
      \<and> stockAnalysisQueue w = stockAnalysisQueue w0 @ jobs
      \<and> judgeReviewQueue w = judgeReviewQueue w0
      \<and> (\<forall>a \<in> set rows. sa_attemptCount a = 1 \<and> sa_id a \<notin> sa_id ` set (stockAnalyses w0))
      \<and> (\<forall>j \<in> set jobs. a_attemptNumber (q_data j) = 1)
      \<and> distinct (map (\<lambda>j. a_stockAnalysisId (q_data j)) jobs)
      \<and> set (map (\<lambda>j. a_stockAnalysisId (q_data j)) jobs) \<subseteq> sa_id ` set rows)"

text \<open>
  A manual analysis whose first two attempts were rejected by the judge and whose third
  attempt is waiting for its review. The tracking rows of the jobs the workers enqueue
  are put into the tracker table beforehand.
\<close>

definition waiting_row :: "string \<Rightarrow> string \<Rightarrow> JobStatus" where
  "waiting_row jid jtype = \<lparr>jobId = jid, jobType = jtype, relatedId = ''a1'', js_status = ''waiting'',
                         progress = 0, errorMessage = None\<rparr>"

definition rejected_twice :: "event list" where
  "rejected_twice =
     [Tracked [waiting_row ''judge-a1-1'' ''judge_review'',
               waiting_row ''stock-a1-attempt-2'' ''stock_analysis'',
               waiting_row ''judge-a1-2'' ''judge_review'',
               waiting_row ''stock-a1-attempt-3'' ''stock_analysis'',
               waiting_row ''judge-a1-3'' ''judge_review''],
      Catalogue [apple] [consumer_electronics], Reanalyze ''a1'' ''1'' ''s1'',
      Analyse 0 ''1'' False, Judge 0 [] False False,
      Analyse 0 [] False, Judge 0 [] False False,
      Analyse 0 [] False]"

section \<open>Properties of the error classifier and the retry wrapper\<close>

lemma startsWith_iff_prefix: "startsWith s p \<longleftrightarrow> prefix p s"
  by (induction s p rule: startsWith.induct) auto

lemma str_includes_iff_sublist: "str_includes s p \<longleftrightarrow> sublist p s"
  by (induction s) (auto simp: startsWith_iff_prefix sublist_Cons_right)

declare withRetry_loop.simps [simp del]

lemma loop_stop: "\<not> a \<le> m \<Longrightarrow> calls (withRetry_loop fn m c a n le ns ds) = n"
  by (simp add: withRetry_loop.simps)

lemma loop_ok: "a \<le> m \<Longrightarrow> fn n = Inr v \<Longrightarrow>
   withRetry_loop fn m c a n le ns ds = \<lparr>outcome = Inr v, calls = Suc n, notified = ns, slept = ds\<rparr>"
  by (simp add: withRetry_loop.simps)

lemma loop_fail: "a \<le> m \<Longrightarrow> fn n = Inl e \<Longrightarrow> \<not> shouldRetry (classifyError e) a m \<Longrightarrow>
   withRetry_loop fn m c a n le ns ds =
     \<lparr>outcome = Inl (formatErrorMessage e c), calls = Suc n, notified = ns, slept = ds\<rparr>"
  by (simp add: withRetry_loop.simps)

lemma loop_retry: "a \<le> m \<Longrightarrow> fn n = Inl e \<Longrightarrow> shouldRetry (classifyError e) a m \<Longrightarrow>
   withRetry_loop fn m c a n le ns ds =
     withRetry_loop fn m c (a + 1) (Suc n) (Some (classifyError e)) (ns @ [(a, classifyError e)])
        (ds @ [calculateRetryDelay (classifyError e) a 5000])"
  by (simp add: withRetry_loop.simps Let_def)

lemma calls_le: "calls (withRetry_loop fn m c a n le ns ds) \<le> n + nat (m + 1 - a)"
proof (induction fn m c a n le ns ds rule: withRetry_loop.induct)
  case (1 fn m c a n le ns ds)
  show ?case
  proof (cases "a \<le> m")
    case False
    then show ?thesis by (simp add: loop_stop)
  next
    case am: True
    show ?thesis
    proof (cases "fn n")
      case (Inr v)
      with am show ?thesis by (simp add: loop_ok)
    next
      case (Inl e)
      show ?thesis
      proof (cases "shouldRetry (classifyError e) a m")
        case False
        with am Inl show ?thesis by (simp add: loop_fail)
      next
        case True
        have "calls (withRetry_loop fn m c (a + 1) (Suc n) (Some (classifyError e))
                (ns @ [(a, classifyError e)]) (ds @ [calculateRetryDelay (classifyError e) a 5000]))
              \<le> Suc n + nat (m + 1 - (a + 1))"
          using "1.IH"[OF am Inl refl] True by simp
        with am Inl True show ?thesis by (simp add: loop_retry)
      qed
    qed
  qed
qed

lemma loop_trace:
  "n \<le> k \<Longrightarrow> Suc k < calls (withRetry_loop fn m c a n le ns ds) \<Longrightarrow>
     \<exists>e. fn k = Inl e \<and> retryable (classifyError e)"
proof (induction fn m c a n le ns ds rule: withRetry_loop.induct)
  case (1 fn m c a n le ns ds)
  show ?case
  proof (cases "a \<le> m")
    case False
    with "1.prems" show ?thesis by (simp add: loop_stop)
  next
    case am: True
    show ?thesis
    proof (cases "fn n")
      case (Inr v)
      with am "1.prems" show ?thesis by (simp add: loop_ok)
    next
      case (Inl e)
      show ?thesis
      proof (cases "shouldRetry (classifyError e) a m")
        case False
        with am Inl "1.prems" show ?thesis by (simp add: loop_fail)
      next
        case True
        show ?thesis
        proof (cases "k = n")
          case True
          with Inl \<open>shouldRetry (classifyError e) a m\<close> show ?thesis
            by (auto simp: shouldRetry_def split: if_splits)
        next
          case False
          with "1.prems" have "Suc n \<le> k" by simp
          moreover have "Suc k < calls (withRetry_loop fn m c (a + 1) (Suc n) (Some (classifyError e))
                (ns @ [(a, classifyError e)]) (ds @ [calculateRetryDelay (classifyError e) a 5000]))"
            using "1.prems"(2) am Inl True by (simp add: loop_retry)
          ultimately show ?thesis
            using "1.IH"[OF am Inl refl] True by simp
        qed
      qed
    qed
  qed
qed


lemma loop_non_retryable:
  "n \<le> k \<Longrightarrow> k < calls (withRetry_loop fn m c a n le ns ds) \<Longrightarrow> fn k = Inl e \<Longrightarrow>
   \<not> retryable (classifyError e) \<Longrightarrow>
     calls (withRetry_loop fn m c a n le ns ds) = Suc k \<and>
     outcome (withRetry_loop fn m c a n le ns ds) = Inl (formatErrorMessage e c)"
proof (induction fn m c a n le ns ds rule: withRetry_loop.induct)
  case (1 fn m c a n le ns ds)
  show ?case
  proof (cases "a \<le> m")
    case False
    with "1.prems" show ?thesis by (simp add: loop_stop)
  next
    case am: True
    show ?thesis
    proof (cases "fn n")
      case (Inr v)
      with am "1.prems" have "k = n" by (simp add: loop_ok)
      with Inr "1.prems" show ?thesis by simp
    next
      case (Inl e')
      show ?thesis
      proof (cases "shouldRetry (classifyError e') a m")
        case False
        with am Inl "1.prems" have "k = n" by (simp add: loop_fail)
        with am Inl False "1.prems" show ?thesis by (simp add: loop_fail)
      next
        case True
        then have "retryable (classifyError e')"
          by (auto simp: shouldRetry_def split: if_splits)
        with Inl "1.prems" have "k \<noteq> n" by auto
        with "1.prems" have "Suc n \<le> k" by simp
        moreover have "k < calls (withRetry_loop fn m c (a + 1) (Suc n) (Some (classifyError e'))
                (ns @ [(a, classifyError e')]) (ds @ [calculateRetryDelay (classifyError e') a 5000]))"
          using "1.prems"(2) am Inl True by (simp add: loop_retry)
        ultimately show ?thesis
          using "1.IH"[OF am Inl refl] True "1.prems"(3,4) am Inl by (simp add: loop_retry)
      qed
    qed
  qed
qed

text \<open>
  Claim C5. The classifier follows the classification table, reading each row's signal as
  the substrings the source tests, in the source's order: a rate-limit signal gives
  RATE_LIMIT (retryable, 60000 ms); otherwise a validation signal gives VALIDATION_ERROR
  (not retryable, no delay); otherwise an authorisation signal gives API_ERROR (not
  retryable); otherwise a network signal gives NETWORK_ERROR (retryable, 10000 ms);
  otherwise a judge-rejection signal gives JUDGE_REJECTION (retryable, 5000 ms);
  otherwise UNKNOWN (retryable, 5000 ms). A message that carries a rate-limit or a
  validation signal together with a network signal is never classified NETWORK_ERROR.
\<close>

theorem classifyError_table:
  "(signal [''rate limit'', ''429'', ''too many requests''] e \<longrightarrow>
      classifyError e = \<lparr>errorType = RATE_LIMIT, message = error_text e, retryable = True,
                         retryDelay = Some 60000\<rparr>)
 \<and> (\<not> signal [''rate limit'', ''429'', ''too many requests''] e \<and>
    signal [''400'', ''bad request'', ''invalid''] e \<longrightarrow>
      classifyError e = \<lparr>errorType = VALIDATION_ERROR, message = error_text e, retryable = False,
                         retryDelay = None\<rparr>)
 \<and> (\<not> signal [''rate limit'', ''429'', ''too many requests'', ''400'', ''bad request'', ''invalid''] e \<and>
    signal [''401'', ''403'', ''unauthorized''] e \<longrightarrow>
      classifyError e = \<lparr>errorType = API_ERROR, message = error_text e, retryable = False,
                         retryDelay = None\<rparr>)
 \<and> (\<not> signal [''rate limit'', ''429'', ''too many requests'', ''400'', ''bad request'', ''invalid'',
               ''401'', ''403'', ''unauthorized''] e \<and>
    signal [''network'', ''timeout'', ''econnrefused'', ''enotfound''] e \<longrightarrow>
      classifyError e = \<lparr>errorType = NETWORK_ERROR, message = error_text e, retryable = True,
                         retryDelay = Some 10000\<rparr>)
 \<and> (\<not> signal [''rate limit'', ''429'', ''too many requests'', ''400'', ''bad request'', ''invalid'',
               ''401'', ''403'', ''unauthorized'', ''network'', ''timeout'', ''econnrefused'',
               ''enotfound''] e \<and>
    signal [''judge reject''] e \<longrightarrow>
      classifyError e = \<lparr>errorType = JUDGE_REJECTION, message = error_text e, retryable = True,
                         retryDelay = Some 5000\<rparr>)
 \<and> (\<not> signal [''rate limit'', ''429'', ''too many requests'', ''400'', ''bad request'', ''invalid'',
               ''401'', ''403'', ''unauthorized'', ''network'', ''timeout'', ''econnrefused'',
               ''enotfound'', ''judge reject''] e \<longrightarrow>
      classifyError e = \<lparr>errorType = UNKNOWN, message = error_text e, retryable = True,
                         retryDelay = Some 5000\<rparr>)
 \<and> (signal [''rate limit'', ''429'', ''too many requests''] e \<and>
    signal [''network'', ''timeout'', ''econnrefused'', ''enotfound''] e \<longrightarrow>
      errorType (classifyError e) = RATE_LIMIT)
 \<and> (\<not> signal [''rate limit'', ''429'', ''too many requests''] e \<and>
    signal [''400'', ''bad request'', ''invalid''] e \<and>
    signal [''network'', ''timeout'', ''econnrefused'', ''enotfound''] e \<longrightarrow>
      errorType (classifyError e) = VALIDATION_ERROR)"
  by (intro conjI impI; simp add: classifyError_def signal_def Let_def)

theorem classifyError_table_witness:
  "classifyError (ErrorObj ''HTTP 429: request timeout'' None) =
      \<lparr>errorType = RATE_LIMIT, message = ''HTTP 429: request timeout'',
       retryable = True, retryDelay = Some 60000\<rparr>
 \<and> classifyError (OtherValue ''Invalid payload after network timeout'') =
      \<lparr>errorType = VALIDATION_ERROR, message = ''Invalid payload after network timeout'',
       retryable = False, retryDelay = None\<rparr>
 \<and> classifyError (ErrorObj ''403 Forbidden'' None) =
      \<lparr>errorType = API_ERROR, message = ''403 Forbidden'', retryable = False, retryDelay = None\<rparr>
 \<and> classifyError (ErrorObj ''connect ECONNREFUSED 127.0.0.1:6379'' None) =
      \<lparr>errorType = NETWORK_ERROR, message = ''connect ECONNREFUSED 127.0.0.1:6379'',
       retryable = True, retryDelay = Some 10000\<rparr>
 \<and> classifyError (ErrorObj ''Judge rejected the analysis'' None) =
      \<lparr>errorType = JUDGE_REJECTION, message = ''Judge rejected the analysis'',
       retryable = True, retryDelay = Some 5000\<rparr>
 \<and> classifyError (ErrorObj ''boom'' None) =
      \<lparr>errorType = UNKNOWN, message = ''boom'', retryable = True, retryDelay = Some 5000\<rparr>"
proof -
  let ?e1 = "ErrorObj ''HTTP 429: request timeout'' None"
  let ?e2 = "OtherValue ''Invalid payload after network timeout''"
  let ?e3 = "ErrorObj ''403 Forbidden'' None"
  let ?e4 = "ErrorObj ''connect ECONNREFUSED 127.0.0.1:6379'' None"
  let ?e5 = "ErrorObj ''Judge rejected the analysis'' None"
  let ?e6 = "ErrorObj ''boom'' None"
  have p1: "signal [''rate limit'', ''429'', ''too many requests''] ?e1"
    by code_simp
  have n2: "\<not> signal [''rate limit'', ''429'', ''too many requests''] ?e2"
    by code_simp
  have p2: "signal [''400'', ''bad request'', ''invalid''] ?e2"
    by code_simp
  have n3: "\<not> signal [''rate limit'', ''429'', ''too many requests'', ''400'', ''bad request'',
               ''invalid''] ?e3"
    by code_simp
  have p3: "signal [''401'', ''403'', ''unauthorized''] ?e3"
    by code_simp
  have n4: "\<not> signal [''rate limit'', ''429'', ''too many requests'', ''400'', ''bad request'',
               ''invalid'', ''401'', ''403'', ''unauthorized''] ?e4"
    by code_simp
  have p4: "signal [''network'', ''timeout'', ''econnrefused'', ''enotfound''] ?e4"
    by code_simp
  have n5: "\<not> signal [''rate limit'', ''429'', ''too many requests'', ''400'', ''bad request'',
               ''invalid'', ''401'', ''403'', ''unauthorized'', ''network'', ''timeout'',
               ''econnrefused'', ''enotfound''] ?e5"
    by code_simp
  have p5: "signal [''judge reject''] ?e5"
    by code_simp
  have n6: "\<not> signal [''rate limit'', ''429'', ''too many requests'', ''400'', ''bad request'',
               ''invalid'', ''401'', ''403'', ''unauthorized'', ''network'', ''timeout'',
               ''econnrefused'', ''enotfound'', ''judge reject''] ?e6"
    by code_simp
  have r1: "classifyError ?e1 = \<lparr>errorType = RATE_LIMIT, message = error_text ?e1,
               retryable = True, retryDelay = Some 60000\<rparr>"
    using classifyError_table[of ?e1] p1 by blast
  have r2: "classifyError ?e2 = \<lparr>errorType = VALIDATION_ERROR, message = error_text ?e2,
               retryable = False, retryDelay = None\<rparr>"
    using classifyError_table[of ?e2] n2 p2 by blast
  have r3: "classifyError ?e3 = \<lparr>errorType = API_ERROR, message = error_text ?e3,
               retryable = False, retryDelay = None\<rparr>"
    using classifyError_table[of ?e3] n3 p3 by blast
  have r4: "classifyError ?e4 = \<lparr>errorType = NETWORK_ERROR, message = error_text ?e4,
               retryable = True, retryDelay = Some 10000\<rparr>"
    using classifyError_table[of ?e4] n4 p4 by blast
  have r5: "classifyError ?e5 = \<lparr>errorType = JUDGE_REJECTION, message = error_text ?e5,
               retryable = True, retryDelay = Some 5000\<rparr>"
    using classifyError_table[of ?e5] n5 p5 by blast
  have r6: "classifyError ?e6 = \<lparr>errorType = UNKNOWN, message = error_text ?e6,
               retryable = True, retryDelay = Some 5000\<rparr>"
    using classifyError_table[of ?e6] n6 by blast
  show ?thesis
    by (simp only: r1 r2 r3 r4 r5 r6 error_text.simps simp_thms)
qed

text \<open>
  Claim C6. VALIDATION_ERROR and API_ERROR are not retryable. When an invocation of the
  wrapped function throws a non-retryable error, it is the last invocation and its error
  is what the caller sees; every invocation that is followed by another one threw a
  retryable error. The wrapped function is invoked at most \<open>maxAttempts\<close> times, at
  most 3 times with the default. \<open>shouldRetry\<close> is false once the attempt number has
  reached \<open>maxAttempts\<close>, whatever the kind, and false for every non-retryable error.
\<close>

theorem withRetry_fail_fast_and_bounded:
  "(errorType (classifyError e) \<in> {VALIDATION_ERROR, API_ERROR} \<longrightarrow> \<not> retryable (classifyError e))
 \<and> (k < calls (withRetry fn maxAttempts ctx) \<and> fn k = Inl e \<and> \<not> retryable (classifyError e) \<longrightarrow>
      calls (withRetry fn maxAttempts ctx) = Suc k \<and>
      outcome (withRetry fn maxAttempts ctx) = Inl (formatErrorMessage e ctx))
 \<and> (Suc k < calls (withRetry fn maxAttempts ctx) \<longrightarrow>
      (\<exists>e'. fn k = Inl e' \<and> retryable (classifyError e')))
 \<and> int (calls (withRetry fn maxAttempts ctx)) \<le> max 0 maxAttempts
 \<and> calls (withRetry fn 3 ctx) \<le> 3
 \<and> (attempt \<ge> maxAttempts \<longrightarrow> \<not> shouldRetry err attempt maxAttempts)
 \<and> (\<not> retryable err \<longrightarrow> \<not> shouldRetry err attempt maxAttempts)"
proof -
  have a: "errorType (classifyError e) \<in> {VALIDATION_ERROR, API_ERROR} \<longrightarrow> \<not> retryable (classifyError e)"
    by (simp add: classifyError_def Let_def)
  have b: "k < calls (withRetry fn maxAttempts ctx) \<and> fn k = Inl e \<and> \<not> retryable (classifyError e) \<longrightarrow>
      calls (withRetry fn maxAttempts ctx) = Suc k \<and>
      outcome (withRetry fn maxAttempts ctx) = Inl (formatErrorMessage e ctx)"
    unfolding withRetry_def using loop_non_retryable[of 0 k fn maxAttempts ctx 1 None "[]" "[]" e]
    by blast
  have c: "Suc k < calls (withRetry fn maxAttempts ctx) \<longrightarrow>
      (\<exists>e'. fn k = Inl e' \<and> retryable (classifyError e'))"
    unfolding withRetry_def using loop_trace[of 0 k fn maxAttempts ctx 1 None "[]" "[]"] by blast
  have d: "int (calls (withRetry fn m ctx)) \<le> max 0 m" for m
    unfolding withRetry_def using calls_le[of fn m ctx 1 0 None "[]" "[]"] by simp
  have d3: "calls (withRetry fn 3 ctx) \<le> 3"
    using d[of 3] by simp
  have f: "attempt \<ge> maxAttempts \<longrightarrow> \<not> shouldRetry err attempt maxAttempts"
    by (simp add: shouldRetry_def)
  have g: "\<not> retryable err \<longrightarrow> \<not> shouldRetry err attempt maxAttempts"
    by (simp add: shouldRetry_def)
  from a b c d[of maxAttempts] d3 f g show ?thesis by blast
qed

theorem withRetry_fail_fast_and_bounded_witness:
  "calls (withRetry (\<lambda>k. if k = 0 then Inl (ErrorObj ''socket timeout'' None)
                         else (Inl (ErrorObj ''401 Unauthorized'' None) :: thrown + nat)) 3 None) = 2
 \<and> outcome (withRetry (\<lambda>k. if k = 0 then Inl (ErrorObj ''socket timeout'' None)
                         else (Inl (ErrorObj ''401 Unauthorized'' None) :: thrown + nat)) 3 None)
     = Inl ''401 Unauthorized''
 \<and> \<not> shouldRetry (classifyError (ErrorObj ''socket timeout'' None)) 3 3"
proof -
  let ?fn = "\<lambda>k::nat. if k = 0 then Inl (ErrorObj ''socket timeout'' None)
                         else (Inl (ErrorObj ''401 Unauthorized'' None) :: thrown + nat)"
  let ?e = "ErrorObj ''401 Unauthorized'' None"
  have h1: "errorType (classifyError ?e) \<in> {VALIDATION_ERROR, API_ERROR}" by code_simp
  have h2: "1 < calls (withRetry ?fn 3 None)" by code_simp
  have h3: "?fn 1 = Inl ?e" by simp
  have h4: "(3::int) \<ge> 3" by simp
  have f: "formatErrorMessage ?e None = ''401 Unauthorized''" by code_simp
  note t = withRetry_fail_fast_and_bounded[of ?e 1 ?fn 3 None 3 "classifyError (ErrorObj ''socket timeout'' None)"]
  from t h1 have nr: "\<not> retryable (classifyError ?e)" by blast
  from t h2 h3 nr h4 f show ?thesis by simp
qed


text \<open>
  Claim C7, as stated, fails: the delay carried by the classified error replaces the base
  delay. For a rate-limit error, base delay 5000 and attempt 3 the result is
  \<open>60000 * 2\<^sup>2\<close>, not \<open>5000 * 2\<^sup>2\<close>.
\<close>

theorem calculateRetryDelay_counterexample:
  "calculateRetryDelay (classifyError (ErrorObj ''Rate limit exceeded'' None)) 3 5000
     \<noteq> 5000 * 2 powi (3 - 1)"
  by (simp add: calculateRetryDelay_def classifyError_def toLowerCase_def toLowerCase_char_def)

text \<open>
  Claim C7, amended. The backoff is \<open>d * 2 ^ (attempt - 1)\<close> for every attempt number,
  where \<open>d\<close> is the delay carried by the error when it carries a non-zero one, and the
  base delay otherwise. In particular, for an error that carries no delay, or carries
  5000, base delay 5000 and attempt 3 give exactly 20000.
\<close>

theorem calculateRetryDelay_backoff:
  "(retryDelay err = None \<or> retryDelay err = Some 0 \<longrightarrow>
      calculateRetryDelay err attempt baseDelay = of_int baseDelay * 2 powi (attempt - 1))
 \<and> (retryDelay err = Some d \<and> d \<noteq> 0 \<longrightarrow>
      calculateRetryDelay err attempt baseDelay = of_int d * 2 powi (attempt - 1))
 \<and> (1 \<le> attempt \<longrightarrow>
      calculateRetryDelay err attempt baseDelay =
        of_int (case retryDelay err of None \<Rightarrow> baseDelay | Some d \<Rightarrow> if d = 0 then baseDelay else d)
          * 2 ^ nat (attempt - 1))
 \<and> (retryDelay err = None \<or> retryDelay err = Some 5000 \<longrightarrow> calculateRetryDelay err 3 5000 = 20000)"
  by (auto simp: calculateRetryDelay_def power_int_def)

theorem calculateRetryDelay_backoff_witness:
  "calculateRetryDelay (classifyError (ErrorObj ''400 Bad Request'' None)) 3 5000 = 20000
 \<and> calculateRetryDelay (classifyError (ErrorObj ''Rate limit exceeded'' None)) 2 5000 = 120000"
proof -
  have h1: "retryDelay (classifyError (ErrorObj ''400 Bad Request'' None)) = None" by code_simp
  have h2: "retryDelay (classifyError (ErrorObj ''Rate limit exceeded'' None)) = Some 60000" by code_simp
  from calculateRetryDelay_backoff[of "classifyError (ErrorObj ''400 Bad Request'' None)" 3 5000 0]
    calculateRetryDelay_backoff[of "classifyError (ErrorObj ''Rate limit exceeded'' None)" 2 5000 60000]
    h1 h2 show ?thesis by simp
qed

section \<open>Properties of the job status tracker\<close>

lemma findUnique_Some: "findUnique key k rows = Some r \<Longrightarrow> key r = k \<and> r \<in> set rows"
  unfolding findUnique_def by (induction rows) (auto split: if_splits)

lemma findUnique_rewrite_rows:
  assumes "\<And>x. key (f x) = key x"
  shows "findUnique key k' (rewrite_rows key k f rows) =
         map_option (\<lambda>x. if k' = k then f x else x) (findUnique key k' rows)"
  unfolding findUnique_def rewrite_rows_def using assms by (induction rows) auto

lemma jobId_apply [simp]: "jobId (apply_JobStatusData d r) = jobId r"
  by (simp add: apply_JobStatusData_def)

lemma updateJobStatus_ok:
  assumes "getJobStatus jid w = Some r"
  shows "updateJobStatus jid d w =
           Inr (apply_JobStatusData d r,
                w\<lparr>jobStatuses := rewrite_rows jobId jid (apply_JobStatusData d) (jobStatuses w)\<rparr>)"
  using assms by (simp add: updateJobStatus_def getJobStatus_def)

lemma getJobStatus_after:
  "getJobStatus jid' (w\<lparr>jobStatuses := rewrite_rows jobId jid (apply_JobStatusData d) (jobStatuses w)\<rparr>)
   = map_option (\<lambda>x. if jid' = jid then apply_JobStatusData d x else x) (getJobStatus jid' w)"
  by (simp add: getJobStatus_def findUnique_rewrite_rows)

lemma updateJobStatus_missing:
  "getJobStatus jid w = None \<Longrightarrow> updateJobStatus jid d w = Inl (record_not_found, w)"
  by (simp add: updateJobStatus_def getJobStatus_def)

text \<open>
  Claim C8. For a job id that has a tracking row and any integer input,
  \<open>updateJobProgress\<close> stores the input clamped to the range 0 to 100 (150 is stored as
  100, -10 as 0) and changes no other field of the row, so the status is unchanged;
  \<open>markJobCompleted\<close> sets the status to completed and the progress to 100;
  \<open>markJobFailed\<close> sets the status to failed and stores the message.
\<close>

theorem jobStatus_tracker_writes:
  assumes "getJobStatus jid w = Some r"
  shows "(\<exists>w'. updateJobProgress jid p w = Inr (r\<lparr>progress := min 100 (max 0 p)\<rparr>, w')
            \<and> getJobStatus jid w' = Some (r\<lparr>progress := min 100 (max 0 p)\<rparr>)
            \<and> js_status (r\<lparr>progress := min 100 (max 0 p)\<rparr>) = js_status r
            \<and> 0 \<le> min 100 (max 0 p) \<and> min 100 (max 0 p) \<le> 100)
       \<and> (\<exists>w'. updateJobProgress jid 150 w = Inr (r\<lparr>progress := 100\<rparr>, w')
            \<and> getJobStatus jid w' = Some (r\<lparr>progress := 100\<rparr>))
       \<and> (\<exists>w'. updateJobProgress jid (- 10) w = Inr (r\<lparr>progress := 0\<rparr>, w')
            \<and> getJobStatus jid w' = Some (r\<lparr>progress := 0\<rparr>))
       \<and> (\<exists>w'. markJobCompleted jid w = Inr (r\<lparr>js_status := ''completed'', progress := 100\<rparr>, w')
            \<and> getJobStatus jid w' = Some (r\<lparr>js_status := ''completed'', progress := 100\<rparr>))
       \<and> (\<exists>w'. markJobFailed jid msg w = Inr (r\<lparr>js_status := ''failed'', errorMessage := Some msg\<rparr>, w')
            \<and> getJobStatus jid w' = Some (r\<lparr>js_status := ''failed'', errorMessage := Some msg\<rparr>))"
proof -
  have upd: "\<exists>w'. updateJobStatus jid d w = Inr (apply_JobStatusData d r, w')
               \<and> getJobStatus jid w' = Some (apply_JobStatusData d r)" for d
    using updateJobStatus_ok[OF assms, of d] getJobStatus_after[where jid'=jid and jid=jid and d=d and w=w] assms by simp
  have p: "\<exists>w'. updateJobProgress jid q w = Inr (r\<lparr>progress := min 100 (max 0 q)\<rparr>, w')
            \<and> getJobStatus jid w' = Some (r\<lparr>progress := min 100 (max 0 q)\<rparr>)" for q
    using upd[of "\<lparr>d_status = None, d_progress = Some (min 100 (max 0 q)), d_errorMessage = None\<rparr>"]
    by (simp add: updateJobProgress_def apply_JobStatusData_def)
  have c: "\<exists>w'. markJobCompleted jid w = Inr (r\<lparr>js_status := ''completed'', progress := 100\<rparr>, w')
            \<and> getJobStatus jid w' = Some (r\<lparr>js_status := ''completed'', progress := 100\<rparr>)"
    using upd[of "\<lparr>d_status = Some ''completed'', d_progress = Some 100, d_errorMessage = None\<rparr>"]
    by (simp add: markJobCompleted_def apply_JobStatusData_def)
  have f: "\<exists>w'. markJobFailed jid msg w = Inr (r\<lparr>js_status := ''failed'', errorMessage := Some msg\<rparr>, w')
            \<and> getJobStatus jid w' = Some (r\<lparr>js_status := ''failed'', errorMessage := Some msg\<rparr>)"
    using upd[of "\<lparr>d_status = Some ''failed'', d_progress = None, d_errorMessage = Some msg\<rparr>"]
    by (simp add: markJobFailed_def apply_JobStatusData_def)
  from p[of p] p[of 150] p[of "- 10"] c f show ?thesis by simp
qed

theorem jobStatus_tracker_writes_witness:
  "(\<exists>w'. updateJobProgress ''stock-a1-attempt-1'' 150 tracked_world
            = Inr (tracked ''active'' 100, w')
        \<and> getJobStatus ''stock-a1-attempt-1'' w' = Some (tracked ''active'' 100))
 \<and> (\<exists>w'. markJobFailed ''stock-a1-attempt-1'' ''boom'' tracked_world
            = Inr ((tracked ''failed'' 40)\<lparr>errorMessage := Some ''boom''\<rparr>, w')
        \<and> getJobStatus ''stock-a1-attempt-1'' w'
            = Some ((tracked ''failed'' 40)\<lparr>errorMessage := Some ''boom''\<rparr>))"
proof -
  have h: "getJobStatus ''stock-a1-attempt-1'' tracked_world = Some (tracked ''active'' 40)"
    by code_simp
  have r1: "(tracked ''active'' 40)\<lparr>progress := 100\<rparr> = tracked ''active'' 100"
    by (simp add: tracked_def)
  have r2: "(tracked ''active'' 40)\<lparr>js_status := ''failed'', errorMessage := Some ''boom''\<rparr>
              = (tracked ''failed'' 40)\<lparr>errorMessage := Some ''boom''\<rparr>"
    by (simp add: tracked_def)
  from jobStatus_tracker_writes[OF h, of 0 "''boom''"] show ?thesis
    unfolding r1 r2 by blast
qed

section \<open>Properties of the update stream\<close>

lemma poll_jobs_Cons:
  "poll_jobs (job # jobs) seen =
     (if seen (jobId job) \<noteq> Some (js_status job, progress job)
      then (job_events job @ fst (poll_jobs jobs (seen(jobId job \<mapsto> (js_status job, progress job)))),
            snd (poll_jobs jobs (seen(jobId job \<mapsto> (js_status job, progress job)))))
      else poll_jobs jobs seen)"
  by (auto simp: Let_def split: option.splits prod.splits)

lemma poll_jobs_events:
  "distinct (map jobId jobs) \<Longrightarrow>
   fst (poll_jobs jobs seen) =
     concat (map (\<lambda>job. if seen (jobId job) \<noteq> Some (js_status job, progress job)
                         then job_events job else []) jobs)"
proof (induction jobs arbitrary: seen)
  case Nil
  show ?case by simp
next
  case (Cons job jobs)
  have other: "jobId j \<noteq> jobId job" if "j \<in> set jobs" for j
    using Cons.prems that by (auto simp: image_iff)
  from Cons.prems have d: "distinct (map jobId jobs)" by simp
  show ?case
    apply (simp add: poll_jobs_Cons Cons.IH[OF d] del: poll_jobs.simps(2))
    apply (intro impI arg_cong[where f=concat] map_cong refl)
    using other by auto
qed

lemma poll_jobs_seen_other:
  "k \<notin> jobId ` set jobs \<Longrightarrow> snd (poll_jobs jobs seen) k = seen k"
  by (induction jobs arbitrary: seen) (simp_all add: poll_jobs_Cons del: poll_jobs.simps(2))

lemma poll_jobs_seen_job:
  "distinct (map jobId jobs) \<Longrightarrow> job \<in> set jobs \<Longrightarrow>
   snd (poll_jobs jobs seen) (jobId job) = Some (js_status job, progress job)"
proof (induction jobs arbitrary: seen)
  case Nil
  then show ?case by simp
next
  case (Cons j jobs)
  from Cons.prems have d: "distinct (map jobId jobs)" and nj: "jobId j \<notin> jobId ` set jobs"
    by simp_all
  show ?case
  proof (cases "job = j")
    case True
    then show ?thesis
      using nj by (simp add: poll_jobs_Cons poll_jobs_seen_other del: poll_jobs.simps(2))
  next
    case False
    with Cons.prems have "job \<in> set jobs" by simp
    then show ?thesis
      using Cons.IH[OF d] by (simp add: poll_jobs_Cons del: poll_jobs.simps(2))
  qed
qed

lemma poll_jobs_idem:
  assumes "distinct (map jobId jobs)"
  shows "fst (poll_jobs jobs (snd (poll_jobs jobs seen))) = []"
  using assms poll_jobs_seen_job[OF assms, of _ seen]
  by (simp add: poll_jobs_events)

text \<open>
  Claim C9. On a poll, a tracked job yields events if and only if its (status, progress)
  pair differs from the pair last sent for its job id (a job never sent before counts as
  differing); polling again with the same rows yields no event. The events of a changed
  job are one progress event, followed by a complete event exactly when the observed
  status is completed and by an error event exactly when it is failed. Job ids are
  unique among the rows of a poll (the unique index on \<open>jobId\<close>).
\<close>

theorem stream_change_events:
  "poll (Some [job]) seen =
     (if seen (jobId job) \<noteq> Some (js_status job, progress job)
      then (job_events job, seen(jobId job \<mapsto> (js_status job, progress job)))
      else ([], seen))
 \<and> (distinct (map jobId jobs) \<longrightarrow>
      fst (poll (Some jobs) seen) =
        concat (map (\<lambda>job. if seen (jobId job) \<noteq> Some (js_status job, progress job)
                            then job_events job else []) jobs))
 \<and> (distinct (map jobId jobs) \<longrightarrow>
      fst (poll (Some jobs) (snd (poll (Some jobs) seen))) = [])
 \<and> hd (job_events job) =
      Progress (jobType job) (jobId job) (relatedId job) (js_status job) (progress job)
        (errorMessage job)
 \<and> (Complete (jobType job) (jobId job) (relatedId job) (js_status job) \<in> set (job_events job)
      \<longleftrightarrow> js_status job = ''completed'')
 \<and> (Error (jobType job) (jobId job) (relatedId job) (js_status job) (errorMessage job)
        \<in> set (job_events job)
      \<longleftrightarrow> js_status job = ''failed'')
 \<and> length (job_events job) \<le> 2"
proof -
  have a: "poll (Some [job]) seen =
     (if seen (jobId job) \<noteq> Some (js_status job, progress job)
      then (job_events job, seen(jobId job \<mapsto> (js_status job, progress job)))
      else ([], seen))"
    by (simp add: poll_def poll_jobs_Cons del: poll_jobs.simps(2))
  have b: "distinct (map jobId jobs) \<longrightarrow>
      fst (poll (Some jobs) seen) =
        concat (map (\<lambda>job. if seen (jobId job) \<noteq> Some (js_status job, progress job)
                            then job_events job else []) jobs)"
    by (simp add: poll_def poll_jobs_events)
  have c: "distinct (map jobId jobs) \<longrightarrow>
      fst (poll (Some jobs) (snd (poll (Some jobs) seen))) = []"
    by (simp add: poll_def poll_jobs_idem)
  have d: "hd (job_events job) =
      Progress (jobType job) (jobId job) (relatedId job) (js_status job) (progress job)
        (errorMessage job)"
    by (simp add: job_events_def)
  have e: "Complete (jobType job) (jobId job) (relatedId job) (js_status job) \<in> set (job_events job)
      \<longleftrightarrow> js_status job = ''completed''"
    by (simp add: job_events_def)
  have f: "Error (jobType job) (jobId job) (relatedId job) (js_status job) (errorMessage job)
        \<in> set (job_events job)
      \<longleftrightarrow> js_status job = ''failed''"
    by (simp add: job_events_def)
  have g: "length (job_events job) \<le> 2"
    by (simp add: job_events_def)
  from a b c d e f g show ?thesis by blast
qed

theorem stream_change_events_witness:
  "fst (poll (Some [tracked ''active'' 50]) (snd (poll (Some [tracked ''active'' 50]) Map.empty))) = []
 \<and> stream [Some [tracked ''waiting'' 0], Some [tracked ''waiting'' 0],
            Some [tracked ''active'' 50], Some [tracked ''active'' 50],
            Some [tracked ''completed'' 100], Some [tracked ''completed'' 100]]
    = [Connected,
       Progress ''stock_analysis'' ''stock-a1-attempt-1'' ''a1'' ''waiting'' 0 None,
       Progress ''stock_analysis'' ''stock-a1-attempt-1'' ''a1'' ''active'' 50 None,
       Progress ''stock_analysis'' ''stock-a1-attempt-1'' ''a1'' ''completed'' 100 None,
       Complete ''stock_analysis'' ''stock-a1-attempt-1'' ''a1'' ''completed'']"
proof -
  have h: "distinct (map jobId [tracked ''active'' 50])" by simp
  have s: "stream [Some [tracked ''waiting'' 0], Some [tracked ''waiting'' 0],
            Some [tracked ''active'' 50], Some [tracked ''active'' 50],
            Some [tracked ''completed'' 100], Some [tracked ''completed'' 100]]
    = [Connected,
       Progress ''stock_analysis'' ''stock-a1-attempt-1'' ''a1'' ''waiting'' 0 None,
       Progress ''stock_analysis'' ''stock-a1-attempt-1'' ''a1'' ''active'' 50 None,
       Progress ''stock_analysis'' ''stock-a1-attempt-1'' ''a1'' ''completed'' 100 None,
       Complete ''stock_analysis'' ''stock-a1-attempt-1'' ''a1'' ''completed'']"
    by code_simp
  from stream_change_events[of "tracked ''active'' 50" Map.empty "[tracked ''active'' 50]"] h s
  show ?thesis by blast
qed

section \<open>Properties of the judge review worker\<close>

lemma findUnique_rewrite_jobStatus [simp]:
  "findUnique jobId k (rewrite_rows jobId jid (apply_JobStatusData d) rows)
   = map_option (\<lambda>x. if k = jid then apply_JobStatusData d x else x) (findUnique jobId k rows)"
  by (simp add: findUnique_rewrite_rows)

lemma findUnique_rewrite_stockAnalysis:
  "(\<And>x. sa_id (f x) = sa_id x) \<Longrightarrow>
   findUnique sa_id k (rewrite_rows sa_id i f rows)
   = map_option (\<lambda>x. if k = i then f x else x) (findUnique sa_id k rows)"
  by (simp add: findUnique_rewrite_rows)

lemmas io_defs = then_io_def bind_io_def return_io_def try_catch_def
lemmas tracker_defs = markJobActive_def updateJobProgress_def markJobCompleted_def markJobFailed_def
  updateJobStatus_def apply_JobStatusData_def getJobStatus_def
lemmas judge_defs = processJudgeReview_def judgeReview_try_def stockAnalysis_update_def
  getStockAnalysis_def formatInsightsQueue_add_def stockAnalysisQueue_add_def MAX_RETRY_ATTEMPTS_def

lemma judge_review_untracked:
  "getJobStatus jid w = None \<Longrightarrow>
   processJudgeReview mockApproved jid d w = (Inl record_not_found, w)"
  by (simp add: judge_defs io_defs tracker_defs)

text \<open>
  The branch logic of the judge-review worker, for a job whose tracking row and
  StockAnalysis row are present. Approved: it adds exactly one format-insights job, with
  job id \<open>format-<analysisId>\<close>. Rejected with attempt number below 3: it adds exactly
  one stock-analysis job for the same stock id and analysis id, with attempt number + 1,
  a delay of 5000 ms and the job id \<open>stock-<analysisId>-attempt-<n+1>\<close>. Rejected with
  attempt number 3 or more: it adds no job and sets the StockAnalysis status to
  \<open>review_failed\<close> with a failure reason that starts
  \<open>Judge rejected after 3 attempts\<close>. In all three branches the tracking row ends as
  completed with progress 100, and the worker returns normally.
\<close>

lemma judge_review_branches:
  assumes js: "getJobStatus jid w = Some r"
      and sa: "getStockAnalysis (j_stockAnalysisId d) w = Some a"
  shows "(mockApproved \<longrightarrow>
           (\<exists>w'. processJudgeReview mockApproved jid d w
                    = (Inr (Approved (Some (''format-'' @ j_stockAnalysisId d))), w')
              \<and> formatInsightsQueue w' = formatInsightsQueue w @
                   [\<lparr>q_name = ''format-insights'',
                     q_data = \<lparr>f_stockAnalysisId = j_stockAnalysisId d,
                               f_rawAnalysis = j_rawAnalysis d,
                               f_judgeReview = mockJudgeReview True (j_companyName d),
                               f_companyName = j_companyName d\<rparr>,
                     q_jobId = Some (''format-'' @ j_stockAnalysisId d),
                     q_delay = None, q_priority = None\<rparr>]
              \<and> stockAnalysisQueue w' = stockAnalysisQueue w
              \<and> judgeReviewQueue w' = judgeReviewQueue w
              \<and> getJobStatus jid w' = Some (r\<lparr>js_status := ''completed'', progress := 100\<rparr>)
              \<and> getStockAnalysis (j_stockAnalysisId d) w'
                   = Some (a\<lparr>sa_judgeReview := mockJudgeReview True (j_companyName d)\<rparr>)))
       \<and> (\<not> mockApproved \<and> j_attemptNumber d < 3 \<longrightarrow>
           (\<exists>w'. processJudgeReview mockApproved jid d w
                    = (Inr (RetryQueued (Some (''stock-'' @ j_stockAnalysisId d @ ''-attempt-''
                                                 @ num_str (j_attemptNumber d + 1)))), w')
              \<and> stockAnalysisQueue w' = stockAnalysisQueue w @
                   [\<lparr>q_name = ''stock-analysis-retry'',
                     q_data = \<lparr>a_stockId = j_stockId d,
                               a_stockAnalysisId = j_stockAnalysisId d,
                               a_companyName = j_companyName d,
                               a_ticker = Some (j_companyName d),
                               a_subSectorName = ''Unknown'',
                               a_attemptNumber = j_attemptNumber d + 1\<rparr>,
                     q_jobId = Some (''stock-'' @ j_stockAnalysisId d @ ''-attempt-''
                                       @ num_str (j_attemptNumber d + 1)),
                     q_delay = Some 5000, q_priority = None\<rparr>]
              \<and> formatInsightsQueue w' = formatInsightsQueue w
              \<and> judgeReviewQueue w' = judgeReviewQueue w
              \<and> getJobStatus jid w' = Some (r\<lparr>js_status := ''completed'', progress := 100\<rparr>)
              \<and> getStockAnalysis (j_stockAnalysisId d) w'
                   = Some (a\<lparr>sa_judgeReview := mockJudgeReview False (j_companyName d)\<rparr>)))
       \<and> (\<not> mockApproved \<and> j_attemptNumber d \<ge> 3 \<longrightarrow>
           (\<exists>w'. processJudgeReview mockApproved jid d w = (Inr MaxRetriesExceeded, w')
              \<and> stockAnalysisQueue w' = stockAnalysisQueue w
              \<and> formatInsightsQueue w' = formatInsightsQueue w
              \<and> judgeReviewQueue w' = judgeReviewQueue w
              \<and> getJobStatus jid w' = Some (r\<lparr>js_status := ''completed'', progress := 100\<rparr>)
              \<and> getStockAnalysis (j_stockAnalysisId d) w'
                   = Some (a\<lparr>sa_judgeReview := mockJudgeReview False (j_companyName d),
                             sa_status := ''review_failed'',
                             sa_failureReason :=
                               Some (''Judge rejected after 3 attempts: ''
                                       @ mockJudgeReview False (j_companyName d))\<rparr>)))"
  using js sa
  by (intro conjI impI;
      simp add: judge_defs io_defs tracker_defs findUnique_rewrite_stockAnalysis Let_def num_str_def)

lemma judge_review_branches_example:
  "fst (processJudgeReview True ''judge-a1-1'' (review_job 1) review_world)
     = Inr (Approved (Some ''format-a1''))
 \<and> fst (processJudgeReview False ''judge-a1-1'' (review_job 1) review_world)
     = Inr (RetryQueued (Some ''stock-a1-attempt-2''))
 \<and> fst (processJudgeReview False ''judge-a1-1'' (review_job 3) review_world)
     = Inr MaxRetriesExceeded"
proof -
  have js: "getJobStatus ''judge-a1-1'' review_world =
              Some \<lparr>jobId = ''judge-a1-1'', jobType = ''judge_review'', relatedId = ''a1'',
                    js_status = ''waiting'', progress = 0, errorMessage = None\<rparr>"
    by code_simp
  have sa: "getStockAnalysis (j_stockAnalysisId (review_job n)) review_world =
              Some \<lparr>sa_id = ''a1'', sa_stockId = ''s1'', sa_status = ''pending'',
                    sa_rawAnalysis = [], sa_judgeReview = [], sa_insights = None,
                    sa_attemptCount = 1, sa_failureReason = None\<rparr>" for n
    by (simp add: review_job_def review_world_def getStockAnalysis_def findUnique_def)
  have i: "j_stockAnalysisId (review_job n) = ''a1''" "j_attemptNumber (review_job n) = n" for n
    by (simp_all add: review_job_def)
  have n2: "num_str 2 = ''2''" by (simp add: num_str_def)
  from judge_review_branches[OF js sa[of 1], where mockApproved=True] have a: "fst (processJudgeReview True ''judge-a1-1'' (review_job 1) review_world)
     = Inr (Approved (Some ''format-a1''))"
    by (auto simp: i)
  from judge_review_branches[OF js sa[of 1], where mockApproved=False] have b: "fst (processJudgeReview False ''judge-a1-1'' (review_job 1) review_world)
     = Inr (RetryQueued (Some ''stock-a1-attempt-2''))"
    by (auto simp: i n2)
  from judge_review_branches[OF js sa[of 3], where mockApproved=False] have c: "fst (processJudgeReview False ''judge-a1-1'' (review_job 3) review_world)
     = Inr MaxRetriesExceeded"
    by (auto simp: i)
  from a b c show ?thesis by blast
qed

text \<open>
  Claim C1 does not hold of the source. A judge-review job is enqueued by the
  stock-analysis worker alone (stockAnalysisWorker.ts, \<open>judgeReviewQueue.add\<close>), under
  the id \<open>judge-<analysisId>-<n>\<close>, and no tracking row is created for it:
  \<open>createJobStatus\<close> is called by the routes only, for the jobs they add. So the first
  write of the judge-review worker, \<open>markJobActive\<close>, rejects, and so does the
  \<open>markJobFailed\<close> of its catch handler. In the run below the reanalyze route starts a
  manual analysis for the one stock of the store and the stock-analysis worker processes
  its first job, which enqueues the judge job \<open>judge-a1-1\<close>. Processing that job, with either verdict, takes none of the three
  branches: the worker rejects, no format or retry job is added, the StockAnalysis is
  left as it was, and there is no JobStatus of the judge job to mark completed.
\<close>

theorem judge_job_has_no_tracking_row:
  "fst (reanalyze ''a1'' ''1'' ''s1'' (pipeline [Catalogue [apple] [consumer_electronics]]))
     = AnalysisStarted ''1'' ''a1''
 \<and> map q_jobId (stockAnalysisQueue (pipeline manual_request)) = [None]
 \<and> map jobId (jobStatuses (pipeline manual_request)) = [''1'']
 \<and> fst (run_analysis 0 ''1'' (pipeline manual_request))
     = Inr (AnalysisQueued ''a1'' (Some ''judge-a1-1''))
 \<and> map jobId (jobStatuses analysed_once) = [''1'']
 \<and> map js_status (jobStatuses analysed_once) = [''completed'']
 \<and> map sa_status (stockAnalyses analysed_once) = [''analyzing'']
 \<and> stockAnalysisQueue analysed_once = []
 \<and> formatInsightsQueue analysed_once = []
 \<and> map q_jobId (judgeReviewQueue analysed_once) = [Some ''judge-a1-1'']
 \<and> map (j_attemptNumber \<circ> q_data) (judgeReviewQueue analysed_once) = [1]
 \<and> getJobStatus ''judge-a1-1'' analysed_once = None
 \<and> run_judge 0 [] True analysed_once
      = (Inl record_not_found, analysed_once\<lparr>judgeReviewQueue := []\<rparr>)
 \<and> run_judge 0 [] False analysed_once
      = (Inl record_not_found, analysed_once\<lparr>judgeReviewQueue := []\<rparr>)"
  by code_simp

text \<open>
  Claim C4 does not hold of the source: the judge-review payload carries neither the
  ticker nor the sub-sector name, and the retry payload is filled with the company name
  as ticker and the literal \<open>Unknown\<close> as sub-sector name (both marked
  \<open>TODO: Get from database\<close> in the source). The run below processes a stock-analysis
  job with ticker \<open>AAPL\<close> and sub-sector \<open>Consumer Electronics\<close>, then rejects the
  judge job it enqueued.
\<close>

theorem retry_payload_replaces_ticker_and_subsector:
  "map q_data (judgeReviewQueue (snd (processStockAnalysis ''stock-a1-attempt-1'' original_job review_world)))
     = [\<lparr>j_stockAnalysisId = ''a1'', j_stockId = ''s1'',
         j_rawAnalysis = mockRawAnalysis original_job, j_companyName = ''Apple Inc.'',
         j_attemptNumber = 1\<rparr>]
 \<and> map q_data (stockAnalysisQueue (snd (processJudgeReview False ''judge-a1-1''
        \<lparr>j_stockAnalysisId = ''a1'', j_stockId = ''s1'',
         j_rawAnalysis = mockRawAnalysis original_job, j_companyName = ''Apple Inc.'',
         j_attemptNumber = 1\<rparr>
        (snd (processStockAnalysis ''stock-a1-attempt-1'' original_job review_world)))))
     = [\<lparr>a_stockId = ''s1'', a_stockAnalysisId = ''a1'', a_companyName = ''Apple Inc.'',
         a_ticker = Some ''Apple Inc.'', a_subSectorName = ''Unknown'', a_attemptNumber = 2\<rparr>]
 \<and> a_ticker original_job = Some ''AAPL''
 \<and> a_subSectorName original_job = ''Consumer Electronics''"
  by code_simp

section \<open>Properties of the format insights worker\<close>

lemmas format_defs = processFormatInsights_def formatInsights_try_def stockAnalysis_update_def
  getStockAnalysis_def completion_check_def subSector_update_def getSubSector_def

lemma allCompleted_iff:
  "allCompleted sub w \<longleftrightarrow>
     (\<forall>s \<in> set (stocks w). st_subSectorId s = ss_id sub \<and> st_rank s \<le> 5 \<longrightarrow>
        (\<exists>an. deepAnalysis s w = Some an \<and> sa_status an = ''completed''))"
  by (auto simp: allCompleted_def topStocks_def stocks_of_def list_all_iff split: option.splits)

lemma allCompleted_cong:
  "stocks w1 = stocks w2 \<Longrightarrow> stockAnalyses w1 = stockAnalyses w2 \<Longrightarrow>
   allCompleted sub w1 = allCompleted sub w2"
  by (simp add: allCompleted_iff deepAnalysis_def)

lemma findUnique_rewrite_subSector:
  "(\<And>x. ss_id (f x) = ss_id x) \<Longrightarrow>
   findUnique ss_id k (rewrite_rows ss_id i f rows)
   = map_option (\<lambda>x. if k = i then f x else x) (findUnique ss_id k rows)"
  by (simp add: findUnique_rewrite_rows)

lemma take5_ranked:
  fixes rank :: "'a \<Rightarrow> int"
  assumes d: "distinct (map rank xs)"
      and r: "set (map rank xs) = {1..int (length xs)}"
  shows "set (take 5 (sort_key rank (filter (\<lambda>s. 1 \<le> rank s) xs))) = set (filter (\<lambda>s. rank s \<le> 5) xs)"
proof -
  have all1: "\<forall>s \<in> set xs. 1 \<le> rank s"
    using r by auto
  then have f: "filter (\<lambda>s. 1 \<le> rank s) xs = xs"
    by simp
  define ys where "ys = sort_key rank xs"
  have len: "length ys = length xs" by (simp add: ys_def)
  have sy: "set ys = set xs" by (simp add: ys_def)
  from d have dx: "distinct xs" and inj: "inj_on rank (set xs)"
    by (simp_all add: distinct_map)
  have dy: "distinct (map rank ys)"
    using dx inj by (simp add: distinct_map ys_def)
  have "sorted (map rank ys)" by (simp add: ys_def sorted_sort_key)
  moreover have "set (map rank ys) = set [1..int (length xs)]"
    using r sy by simp
  ultimately have ranks: "map rank ys = [1..int (length xs)]"
    using dy by (intro sorted_distinct_set_unique) simp_all
  have nth_rank: "rank (ys ! i) = 1 + int i" if "i < length ys" for i
  proof -
    have "rank (ys ! i) = map rank ys ! i" using that by simp
    also have "\<dots> = [1..int (length xs)] ! i" by (simp add: ranks)
    also have "\<dots> = 1 + int i" using that len by (simp add: nth_upto)
    finally show ?thesis .
  qed
  have "set (take 5 ys) = {s \<in> set ys. rank s \<le> 5}"
  proof (intro set_eqI iffI)
    fix s assume "s \<in> set (take 5 ys)"
    then obtain i where i: "i < length (take 5 ys)" "take 5 ys ! i = s"
      by (auto simp: in_set_conv_nth)
    then have "i < 5" "i < length ys" "ys ! i = s" by simp_all
    with nth_rank[of i] show "s \<in> {s \<in> set ys. rank s \<le> 5}" by auto
  next
    fix s assume "s \<in> {s \<in> set ys. rank s \<le> 5}"
    then obtain i where i: "i < length ys" "ys ! i = s" and le: "rank s \<le> 5"
      by (auto simp: in_set_conv_nth)
    with nth_rank[of i] have "i < 5" by simp
    with i have "i < length (take 5 ys)" "take 5 ys ! i = s" by simp_all
    then show "s \<in> set (take 5 ys)" by (auto simp: in_set_conv_nth)
  qed
  then show ?thesis by (simp add: f ys_def)
qed

lemma allCompleted_iff_has:
  "allCompleted sub w \<longleftrightarrow>
     (\<forall>s \<in> set (stocks_of sub w). st_rank s \<le> 5 \<longrightarrow> has_completed_analysis w s)"
  by (auto simp: allCompleted_def topStocks_def list_all_iff has_completed_analysis_def)

text \<open>
  What the completion check of the format-insights worker computes, for a job whose
  tracking row, StockAnalysis row, stock and sub-sector are present. After setting the
  job's StockAnalysis to completed, the worker marks the SubSector of its stock completed
  exactly when every stock of that SubSector with rank at most 5 (unranked stocks, rank
  0, included) has a StockAnalysis with status completed, and leaves the SubSector as it
  was otherwise. When the stocks of the SubSector carry the distinct ranks 1 to N, the
  stocks with rank at most 5 are exactly its 5 lowest-rank stocks (all of them when N is
  below 5).
\<close>

lemma format_completion_cascade:
  assumes js: "getJobStatus jid w = Some r"
      and sa: "getStockAnalysis (f_stockAnalysisId d) w = Some a"
      and st: "findUnique st_id (sa_stockId a) (stocks w) = Some stock"
      and ss: "getSubSector (st_subSectorId stock) w = Some sub"
  shows "\<exists>w'. processFormatInsights jid d w
             = (Inr (Formatted (f_stockAnalysisId d) (mockInsights (f_companyName d))), w')
       \<and> getStockAnalysis (f_stockAnalysisId d) w'
            = Some (a\<lparr>sa_insights := Some (mockInsights (f_companyName d)),
                      sa_status := ''completed''\<rparr>)
       \<and> getSubSector (st_subSectorId stock) w'
            = Some (if (\<forall>s \<in> set (stocks_of sub w'). st_rank s \<le> 5 \<longrightarrow> has_completed_analysis w' s)
                    then sub\<lparr>ss_status := ''completed''\<rparr> else sub)
       \<and> (distinct (map st_rank (stocks_of sub w')) \<and>
          set (map st_rank (stocks_of sub w')) = {1..int (length (stocks_of sub w'))} \<longrightarrow>
            set (top5_by_spec (stocks_of sub w')) = {s \<in> set (stocks_of sub w'). st_rank s \<le> 5})"
proof -
  have id: "ss_id sub = st_subSectorId stock"
    using ss findUnique_Some[of ss_id "st_subSectorId stock" "subSectors w" sub]
    by (simp add: getSubSector_def)
  have run: "\<exists>w'. processFormatInsights jid d w
             = (Inr (Formatted (f_stockAnalysisId d) (mockInsights (f_companyName d))), w')
       \<and> getStockAnalysis (f_stockAnalysisId d) w'
            = Some (a\<lparr>sa_insights := Some (mockInsights (f_companyName d)),
                      sa_status := ''completed''\<rparr>)
       \<and> getSubSector (st_subSectorId stock) w'
            = Some (if allCompleted sub w' then sub\<lparr>ss_status := ''completed''\<rparr> else sub)"
    using js sa st ss id
    by (simp add: format_defs io_defs tracker_defs findUnique_rewrite_stockAnalysis Let_def
          findUnique_rewrite_subSector allCompleted_def topStocks_def stocks_of_def deepAnalysis_def)
  have top: "distinct (map st_rank xs) \<and> set (map st_rank xs) = {1..int (length xs)} \<longrightarrow>
            set (top5_by_spec xs) = {s \<in> set xs. st_rank s \<le> 5}" for xs
    using take5_ranked[of st_rank xs] by (auto simp: top5_by_spec_def)
  from run top show ?thesis
    unfolding allCompleted_iff_has by blast
qed

lemma format_completion_cascade_example:
  "getSubSector ''ss1'' (snd (processFormatInsights ''format-a1'' cascade_job
                                 (cascade_world 2 [second_analysis])))
     = Some (cascade_subSector\<lparr>ss_status := ''completed''\<rparr>)
 \<and> getSubSector ''ss1'' (snd (processFormatInsights ''format-a1'' cascade_job (cascade_world 2 [])))
     = Some cascade_subSector"
proof -
  let ?w1 = "cascade_world 2 [second_analysis]" and ?w2 = "cascade_world 2 []"
  let ?a = "\<lparr>sa_id = ''a1'', sa_stockId = ''s1'', sa_status = ''analyzing'', sa_rawAnalysis = ''report'',
           sa_judgeReview = ''APPROVED'', sa_insights = None, sa_attemptCount = 1,
           sa_failureReason = None\<rparr>"
  let ?s = "\<lparr>st_id = ''s1'', st_subSectorId = ''ss1'', st_companyName = ''First Solar'',
            st_ticker = Some ''FSLR'', st_rank = 1, st_preliminaryNotes = []\<rparr>"
  let ?r = "\<lparr>jobId = ''format-a1'', jobType = ''format_insights'', relatedId = ''a1'',
            js_status = ''waiting'', progress = 0, errorMessage = None\<rparr>"
  have js: "getJobStatus ''format-a1'' (cascade_world k an) = Some ?r" for k an
    by (simp add: cascade_world_def getJobStatus_def findUnique_def)
  have sa: "getStockAnalysis (f_stockAnalysisId cascade_job) (cascade_world k an) = Some ?a" for k an
    by (simp add: cascade_world_def cascade_job_def getStockAnalysis_def findUnique_def)
  have st: "findUnique st_id (sa_stockId ?a) (stocks (cascade_world k an)) = Some ?s" for k an
    by (simp add: cascade_world_def findUnique_def)
  have ss: "getSubSector (st_subSectorId ?s) (cascade_world k an) = Some cascade_subSector" for k an
    by (simp add: cascade_world_def getSubSector_def findUnique_def cascade_subSector_def)
  have c1: "\<forall>s \<in> set (stocks_of cascade_subSector (snd (processFormatInsights ''format-a1'' cascade_job ?w1))).
              st_rank s \<le> 5 \<longrightarrow>
              has_completed_analysis (snd (processFormatInsights ''format-a1'' cascade_job ?w1)) s"
    by code_simp
  have c2: "\<not> (\<forall>s \<in> set (stocks_of cascade_subSector (snd (processFormatInsights ''format-a1'' cascade_job ?w2))).
              st_rank s \<le> 5 \<longrightarrow>
              has_completed_analysis (snd (processFormatInsights ''format-a1'' cascade_job ?w2)) s)"
    by code_simp
  from format_completion_cascade[OF js sa st ss, of 2 "[second_analysis]"]
  obtain w1 where p1: "processFormatInsights ''format-a1'' cascade_job ?w1
             = (Inr (Formatted (f_stockAnalysisId cascade_job)
                       (mockInsights (f_companyName cascade_job))), w1)"
    and g1: "getSubSector (st_subSectorId ?s) w1
            = Some (if (\<forall>s \<in> set (stocks_of cascade_subSector w1).
                          st_rank s \<le> 5 \<longrightarrow> has_completed_analysis w1 s)
                    then cascade_subSector\<lparr>ss_status := ''completed''\<rparr> else cascade_subSector)"
    by blast
  from p1 have e1: "w1 = snd (processFormatInsights ''format-a1'' cascade_job ?w1)" by simp
  from g1 c1 have a: "getSubSector ''ss1'' (snd (processFormatInsights ''format-a1'' cascade_job ?w1))
             = Some (cascade_subSector\<lparr>ss_status := ''completed''\<rparr>)"
    unfolding e1[symmetric] by simp
  from format_completion_cascade[OF js sa st ss, of 2 "[]"]
  obtain w2 where p2: "processFormatInsights ''format-a1'' cascade_job ?w2
             = (Inr (Formatted (f_stockAnalysisId cascade_job)
                       (mockInsights (f_companyName cascade_job))), w2)"
    and g2: "getSubSector (st_subSectorId ?s) w2
            = Some (if (\<forall>s \<in> set (stocks_of cascade_subSector w2).
                          st_rank s \<le> 5 \<longrightarrow> has_completed_analysis w2 s)
                    then cascade_subSector\<lparr>ss_status := ''completed''\<rparr> else cascade_subSector)"
    by blast
  from p2 have e2: "w2 = snd (processFormatInsights ''format-a1'' cascade_job ?w2)" by simp
  from g2 c2 have b: "getSubSector ''ss1'' (snd (processFormatInsights ''format-a1'' cascade_job ?w2))
             = Some cascade_subSector"
    unfolding e2[symmetric] by simp
  from a b show ?thesis by blast
qed

text \<open>
  Claim C2 does not hold of the source. The worker's completion check takes as top
  stocks the stocks with \<open>rank <= 5\<close>, with no lower bound and no limit of five,
  whereas the top 5 of a sub-sector are its 5 lowest-rank stocks among those with rank
  at least 1 (the worker's own comment reads \<open>All top 5 stocks are analyzed\<close>). The two
  runs below format the analysis of the rank-1 stock of a sub-sector with two stocks, the
  second of which has no analysis; the tracking row of the format job is present in
  both. In the first run the second stock is unranked (rank 0): every stock of the top 5
  has a completed analysis, yet the sub-sector is left \<open>analyzing\<close>. In the second run
  the second stock has rank 6 and so belongs to the top 5: the worker marks the
  sub-sector \<open>completed\<close> although that stock has no completed analysis.
\<close>

theorem format_completion_ignores_top5:
  "fst (processFormatInsights ''format-a1'' cascade_job (cascade_world 0 []))
     = Inr (Formatted ''a1'' (mockInsights ''First Solar''))
 \<and> map st_id (top5_by_spec (stocks_of cascade_subSector
        (snd (processFormatInsights ''format-a1'' cascade_job (cascade_world 0 [])))))
     = [''s1'']
 \<and> list_all (has_completed_analysis (snd (processFormatInsights ''format-a1'' cascade_job (cascade_world 0 []))))
     (top5_by_spec (stocks_of cascade_subSector
        (snd (processFormatInsights ''format-a1'' cascade_job (cascade_world 0 [])))))
 \<and> map ss_status (subSectors (snd (processFormatInsights ''format-a1'' cascade_job (cascade_world 0 []))))
     = [''analyzing'']
 \<and> fst (processFormatInsights ''format-a1'' cascade_job (cascade_world 6 []))
     = Inr (Formatted ''a1'' (mockInsights ''First Solar''))
 \<and> map st_id (top5_by_spec (stocks_of cascade_subSector
        (snd (processFormatInsights ''format-a1'' cascade_job (cascade_world 6 [])))))
     = [''s1'', ''s2'']
 \<and> map (has_completed_analysis (snd (processFormatInsights ''format-a1'' cascade_job (cascade_world 6 []))))
     (top5_by_spec (stocks_of cascade_subSector
        (snd (processFormatInsights ''format-a1'' cascade_job (cascade_world 6 [])))))
     = [True, False]
 \<and> map ss_status (subSectors (snd (processFormatInsights ''format-a1'' cascade_job (cascade_world 6 []))))
     = [''completed'']"
  by code_simp

section \<open>Effect of one worker run on the analysis table and the queues\<close>

lemma hoare_bind:
  "hoare P m Q E \<Longrightarrow> (\<And>a. hoare (Q a) (f a) R E) \<Longrightarrow> hoare P (bind_io m f) R E"
  unfolding hoare_def bind_io_def by (fastforce split: sum.splits prod.splits)

lemma hoare_then:
  "hoare P m (\<lambda>_. Q) E \<Longrightarrow> hoare Q k R E \<Longrightarrow> hoare P (then_io m k) R E"
  unfolding then_io_def by (rule hoare_bind)

lemma hoare_return: "(\<And>w. P w \<Longrightarrow> Q a w) \<Longrightarrow> hoare P (return_io a) Q E"
  by (simp add: hoare_def return_io_def)

lemma hoare_if:
  "(c \<Longrightarrow> hoare P m Q E) \<Longrightarrow> (\<not> c \<Longrightarrow> hoare P k Q E) \<Longrightarrow> hoare P (if c then m else k) Q E"
  by simp

lemma hoare_weaken:
  "hoare P' m Q' E' \<Longrightarrow> (\<And>w. P w \<Longrightarrow> P' w) \<Longrightarrow> (\<And>a w. Q' a w \<Longrightarrow> Q a w) \<Longrightarrow>
   (\<And>w. E' w \<Longrightarrow> E w) \<Longrightarrow> hoare P m Q E"
  unfolding hoare_def by (fastforce split: sum.splits prod.splits)

lemma hoare_mapM:
  "(\<And>x. hoare I (f x) (\<lambda>_. I) E) \<Longrightarrow> hoare I (mapM_io f xs) (\<lambda>_. I) E"
proof (induction xs)
  case Nil
  show ?case by (simp add: hoare_return)
next
  case (Cons x xs)
  show ?case
    unfolding mapM_io.simps
    by (rule hoare_bind[OF Cons.prems]) (rule hoare_bind[OF Cons.IH[OF Cons.prems]], rule hoare_return)
qed

lemma hoare_try_catch:
  assumes b: "hoare P body Q E" and h: "\<And>msg. hoare E (handler msg) (\<lambda>_. E') E'"
      and p: "P w"
  shows "case fst (try_catch body describe handler w) of
           Inr res \<Rightarrow> Q res (snd (try_catch body describe handler w))
         | Inl e \<Rightarrow> E' (snd (try_catch body describe handler w))"
proof (cases "body w")
  case (Inr r)
  then show ?thesis
    using b p by (cases r) (auto simp: hoare_def try_catch_def)
next
  case (Inl r)
  obtain e w1 where r: "r = (e, w1)" by (cases r)
  with Inl b p have "E w1" by (auto simp: hoare_def)
  with h[of "describe e"] show ?thesis
    using Inl r by (auto simp: hoare_def try_catch_def Let_def split: sum.splits prod.splits)
qed

lemma hoare_try_catch_world:
  assumes b: "hoare P body (\<lambda>_. Q) E" and h: "\<And>msg. hoare E (handler msg) (\<lambda>_. E') E'"
      and p: "P w"
  shows "Q (snd (try_catch body describe handler w)) \<or> E' (snd (try_catch body describe handler w))"
proof (cases "body w")
  case (Inr r)
  then show ?thesis
    using b p by (cases r) (auto simp: hoare_def try_catch_def)
next
  case (Inl r)
  obtain e w1 where r: "r = (e, w1)" by (cases r)
  with Inl b p have "E w1" by (auto simp: hoare_def)
  with h[of "describe e"] have "E' (snd (try_catch body describe handler w))"
    using Inl r by (auto simp: hoare_def try_catch_def Let_def split: sum.splits prod.splits)
  then show ?thesis ..
qed

text \<open>Tracker writes touch only the tracker table.\<close>

lemma hoare_updateJobStatus:
  "(\<And>w js. P w \<Longrightarrow> Q (w\<lparr>jobStatuses := js\<rparr>)) \<Longrightarrow> (\<And>w. P w \<Longrightarrow> E w) \<Longrightarrow>
   hoare P (updateJobStatus jid d) (\<lambda>_. Q) E"
  by (auto simp: hoare_def updateJobStatus_def split: option.splits)

lemma hoare_tracker:
  assumes "\<And>w js. P w \<Longrightarrow> Q (w\<lparr>jobStatuses := js\<rparr>)" "\<And>w. P w \<Longrightarrow> E w"
  shows "hoare P (markJobActive jid p) (\<lambda>_. Q) E"
    and "hoare P (updateJobProgress jid p) (\<lambda>_. Q) E"
    and "hoare P (markJobCompleted jid) (\<lambda>_. Q) E"
    and "hoare P (markJobFailed jid msg) (\<lambda>_. Q) E"
  unfolding markJobActive_def updateJobProgress_def markJobCompleted_def markJobFailed_def
  using assms by (auto intro!: hoare_updateJobStatus)

lemma has_row_frame [simp]:
  "has_row jid (w\<lparr>stockAnalyses := sa\<rparr>) = has_row jid w"
  "has_row jid (w\<lparr>stocks := st\<rparr>) = has_row jid w"
  "has_row jid (w\<lparr>subSectors := ss\<rparr>) = has_row jid w"
  "has_row jid (w\<lparr>stockAnalysisQueue := q1\<rparr>) = has_row jid w"
  "has_row jid (w\<lparr>judgeReviewQueue := q2\<rparr>) = has_row jid w"
  "has_row jid (w\<lparr>formatInsightsQueue := q3\<rparr>) = has_row jid w"
  by (simp_all add: has_row_def)

text \<open>
  Once a tracker write for a job id has succeeded, the row exists, and the later tracker
  writes of the same run cannot reject.
\<close>

lemma hoare_updateJobStatus_first:
  assumes "\<And>w js. P w \<Longrightarrow> Q (w\<lparr>jobStatuses := js\<rparr>)" and "\<And>w. P w \<Longrightarrow> E w"
  shows "hoare P (updateJobStatus jid d) (\<lambda>_ w. Q w \<and> has_row jid w) E"
  using assms
  by (auto simp: hoare_def updateJobStatus_def has_row_def split: option.splits)

lemma hoare_updateJobStatus_next:
  assumes "\<And>w js. P w \<Longrightarrow> Q (w\<lparr>jobStatuses := js\<rparr>)"
  shows "hoare (\<lambda>w. P w \<and> has_row jid w) (updateJobStatus jid d) (\<lambda>_ w. Q w \<and> has_row jid w) E"
  using assms
  by (auto simp: hoare_def updateJobStatus_def has_row_def split: option.splits)

lemma hoare_markJobActive_first:
  assumes "\<And>w js. P w \<Longrightarrow> Q (w\<lparr>jobStatuses := js\<rparr>)" and "\<And>w. P w \<Longrightarrow> E w"
  shows "hoare P (markJobActive jid p) (\<lambda>_ w. Q w \<and> has_row jid w) E"
  unfolding markJobActive_def using assms by (rule hoare_updateJobStatus_first)

lemma hoare_updateJobProgress_next:
  assumes "\<And>w js. P w \<Longrightarrow> Q (w\<lparr>jobStatuses := js\<rparr>)"
  shows "hoare (\<lambda>w. P w \<and> has_row jid w) (updateJobProgress jid p)
           (\<lambda>_ w. Q w \<and> has_row jid w) E"
  unfolding updateJobProgress_def using assms by (rule hoare_updateJobStatus_next)

lemma hoare_markJobCompleted_next:
  assumes "\<And>w js. P w \<Longrightarrow> Q (w\<lparr>jobStatuses := js\<rparr>)"
  shows "hoare (\<lambda>w. P w \<and> has_row jid w) (markJobCompleted jid)
           (\<lambda>_ w. Q w \<and> has_row jid w) E"
  unfolding markJobCompleted_def using assms by (rule hoare_updateJobStatus_next)

lemma hoare_stockAnalysis_update:
  "(\<And>w. P w \<Longrightarrow> Q (w\<lparr>stockAnalyses := rewrite_rows sa_id k f (stockAnalyses w)\<rparr>)) \<Longrightarrow>
   (\<And>w. P w \<Longrightarrow> E w) \<Longrightarrow>
   hoare P (stockAnalysis_update k f) (\<lambda>_. Q) E"
  by (auto simp: hoare_def stockAnalysis_update_def split: option.splits)

lemma hoare_completion_check:
  "(\<And>w ss. P w \<Longrightarrow> P (w\<lparr>subSectors := ss\<rparr>)) \<Longrightarrow>
   hoare P (completion_check k) (\<lambda>_. P) P"
  by (auto simp: hoare_def completion_check_def subSector_update_def then_io_def bind_io_def
        return_io_def split: option.splits)

lemma hoare_subSector_update:
  "(\<And>w ss. P w \<Longrightarrow> Q (w\<lparr>subSectors := ss\<rparr>)) \<Longrightarrow> (\<And>w. P w \<Longrightarrow> E w) \<Longrightarrow>
   hoare P (subSector_update k f) (\<lambda>_. Q) E"
  by (auto simp: hoare_def subSector_update_def split: option.splits)

lemma hoare_stock_update:
  "(\<And>w ss. P w \<Longrightarrow> Q (w\<lparr>stocks := ss\<rparr>)) \<Longrightarrow> (\<And>w. P w \<Longrightarrow> E w) \<Longrightarrow>
   hoare P (stock_update k f) (\<lambda>_. Q) E"
  by (auto simp: hoare_def stock_update_def split: option.splits)

lemma hoare_judgeReviewQueue_add:
  "(\<And>w. P w \<Longrightarrow> Q \<lparr>q_name = name, q_data = d, q_jobId = jid, q_delay = delay, q_priority = pr\<rparr>
                      (w\<lparr>judgeReviewQueue := judgeReviewQueue w @
                           [\<lparr>q_name = name, q_data = d, q_jobId = jid, q_delay = delay, q_priority = pr\<rparr>]\<rparr>)) \<Longrightarrow>
   hoare P (judgeReviewQueue_add name d jid delay pr) Q E"
  by (simp add: hoare_def judgeReviewQueue_add_def Let_def)

lemma hoare_stockAnalysisQueue_add:
  "(\<And>w. P w \<Longrightarrow> Q \<lparr>q_name = name, q_data = d, q_jobId = jid, q_delay = delay, q_priority = pr\<rparr>
                      (w\<lparr>stockAnalysisQueue := stockAnalysisQueue w @
                           [\<lparr>q_name = name, q_data = d, q_jobId = jid, q_delay = delay, q_priority = pr\<rparr>]\<rparr>)) \<Longrightarrow>
   hoare P (stockAnalysisQueue_add name d jid delay pr) Q E"
  by (simp add: hoare_def stockAnalysisQueue_add_def Let_def)

lemma hoare_formatInsightsQueue_add:
  "(\<And>w. P w \<Longrightarrow> Q \<lparr>q_name = name, q_data = d, q_jobId = jid, q_delay = delay, q_priority = pr\<rparr>
                      (w\<lparr>formatInsightsQueue := formatInsightsQueue w @
                           [\<lparr>q_name = name, q_data = d, q_jobId = jid, q_delay = delay, q_priority = pr\<rparr>]\<rparr>)) \<Longrightarrow>
   hoare P (formatInsightsQueue_add name d jid delay pr) Q E"
  by (simp add: hoare_def formatInsightsQueue_add_def Let_def)

text \<open>Rows related one by one stay related when rows of the second table are rewritten.\<close>

lemma list_all2_rewrite_rows:
  "list_all2 R xs ys \<Longrightarrow> (\<And>a b. R a b \<Longrightarrow> key b = k \<Longrightarrow> R a (f b)) \<Longrightarrow>
   list_all2 R xs (rewrite_rows key k f ys)"
  unfolding rewrite_rows_def by (induction rule: list_all2_induct) auto

lemma set_rewrite_rows:
  "a \<in> set (rewrite_rows key k f ys) \<Longrightarrow> (\<exists>b \<in> set ys. a = (if key b = k then f b else b))"
  unfolding rewrite_rows_def by auto

lemma rows_upd:
  "list_all2 (count_set x n) rows0 rows \<Longrightarrow> (\<And>a. sa_id (f a) = sa_id a) \<Longrightarrow>
   (\<And>a. sa_attemptCount (f a) = sa_attemptCount a \<or> sa_attemptCount (f a) = n) \<Longrightarrow>
   list_all2 (count_set x n) rows0 (rewrite_rows sa_id x f rows)"
  apply (erule list_all2_rewrite_rows)
  apply (simp add: count_set_def)
  by metis

lemma count_upd:
  "(\<And>a. sa_id (f a) = sa_id a) \<Longrightarrow> (\<And>a. sa_attemptCount (f a) = n) \<Longrightarrow>
   \<forall>a \<in> set (rewrite_rows sa_id x f rows). sa_id a = x \<longrightarrow> sa_attemptCount a = n"
  by (auto simp: rewrite_rows_def)

lemma count_keep:
  "\<forall>a \<in> set rows. sa_id a = x \<longrightarrow> sa_attemptCount a = n \<Longrightarrow>
   (\<And>a. sa_id (f a) = sa_id a) \<Longrightarrow> (\<And>a. sa_attemptCount (f a) = sa_attemptCount a) \<Longrightarrow>
   \<forall>a \<in> set (rewrite_rows sa_id x f rows). sa_id a = x \<longrightarrow> sa_attemptCount a = n"
  by (auto simp: rewrite_rows_def)

lemma count_set_refl: "list_all2 (count_set x n) rows rows"
  by (simp add: list_all2_refl count_set_def)

lemma sa_rows_tracker [simp]: "sa_rows w0 d (w\<lparr>jobStatuses := js\<rparr>) = sa_rows w0 d w"
  by (simp add: sa_rows_def)

lemma sa_count_tracker [simp]: "sa_count d (w\<lparr>jobStatuses := js\<rparr>) = sa_count d w"
  by (simp add: sa_count_def)

lemma sa_rows_judge [simp]: "sa_rows w0 d (w\<lparr>judgeReviewQueue := q\<rparr>) = sa_rows w0 d w"
  by (simp add: sa_rows_def)

lemma sa_count_judge [simp]: "sa_count d (w\<lparr>judgeReviewQueue := q\<rparr>) = sa_count d w"
  by (simp add: sa_count_def)

lemma sa_rows_upd:
  assumes r: "sa_rows w0 d w" and i: "\<And>a. sa_id (f a) = sa_id a"
      and c: "\<And>a. sa_attemptCount (f a) = sa_attemptCount a \<or> sa_attemptCount (f a) = a_attemptNumber d"
  shows "sa_rows w0 d (w\<lparr>stockAnalyses := rewrite_rows sa_id (a_stockAnalysisId d) f (stockAnalyses w)\<rparr>)"
proof -
  from r have l: "list_all2 (count_set (a_stockAnalysisId d) (a_attemptNumber d))
                    (stockAnalyses w0) (stockAnalyses w)"
    and q: "stockAnalysisQueue w = stockAnalysisQueue w0" "formatInsightsQueue w = formatInsightsQueue w0"
    unfolding sa_rows_def by blast+
  from rows_upd[OF l i c] q show ?thesis
    unfolding sa_rows_def by simp
qed

lemma sa_count_upd:
  assumes i: "\<And>a. sa_id (f a) = sa_id a" and c: "\<And>a. sa_attemptCount (f a) = a_attemptNumber d"
  shows "sa_count d (w\<lparr>stockAnalyses := rewrite_rows sa_id (a_stockAnalysisId d) f (stockAnalyses w)\<rparr>)"
  using count_upd[of f "a_attemptNumber d" "a_stockAnalysisId d" "stockAnalyses w", OF i c]
  unfolding sa_count_def by simp

lemma sa_count_keep:
  assumes k: "sa_count d w" and i: "\<And>a. sa_id (f a) = sa_id a"
      and c: "\<And>a. sa_attemptCount (f a) = sa_attemptCount a"
  shows "sa_count d (w\<lparr>stockAnalyses := rewrite_rows sa_id (a_stockAnalysisId d) f (stockAnalyses w)\<rparr>)"
proof -
  from k have "\<forall>a \<in> set (stockAnalyses w). sa_id a = a_stockAnalysisId d \<longrightarrow> sa_attemptCount a = a_attemptNumber d"
    unfolding sa_count_def .
  from count_keep[OF this i c] show ?thesis
    unfolding sa_count_def by simp
qed

lemma stockAnalysis_try_hoare:
  "hoare (sa_before w0 d) (stockAnalysis_try jid d) (\<lambda>_. sa_after w0 d) (sa_before w0 d)"
proof -
  let ?E = "sa_before w0 d"
  let ?P0 = "\<lambda>w. sa_before w0 d w \<and> has_row jid w"
  let ?P1 = "\<lambda>w. (sa_before w0 d w \<and> sa_count d w) \<and> has_row jid w"
  let ?P2 = "\<lambda>w. sa_after w0 d w \<and> has_row jid w"
  have t0: "hoare (sa_before w0 d) (markJobActive jid 0) (\<lambda>_. ?P0) ?E"
    by (rule hoare_markJobActive_first) (simp_all add: sa_before_def)
  have t1: "hoare ?P0 (stockAnalysis_update (a_stockAnalysisId d)
              (\<lambda>a. a\<lparr>sa_status := ''analyzing'', sa_attemptCount := a_attemptNumber d\<rparr>)) (\<lambda>_. ?P1) ?E"
    by (rule hoare_stockAnalysis_update) (simp_all add: sa_before_def sa_rows_upd sa_count_upd)
  have t2: "hoare ?P1 (updateJobProgress jid p) (\<lambda>_. ?P1) ?E" for p
    by (rule hoare_updateJobProgress_next) (simp add: sa_before_def)
  have t3: "hoare ?P1 (stockAnalysis_update (a_stockAnalysisId d)
              (\<lambda>a. a\<lparr>sa_rawAnalysis := mockRawAnalysis d\<rparr>)) (\<lambda>_. ?P1) ?E"
    by (rule hoare_stockAnalysis_update) (simp_all add: sa_before_def sa_rows_upd sa_count_keep)
  have t4: "hoare ?P1 (judgeReviewQueue_add ''judge-review''
                \<lparr>j_stockAnalysisId = a_stockAnalysisId d, j_stockId = a_stockId d,
                 j_rawAnalysis = mockRawAnalysis d, j_companyName = a_companyName d,
                 j_attemptNumber = a_attemptNumber d\<rparr>
                (Some (''judge-'' @ a_stockAnalysisId d @ ''-'' @ num_str (a_attemptNumber d)))
                None None) (\<lambda>_. ?P2) ?E"
    by (rule hoare_judgeReviewQueue_add) (simp add: sa_before_def sa_after_def judge_job_def)
  have t5: "hoare ?P2 (markJobCompleted jid) (\<lambda>_. ?P2) ?E"
    by (rule hoare_markJobCompleted_next) (simp add: sa_after_def)
  show ?thesis
    unfolding stockAnalysis_try_def
    by (intro hoare_then[OF t0] hoare_then[OF t1] hoare_then[OF t2] hoare_then[OF t3]
          hoare_bind[OF t4] hoare_then[OF t5] hoare_return) simp
qed

lemma stockAnalysis_handler_hoare:
  "hoare (sa_before w0 d)
     (then_io (stockAnalysis_update (a_stockAnalysisId d)
                 (\<lambda>a. a\<lparr>sa_status := ''review_failed'', sa_failureReason := Some msg\<rparr>))
        (markJobFailed jid msg))
     (\<lambda>_. sa_before w0 d) (sa_before w0 d)"
proof -
  let ?E = "sa_before w0 d"
  have h1: "hoare ?E (stockAnalysis_update (a_stockAnalysisId d)
              (\<lambda>a. a\<lparr>sa_status := ''review_failed'', sa_failureReason := Some msg\<rparr>)) (\<lambda>_. ?E) ?E"
    by (rule hoare_stockAnalysis_update) (simp_all add: sa_before_def sa_rows_upd)
  have h2: "hoare ?E (markJobFailed jid msg) (\<lambda>_. ?E) ?E"
    by (rule hoare_tracker) (simp_all add: sa_before_def)
  show ?thesis by (rule hoare_then[OF h1 h2])
qed

lemma stockAnalysis_effect:
  "case fst (processStockAnalysis jid d w0) of
     Inr res \<Rightarrow> sa_after w0 d (snd (processStockAnalysis jid d w0))
   | Inl e \<Rightarrow> sa_before w0 d (snd (processStockAnalysis jid d w0))"
proof -
  have init: "sa_before w0 d w0" by (simp add: sa_before_def sa_rows_def count_set_refl)
  show ?thesis
    unfolding processStockAnalysis_def
    by (rule hoare_try_catch[OF stockAnalysis_try_hoare], rule stockAnalysis_handler_hoare,
        rule init)
qed

lemma jr_rows_tracker [simp]: "jr_rows w0 (w\<lparr>jobStatuses := js\<rparr>) = jr_rows w0 w"
  by (simp add: jr_rows_def)

lemma same_count_refl: "list_all2 same_count rows rows"
  by (simp add: list_all2_refl same_count_def)

lemma jr_rows_upd:
  assumes r: "jr_rows w0 w" and i: "\<And>a. sa_id (f a) = sa_id a"
      and c: "\<And>a. sa_attemptCount (f a) = sa_attemptCount a"
  shows "jr_rows w0 (w\<lparr>stockAnalyses := rewrite_rows sa_id k f (stockAnalyses w)\<rparr>)"
proof -
  from r have l: "list_all2 same_count (stockAnalyses w0) (stockAnalyses w)"
    and q: "judgeReviewQueue w = judgeReviewQueue w0"
    unfolding jr_rows_def by blast+
  have "list_all2 same_count (stockAnalyses w0) (rewrite_rows sa_id k f (stockAnalyses w))"
    by (rule list_all2_rewrite_rows[OF l]) (simp add: same_count_def i c)
  with q show ?thesis unfolding jr_rows_def by simp
qed

lemma status_upd:
  "(\<And>a. sa_id (f a) = sa_id a) \<Longrightarrow> (\<And>a. sa_status (f a) = s) \<Longrightarrow>
   \<forall>a \<in> set (rewrite_rows sa_id x f rows). sa_id a = x \<longrightarrow> sa_status a = s"
  by (auto simp: rewrite_rows_def)

lemma jr_before_upd:
  assumes r: "jr_before w0 w" and i: "\<And>a. sa_id (f a) = sa_id a"
      and c: "\<And>a. sa_attemptCount (f a) = sa_attemptCount a"
  shows "jr_before w0 (w\<lparr>stockAnalyses := rewrite_rows sa_id k f (stockAnalyses w)\<rparr>)"
proof -
  from r have rows: "jr_rows w0 w" and q: "stockAnalysisQueue w = stockAnalysisQueue w0"
      "formatInsightsQueue w = formatInsightsQueue w0"
    unfolding jr_before_def by blast+
  from jr_rows_upd[OF rows i c] q show ?thesis
    unfolding jr_before_def by simp
qed

lemma jr_failed_upd:
  assumes r: "jr_before w0 w" and nb: "\<not> b" and n3: "3 \<le> j_attemptNumber d"
  shows "jr_failed w0 b d
           (w\<lparr>stockAnalyses := rewrite_rows sa_id (j_stockAnalysisId d)
                  (\<lambda>a. a\<lparr>sa_status := ''review_failed'', sa_failureReason := reason\<rparr>)
                  (stockAnalyses w)\<rparr>)"
proof -
  have b: "jr_before w0 (w\<lparr>stockAnalyses := rewrite_rows sa_id (j_stockAnalysisId d)
                  (\<lambda>a. a\<lparr>sa_status := ''review_failed'', sa_failureReason := reason\<rparr>)
                  (stockAnalyses w)\<rparr>)"
    by (rule jr_before_upd[OF r]) simp_all
  have s: "\<forall>a \<in> set (rewrite_rows sa_id (j_stockAnalysisId d)
                  (\<lambda>a. a\<lparr>sa_status := ''review_failed'', sa_failureReason := reason\<rparr>)
                  (stockAnalyses w)). sa_id a = j_stockAnalysisId d \<longrightarrow> sa_status a = ''review_failed''"
    by (rule status_upd) simp_all
  from b s nb n3 show ?thesis
    unfolding jr_failed_def by simp
qed

lemma judgeReview_try_hoare:
  "hoare (jr_before w0) (judgeReview_try b jid d) (jr_post w0 b d) (jr_before w0)"
proof -
  let ?E = "jr_before w0"
  let ?P = "\<lambda>w. jr_before w0 w \<and> has_row jid w"
  let ?F = "\<lambda>w. jr_format w0 b d w \<and> has_row jid w"
  let ?R = "\<lambda>w. jr_retry w0 b d w \<and> has_row jid w"
  let ?M = "\<lambda>w. jr_failed w0 b d w \<and> has_row jid w"
  have t0: "hoare (jr_before w0) (markJobActive jid 0) (\<lambda>_. ?P) ?E"
    by (rule hoare_markJobActive_first) (simp_all add: jr_before_def)
  have t1: "hoare ?P (updateJobProgress jid p) (\<lambda>_. ?P) ?E" for p
    by (rule hoare_updateJobProgress_next) (simp add: jr_before_def)
  have t2: "hoare ?P (stockAnalysis_update (j_stockAnalysisId d)
              (\<lambda>a. a\<lparr>sa_judgeReview := mockJudgeReview b (j_companyName d)\<rparr>))
              (\<lambda>_. ?P) ?E"
    by (rule hoare_stockAnalysis_update) (simp_all add: jr_before_upd)
  have f1: "hoare ?P (formatInsightsQueue_add ''format-insights''
                  \<lparr>f_stockAnalysisId = j_stockAnalysisId d, f_rawAnalysis = j_rawAnalysis d,
                   f_judgeReview = mockJudgeReview b (j_companyName d),
                   f_companyName = j_companyName d\<rparr>
                  (Some (''format-'' @ j_stockAnalysisId d)) None None)
              (\<lambda>_. ?F) ?E" if b
    using that
    by (intro hoare_formatInsightsQueue_add)
       (simp add: jr_before_def jr_format_def jr_rows_def format_job_def)
  have f2: "hoare ?F (markJobCompleted jid) (\<lambda>_. ?F) ?E"
    by (rule hoare_markJobCompleted_next) (simp add: jr_format_def)
  have r1: "hoare ?P (stockAnalysisQueue_add ''stock-analysis-retry''
                  \<lparr>a_stockId = j_stockId d, a_stockAnalysisId = j_stockAnalysisId d,
                   a_companyName = j_companyName d, a_ticker = Some (j_companyName d),
                   a_subSectorName = ''Unknown'', a_attemptNumber = j_attemptNumber d + 1\<rparr>
                  (Some (''stock-'' @ j_stockAnalysisId d @ ''-attempt-''
                           @ num_str (j_attemptNumber d + 1)))
                  (Some 5000) None)
              (\<lambda>_. ?R) ?E" if "\<not> b" "j_attemptNumber d < 3"
    using that
    by (intro hoare_stockAnalysisQueue_add)
       (simp add: jr_before_def jr_retry_def jr_rows_def retry_job_def)
  have r2: "hoare ?R (markJobCompleted jid) (\<lambda>_. ?R) ?E"
    by (rule hoare_markJobCompleted_next) (simp add: jr_retry_def)
  have m1: "hoare ?P (stockAnalysis_update (j_stockAnalysisId d)
                  (\<lambda>a. a\<lparr>sa_status := ''review_failed'',
                          sa_failureReason :=
                            Some (''Judge rejected after '' @ num_str 3
                                    @ '' attempts: ''
                                    @ mockJudgeReview b (j_companyName d))\<rparr>))
              (\<lambda>_. ?M) ?E" if nb: "\<not> b" and n3: "\<not> j_attemptNumber d < 3"
  proof (rule hoare_stockAnalysis_update)
    fix w assume "jr_before w0 w \<and> has_row jid w"
    then show "jr_failed w0 b d (w\<lparr>stockAnalyses := rewrite_rows sa_id (j_stockAnalysisId d)
                  (\<lambda>a. a\<lparr>sa_status := ''review_failed'',
                          sa_failureReason :=
                            Some (''Judge rejected after '' @ num_str 3
                                    @ '' attempts: ''
                                    @ mockJudgeReview b (j_companyName d))\<rparr>) (stockAnalyses w)\<rparr>)
             \<and> has_row jid (w\<lparr>stockAnalyses := rewrite_rows sa_id (j_stockAnalysisId d)
                  (\<lambda>a. a\<lparr>sa_status := ''review_failed'',
                          sa_failureReason :=
                            Some (''Judge rejected after '' @ num_str 3
                                    @ '' attempts: ''
                                    @ mockJudgeReview b (j_companyName d))\<rparr>) (stockAnalyses w)\<rparr>)"
      using nb n3 by (simp add: jr_failed_upd)
  next
    fix w assume "jr_before w0 w \<and> has_row jid w"
    then show "?E w" by simp
  qed
  have m2: "hoare ?M (markJobCompleted jid) (\<lambda>_. ?M) ?E"
  proof (rule hoare_markJobCompleted_next)
    fix w js assume "jr_failed w0 b d w"
    then show "jr_failed w0 b d (w\<lparr>jobStatuses := js\<rparr>)"
      by (simp add: jr_failed_def jr_before_def)
  qed
  show ?thesis
    unfolding judgeReview_try_def MAX_RETRY_ATTEMPTS_def
    apply (intro hoare_then[OF t0] hoare_then[OF t1] hoare_then[OF t2] hoare_if)
      apply (intro hoare_then[OF t1] hoare_bind[OF f1] hoare_then[OF f2] hoare_return)
       apply assumption
      apply (simp add: jr_post_def)
     apply (intro hoare_then[OF t1] hoare_bind[OF r1] hoare_then[OF r2] hoare_return)
       apply assumption
      apply assumption
     apply (simp add: jr_post_def)
    apply (intro hoare_then[OF m1] hoare_then[OF m2] hoare_return)
      apply assumption
     apply assumption
    apply (simp add: jr_post_def)
    done
qed

lemma judgeReview_effect:
  "case fst (processJudgeReview b jid d w0) of
     Inr res \<Rightarrow> jr_post w0 b d res (snd (processJudgeReview b jid d w0))
   | Inl e \<Rightarrow> jr_before w0 (snd (processJudgeReview b jid d w0))"
proof -
  have handler: "hoare (jr_before w0) (markJobFailed jid msg) (\<lambda>_. jr_before w0) (jr_before w0)"
    for msg
    by (rule hoare_tracker) (simp_all add: jr_before_def)
  have init: "jr_before w0 w0"
    by (simp add: jr_before_def jr_rows_def same_count_refl)
  show ?thesis
    unfolding processJudgeReview_def
    by (rule hoare_try_catch[OF judgeReview_try_hoare], rule handler, rule init)
qed

lemma fi_keep_upd:
  assumes r: "fi_keep w0 w" and i: "\<And>a. sa_id (f a) = sa_id a"
      and c: "\<And>a. sa_attemptCount (f a) = sa_attemptCount a"
  shows "fi_keep w0 (w\<lparr>stockAnalyses := rewrite_rows sa_id k f (stockAnalyses w)\<rparr>)"
proof -
  from r have rows: "jr_rows w0 w" and q: "stockAnalysisQueue w = stockAnalysisQueue w0"
    unfolding fi_keep_def by blast+
  from jr_rows_upd[OF rows i c] q show ?thesis
    unfolding fi_keep_def by simp
qed

lemma fi_keep_frame [simp]:
  "fi_keep w0 (w\<lparr>jobStatuses := js\<rparr>) = fi_keep w0 w"
  "fi_keep w0 (w\<lparr>subSectors := ss\<rparr>) = fi_keep w0 w"
  by (simp_all add: fi_keep_def jr_rows_def)

lemma formatInsights_effect:
  "fi_keep w0 (snd (processFormatInsights jid d w0))"
proof -
  let ?P = "fi_keep w0"
  have t: "hoare ?P (markJobActive jid 0) (\<lambda>_. ?P) ?P"
          "hoare ?P (updateJobProgress jid p) (\<lambda>_. ?P) ?P"
          "hoare ?P (markJobCompleted jid) (\<lambda>_. ?P) ?P"
          "hoare ?P (markJobFailed jid msg) (\<lambda>_. ?P) ?P" for p msg
    by (rule hoare_tracker; simp)+
  have u: "hoare ?P (stockAnalysis_update (f_stockAnalysisId d)
                (\<lambda>a. a\<lparr>sa_insights := Some (mockInsights (f_companyName d)),
                        sa_status := ''completed''\<rparr>)) (\<lambda>_. ?P) ?P"
    by (rule hoare_stockAnalysis_update) (simp_all add: fi_keep_upd)
  have c: "hoare ?P (completion_check (f_stockAnalysisId d)) (\<lambda>_. ?P) ?P"
    by (rule hoare_completion_check) simp
  have body: "hoare ?P (formatInsights_try jid d) (\<lambda>_. ?P) ?P"
    unfolding formatInsights_try_def
    by (intro hoare_then[OF t(1)] hoare_then[OF t(2)] hoare_then[OF u] hoare_then[OF c]
          hoare_then[OF t(3)] hoare_return)
  have h1: "hoare ?P (stockAnalysis_update (f_stockAnalysisId d)
                (\<lambda>a. a\<lparr>sa_status := ''review_failed'', sa_failureReason := Some msg\<rparr>))
              (\<lambda>_. ?P) ?P" for msg
    by (rule hoare_stockAnalysis_update) (simp_all add: fi_keep_upd)
  have handler: "hoare ?P (then_io (stockAnalysis_update (f_stockAnalysisId d)
                (\<lambda>a. a\<lparr>sa_status := ''review_failed'', sa_failureReason := Some msg\<rparr>))
                (markJobFailed jid msg)) (\<lambda>_. ?P) ?P" for msg
    by (rule hoare_then[OF h1 t(4)])
  have init: "?P w0"
    by (simp add: fi_keep_def jr_rows_def same_count_refl)
  have "?P (snd (processFormatInsights jid d w0)) \<or> ?P (snd (processFormatInsights jid d w0))"
    unfolding processFormatInsights_def
    by (rule hoare_try_catch_world[OF body], rule handler, rule init)
  then show ?thesis by simp
qed

lemma rk_created_frame [simp]:
  "rk_created w0 rows (w\<lparr>jobStatuses := js\<rparr>) = rk_created w0 rows w"
  "rk_created w0 rows (w\<lparr>subSectors := ss\<rparr>) = rk_created w0 rows w"
  "rk_created w0 rows (w\<lparr>stocks := st\<rparr>) = rk_created w0 rows w"
  by (simp_all add: rk_created_def)

lemma rk_added_frame [simp]:
  "rk_added w0 rows jobs (w\<lparr>jobStatuses := js\<rparr>) = rk_added w0 rows jobs w"
  "rk_added w0 rows jobs (w\<lparr>subSectors := ss\<rparr>) = rk_added w0 rows jobs w"
  by (simp_all add: rk_added_def)

lemma rk_any_frame [simp]:
  "rk_any w0 (w\<lparr>jobStatuses := js\<rparr>) = rk_any w0 w"
  "rk_any w0 (w\<lparr>subSectors := ss\<rparr>) = rk_any w0 w"
  by (simp_all add: rk_any_def)

lemma rk_created_any: "rk_created w0 rows w \<Longrightarrow> rk_any w0 w"
  unfolding rk_any_def rk_created_def rk_added_def
  by (intro exI[of _ rows] exI[of _ "[]"]) simp

lemma rk_added_any: "rk_added w0 rows jobs w \<Longrightarrow> rk_any w0 w"
  unfolding rk_any_def by blast

lemma hoare_stockAnalysis_create:
  "hoare (rk_created w0 acc) (stockAnalysis_create i s)
     (\<lambda>row. rk_created w0 (acc @ [row])) (rk_any w0)"
proof -
  have "rk_created w0 (acc @ [\<lparr>sa_id = i, sa_stockId = s, sa_status = ''pending'',
                       sa_rawAnalysis = [], sa_judgeReview = [], sa_insights = None,
                       sa_attemptCount = 1, sa_failureReason = None\<rparr>])
          (w\<lparr>stockAnalyses := stockAnalyses w @ [\<lparr>sa_id = i, sa_stockId = s, sa_status = ''pending'',
                       sa_rawAnalysis = [], sa_judgeReview = [], sa_insights = None,
                       sa_attemptCount = 1, sa_failureReason = None\<rparr>]\<rparr>)"
    if c: "rk_created w0 acc w"
      and n: "\<not> list_ex (\<lambda>a. sa_id a = i \<or> sa_stockId a = s) (stockAnalyses w)" for w
  proof -
    from c have eq: "stockAnalyses w = stockAnalyses w0 @ acc" unfolding rk_created_def by blast
    from n have "\<forall>a \<in> set (stockAnalyses w). sa_id a \<noteq> i"
      by (auto simp: list_ex_iff)
    with eq have fresh: "i \<notin> sa_id ` set (stockAnalyses w0)" "i \<notin> sa_id ` set acc"
      by auto
    from c fresh eq show ?thesis
      unfolding rk_created_def by (simp add: image_iff)
  qed
  then show ?thesis
    by (auto simp: hoare_def stockAnalysis_create_def Let_def rk_created_any)
qed

lemma create_loop:
  "hoare (rk_created w0 acc)
     (mapM_io (\<lambda>(k, (stock, rank)). stockAnalysis_create (newId k) (c_id stock)) xs)
     (\<lambda>rows. rk_created w0 (acc @ rows)) (rk_any w0)"
proof (induction xs arbitrary: acc)
  case Nil
  show ?case by (simp add: hoare_return)
next
  case (Cons x xs)
  obtain k stock rank where x: "x = (k, (stock, rank))" by (cases x) auto
  have step: "hoare (rk_created w0 acc) (stockAnalysis_create (newId k) (c_id stock))
                (\<lambda>row. rk_created w0 (acc @ [row])) (rk_any w0)"
    by (rule hoare_stockAnalysis_create)
  have rest: "hoare (rk_created w0 (acc @ [row]))
      (bind_io (mapM_io (\<lambda>(k, (stock, rank)). stockAnalysis_create (newId k) (c_id stock)) xs)
         (\<lambda>ys. return_io (row # ys)))
      (\<lambda>rows. rk_created w0 (acc @ rows)) (rk_any w0)" for row
    by (rule hoare_bind[OF Cons.IH[of "acc @ [row]"]]) (simp add: hoare_return)
  show ?case
    unfolding x mapM_io.simps prod.case
    by (rule hoare_bind[OF step rest])
qed

lemma mapM_io_adds:
  assumes "\<And>x w. f x w = Inr (g x, w\<lparr>stockAnalysisQueue := stockAnalysisQueue w @ [g x]\<rparr>)"
  shows "mapM_io f xs w
           = Inr (map g xs, w\<lparr>stockAnalysisQueue := stockAnalysisQueue w @ map g xs\<rparr>)"
proof (induction xs arbitrary: w)
  case Nil
  show ?case by (simp add: return_io_def)
next
  case (Cons x xs)
  show ?case
    unfolding mapM_io.simps bind_io_def assms[of x w]
    by (simp add: Cons.IH return_io_def)
qed

lemma add_loop:
  "mapM_io (\<lambda>((stock, rank), analysis).
              stockAnalysisQueue_add ''stock-analysis''
                \<lparr>a_stockId = c_id stock, a_stockAnalysisId = sa_id analysis,
                 a_companyName = c_companyName stock, a_ticker = c_ticker stock,
                 a_subSectorName =
                   (case subSector of
                      None \<Rightarrow> ''Unknown''
                    | Some s \<Rightarrow> if ss_name s = [] then ''Unknown'' else ss_name s),
                 a_attemptNumber = 1\<rparr>
                (Some (''stock-'' @ sa_id analysis @ ''-attempt-1''))
                None (Some rank)) zs w
   = Inr (map (first_job subSector) zs,
          w\<lparr>stockAnalysisQueue := stockAnalysisQueue w @ map (first_job subSector) zs\<rparr>)"
  by (rule mapM_io_adds)
     (simp add: stockAnalysisQueue_add_def Let_def first_job_def split: prod.splits)

lemma first_job_id:
  "a_stockAnalysisId (q_data (first_job subSector (t, analysis))) = sa_id analysis"
  by (cases t) (simp add: first_job_def)

lemma first_jobs_ids:
  "map (\<lambda>j. a_stockAnalysisId (q_data j)) (map (first_job subSector) (zip ts rows))
     = map sa_id (take (length ts) rows)"
proof (induction ts arbitrary: rows)
  case Nil
  show ?case by simp
next
  case (Cons t ts)
  show ?case
  proof (cases rows)
    case Nil
    then show ?thesis by simp
  next
    case (Cons r rs)
    with Cons.IH[of rs] show ?thesis by (simp add: first_job_id)
  qed
qed

lemma rk_added_jobs:
  assumes c: "rk_created w0 rows w"
  shows "rk_added w0 rows (map (first_job subSector) (zip ts rows))
           (w\<lparr>stockAnalysisQueue := stockAnalysisQueue w @ map (first_job subSector) (zip ts rows)\<rparr>)"
proof -
  have ids: "map (\<lambda>j. a_stockAnalysisId (q_data j)) (map (first_job subSector) (zip ts rows))
               = map sa_id (take (length ts) rows)"
    by (rule first_jobs_ids)
  from c have d: "distinct (map sa_id rows)" unfolding rk_created_def by blast
  have d': "distinct (map sa_id (take (length ts) rows))"
    using d by (simp add: take_map[symmetric] distinct_take)
  have sub: "set (map sa_id (take (length ts) rows)) \<subseteq> set (map sa_id rows)"
    by (auto dest: in_set_takeD)
  have fmt: "list_all (\<lambda>j. a_attemptNumber (q_data j) = 1
                   \<and> q_jobId j = Some (''stock-'' @ a_stockAnalysisId (q_data j) @ ''-attempt-1''))
               (map (first_job subSector) zs)" for zs
    by (induction zs) (auto simp: first_job_def)
  from c d' sub fmt[of "zip ts rows"] show ?thesis
    unfolding rk_added_def rk_created_def ids by simp
qed

lemma rk_tracker:
  shows "hoare (rk_created w0 rows) (markJobActive jid p) (\<lambda>_. rk_created w0 rows) (rk_any w0)"
    and "hoare (rk_created w0 rows) (updateJobProgress jid p) (\<lambda>_. rk_created w0 rows) (rk_any w0)"
    and "hoare (rk_added w0 rows jobs) (updateJobProgress jid p) (\<lambda>_. rk_added w0 rows jobs) (rk_any w0)"
    and "hoare (rk_added w0 rows jobs) (markJobCompleted jid) (\<lambda>_. rk_added w0 rows jobs) (rk_any w0)"
    and "hoare (rk_any w0) (markJobFailed jid msg) (\<lambda>_. rk_any w0) (rk_any w0)"
proof -
  show "hoare (rk_created w0 rows) (markJobActive jid p) (\<lambda>_. rk_created w0 rows) (rk_any w0)"
    by (rule hoare_tracker(1)) (auto intro: rk_created_any)
  show "hoare (rk_created w0 rows) (updateJobProgress jid p) (\<lambda>_. rk_created w0 rows) (rk_any w0)"
    by (rule hoare_tracker(2)) (auto intro: rk_created_any)
  show "hoare (rk_added w0 rows jobs) (updateJobProgress jid p) (\<lambda>_. rk_added w0 rows jobs) (rk_any w0)"
    by (rule hoare_tracker(2)) (auto intro: rk_added_any)
  show "hoare (rk_added w0 rows jobs) (markJobCompleted jid) (\<lambda>_. rk_added w0 rows jobs) (rk_any w0)"
    by (rule hoare_tracker(3)) (auto intro: rk_added_any)
  show "hoare (rk_any w0) (markJobFailed jid msg) (\<lambda>_. rk_any w0) (rk_any w0)"
    by (rule hoare_tracker(4)) auto
qed

lemma rk_subSector:
  shows "hoare (rk_created w0 rows) (subSector_update k f) (\<lambda>_. rk_created w0 rows) (rk_any w0)"
    and "hoare (rk_any w0) (subSector_update k f) (\<lambda>_. rk_any w0) (rk_any w0)"
proof -
  show "hoare (rk_created w0 rows) (subSector_update k f) (\<lambda>_. rk_created w0 rows) (rk_any w0)"
    by (rule hoare_subSector_update) (auto intro: rk_created_any)
  show "hoare (rk_any w0) (subSector_update k f) (\<lambda>_. rk_any w0) (rk_any w0)"
    by (rule hoare_subSector_update) auto
qed

lemma rk_stock_step:
  "hoare (rk_created w0 rows)
     (case x of (stock, rank) \<Rightarrow> stock_update (c_id stock) (\<lambda>s. s\<lparr>st_rank := rank\<rparr>))
     (\<lambda>_. rk_created w0 rows) (rk_any w0)"
proof (cases x)
  case (Pair stock rank)
  have "hoare (rk_created w0 rows) (stock_update (c_id stock) (\<lambda>s. s\<lparr>st_rank := rank\<rparr>))
          (\<lambda>_. rk_created w0 rows) (rk_any w0)"
    by (rule hoare_stock_update) (auto intro: rk_created_any)
  then show ?thesis by (simp add: Pair)
qed

lemma rk_stock_loop:
  "hoare (rk_created w0 rows)
     (mapM_io (\<lambda>(stock, rank). stock_update (c_id stock) (\<lambda>s. s\<lparr>st_rank := rank\<rparr>)) xs)
     (\<lambda>_. rk_created w0 rows) (rk_any w0)"
  by (rule hoare_mapM) (rule rk_stock_step)

lemma rk_read:
  "hoare (rk_created w0 rows) (\<lambda>w. Inr (g w, w)) (\<lambda>_. rk_created w0 rows) (rk_any w0)"
  by (simp add: hoare_def)

lemma rk_adds:
  "hoare (rk_created w0 rows)
     (mapM_io (\<lambda>((stock, rank), analysis).
              stockAnalysisQueue_add ''stock-analysis''
                \<lparr>a_stockId = c_id stock, a_stockAnalysisId = sa_id analysis,
                 a_companyName = c_companyName stock, a_ticker = c_ticker stock,
                 a_subSectorName =
                   (case subSector of
                      None \<Rightarrow> ''Unknown''
                    | Some s \<Rightarrow> if ss_name s = [] then ''Unknown'' else ss_name s),
                 a_attemptNumber = 1\<rparr>
                (Some (''stock-'' @ sa_id analysis @ ''-attempt-1''))
                None (Some rank)) (zip ts rows))
     (\<lambda>_. rk_added w0 rows (map (first_job subSector) (zip ts rows))) (rk_any w0)"
  unfolding hoare_def add_loop by (simp add: rk_added_jobs)

lemma rk_create:
  "hoare (rk_created w0 [])
     (mapM_io (\<lambda>(k, (stock, rank)). stockAnalysis_create (newId k) (c_id stock)) xs)
     (rk_created w0) (rk_any w0)"
  using create_loop[of w0 "[]" newId xs] by simp

lemma stockRanking_try_hoare:
  "hoare (rk_created w0 []) (stockRanking_try newId jid d) (\<lambda>_. rk_any w0) (rk_any w0)"
  unfolding stockRanking_try_def
  by (intro hoare_then[OF rk_tracker(1)] hoare_then[OF rk_subSector(1)]
        hoare_then[OF rk_tracker(2)] hoare_then[OF rk_stock_loop] hoare_bind[OF rk_create]
        hoare_bind[OF rk_read] hoare_bind[OF rk_adds] hoare_then[OF rk_tracker(3)]
        hoare_then[OF rk_tracker(4)] hoare_return rk_added_any)

lemma stockRanking_effect:
  "rk_any w0 (snd (processStockRanking newId jid d w0))"
proof -
  have handler: "hoare (rk_any w0)
      (then_io (subSector_update (r_subSectorId d) (\<lambda>s. s\<lparr>ss_status := ''pending''\<rparr>))
         (markJobFailed jid msg)) (\<lambda>_. rk_any w0) (rk_any w0)" for msg
    by (rule hoare_then[OF rk_subSector(2) rk_tracker(5)])
  have init: "rk_created w0 [] w0"
    by (simp add: rk_created_def)
  have "rk_any w0 (snd (processStockRanking newId jid d w0))
      \<or> rk_any w0 (snd (processStockRanking newId jid d w0))"
    unfolding processStockRanking_def
    by (rule hoare_try_catch_world[OF stockRanking_try_hoare], rule handler, rule init)
  then show ?thesis by simp
qed

section \<open>Properties of the pipeline\<close>

lemma take_job_decomp:
  "k < length xs \<Longrightarrow> \<exists>as x bs. xs = as @ x # bs \<and> take_job k xs = as @ bs \<and> x = xs ! k"
  unfolding take_job_def by (metis id_take_nth_drop)

lemma set_take_job: "set (take_job k xs) \<subseteq> set xs"
  unfolding take_job_def by (auto dest: in_set_takeD in_set_dropD)

lemma map_take_job: "map f (take_job k xs) = take_job k (map f xs)"
  unfolding take_job_def by (simp add: take_map drop_map)

lemma take_job_all: "\<not> k < length xs \<Longrightarrow> take_job k xs = xs"
  unfolding take_job_def by simp

lemma distinct_take_job_left:
  assumes "distinct (xs @ ys)"
  shows "distinct (take_job k xs @ ys)"
proof (cases "k < length xs")
  case True
  then obtain as x bs where d: "xs = as @ x # bs" and t: "take_job k xs = as @ bs"
    using take_job_decomp by blast
  from assms show ?thesis unfolding t by (simp add: d)
next
  case False
  with assms show ?thesis by (simp add: take_job_all)
qed

lemma distinct_take_job_right:
  assumes "distinct (xs @ ys)"
  shows "distinct (xs @ take_job k ys)"
proof (cases "k < length ys")
  case True
  then obtain as x bs where d: "ys = as @ x # bs" and t: "take_job k ys = as @ bs"
    using take_job_decomp by blast
  from assms show ?thesis unfolding t by (simp add: d)
next
  case False
  with assms show ?thesis by (simp add: take_job_all)
qed

lemma distinct_left_to_end:
  assumes "k < length xs" and "distinct (xs @ ys)"
  shows "distinct (take_job k xs @ ys @ [xs ! k])"
proof -
  from assms(1) obtain as x bs where d: "xs = as @ x # bs" and t: "take_job k xs = as @ bs"
    and x: "x = xs ! k"
    using take_job_decomp by blast
  from assms(2) show ?thesis unfolding t x[symmetric] by (auto simp: d)
qed

lemma distinct_left_requeue:
  assumes "k < length xs" and "distinct (xs @ ys)"
  shows "distinct ((take_job k xs @ [xs ! k]) @ ys)"
proof -
  from assms(1) obtain as x bs where d: "xs = as @ x # bs" and t: "take_job k xs = as @ bs"
    and x: "x = xs ! k"
    using take_job_decomp by blast
  from assms(2) show ?thesis unfolding t x[symmetric] by (auto simp: d)
qed

lemma distinct_right_to_left:
  assumes "k < length ys" and "distinct (xs @ ys)"
  shows "distinct ((xs @ [ys ! k]) @ take_job k ys)"
proof -
  from assms(1) obtain as x bs where d: "ys = as @ x # bs" and t: "take_job k ys = as @ bs"
    and x: "x = ys ! k"
    using take_job_decomp by blast
  from assms(2) show ?thesis unfolding t x[symmetric] by (auto simp: d)
qed

lemma distinct_right_requeue:
  assumes "k < length ys" and "distinct (xs @ ys)"
  shows "distinct (xs @ take_job k ys @ [ys ! k])"
proof -
  from assms(1) obtain as x bs where d: "ys = as @ x # bs" and t: "take_job k ys = as @ bs"
    and x: "x = ys ! k"
    using take_job_decomp by blast
  from assms(2) show ?thesis unfolding t x[symmetric] by (auto simp: d)
qed

lemma list_all2_setD:
  "list_all2 R as bs \<Longrightarrow> b \<in> set bs \<Longrightarrow> \<exists>a \<in> set as. R a b"
  by (induction rule: list_all2_induct) auto

lemma count_set_ids:
  "list_all2 (count_set x n) as bs \<Longrightarrow> map sa_id bs = map sa_id as"
  by (induction rule: list_all2_induct) (auto simp: count_set_def)

lemma same_count_ids:
  "list_all2 same_count as bs \<Longrightarrow> map sa_id bs = map sa_id as"
  by (induction rule: list_all2_induct) (auto simp: same_count_def)


lemma inv_move:
  assumes inv: "pipeline_inv w"
      and rows: "list_all2 (count_set x n) (stockAnalyses w) (stockAnalyses w')"
      and n: "n \<le> 3"
      and x: "x \<notin> set (map (\<lambda>j. j_stockAnalysisId (q_data j)) (judgeReviewQueue w))"
      and sq: "\<forall>j \<in> set (stockAnalysisQueue w'). a_attemptNumber (q_data j) \<le> 3"
      and jq: "\<forall>j \<in> set (judgeReviewQueue w').
                 j \<in> set (judgeReviewQueue w)
               \<or> (j_attemptNumber (q_data j) = n
                  \<and> (\<forall>b \<in> set (stockAnalyses w').
                        sa_id b = j_stockAnalysisId (q_data j) \<longrightarrow> sa_attemptCount b = n))"
      and d: "distinct (pending_ids w')"
      and e: "set (pending_ids w') \<subseteq> set (pending_ids w)"
  shows "pipeline_inv w'"
proof -
  have ids: "map sa_id (stockAnalyses w') = map sa_id (stockAnalyses w)"
    by (rule count_set_ids[OF rows])
  then have idset: "sa_id ` set (stockAnalyses w') = sa_id ` set (stockAnalyses w)"
    by (metis set_map)
  have src: "\<exists>a \<in> set (stockAnalyses w). count_set x n a b" if "b \<in> set (stockAnalyses w')" for b
    using list_all2_setD[OF rows that] .
  have c1: "\<forall>b \<in> set (stockAnalyses w'). sa_attemptCount b \<le> 3"
  proof
    fix b assume "b \<in> set (stockAnalyses w')"
    from src[OF this] obtain a where a: "a \<in> set (stockAnalyses w)" "count_set x n a b" by blast
    from inv a(1) have "sa_attemptCount a \<le> 3" by (simp add: pipeline_inv_def)
    with a(2) n show "sa_attemptCount b \<le> 3" by (auto simp: count_set_def)
  qed
  have c3: "\<forall>j \<in> set (judgeReviewQueue w').
        j_attemptNumber (q_data j) \<le> 3
      \<and> (\<forall>b \<in> set (stockAnalyses w').
            sa_id b = j_stockAnalysisId (q_data j) \<longrightarrow>
            sa_attemptCount b = j_attemptNumber (q_data j))"
  proof
    fix j assume j: "j \<in> set (judgeReviewQueue w')"
    from jq j consider (old) "j \<in> set (judgeReviewQueue w)"
      | (new) "j_attemptNumber (q_data j) = n"
          "\<forall>b \<in> set (stockAnalyses w').
              sa_id b = j_stockAnalysisId (q_data j) \<longrightarrow> sa_attemptCount b = n"
      by blast
    then show "j_attemptNumber (q_data j) \<le> 3
      \<and> (\<forall>b \<in> set (stockAnalyses w').
            sa_id b = j_stockAnalysisId (q_data j) \<longrightarrow>
            sa_attemptCount b = j_attemptNumber (q_data j))"
    proof cases
      case old
      from inv old have le: "j_attemptNumber (q_data j) \<le> 3"
        and cnt: "\<forall>a \<in> set (stockAnalyses w).
            sa_id a = j_stockAnalysisId (q_data j) \<longrightarrow>
            sa_attemptCount a = j_attemptNumber (q_data j)"
        by (simp_all add: pipeline_inv_def)
      from old x have ne: "j_stockAnalysisId (q_data j) \<noteq> x" by auto
      have "sa_attemptCount b = j_attemptNumber (q_data j)"
        if b: "b \<in> set (stockAnalyses w')" and i: "sa_id b = j_stockAnalysisId (q_data j)" for b
      proof -
        from src[OF b] obtain a where a: "a \<in> set (stockAnalyses w)" "count_set x n a b" by blast
        from a(2) i ne have "sa_id a = j_stockAnalysisId (q_data j)" "sa_attemptCount b = sa_attemptCount a"
          by (auto simp: count_set_def)
        with cnt a(1) show ?thesis by simp
      qed
      with le show ?thesis by blast
    next
      case new
      with n show ?thesis by simp
    qed
  qed
  have c5: "set (pending_ids w') \<subseteq> sa_id ` set (stockAnalyses w')"
    using e inv unfolding idset by (auto simp: pipeline_inv_def)
  from c1 sq c3 d c5 show ?thesis
    unfolding pipeline_inv_def by blast
qed

lemma inv_keep:
  assumes inv: "pipeline_inv w"
      and rows: "list_all2 same_count (stockAnalyses w) (stockAnalyses w')"
      and sq: "\<forall>j \<in> set (stockAnalysisQueue w'). a_attemptNumber (q_data j) \<le> 3"
      and jq: "set (judgeReviewQueue w') \<subseteq> set (judgeReviewQueue w)"
      and d: "distinct (pending_ids w')"
      and e: "set (pending_ids w') \<subseteq> set (pending_ids w)"
  shows "pipeline_inv w'"
proof -
  have ids: "map sa_id (stockAnalyses w') = map sa_id (stockAnalyses w)"
    by (rule same_count_ids[OF rows])
  then have idset: "sa_id ` set (stockAnalyses w') = sa_id ` set (stockAnalyses w)"
    by (metis set_map)
  have src: "\<exists>a \<in> set (stockAnalyses w). same_count a b" if "b \<in> set (stockAnalyses w')" for b
    using list_all2_setD[OF rows that] .
  have c1: "\<forall>b \<in> set (stockAnalyses w'). sa_attemptCount b \<le> 3"
  proof
    fix b assume "b \<in> set (stockAnalyses w')"
    from src[OF this] obtain a where a: "a \<in> set (stockAnalyses w)" "same_count a b" by blast
    from inv a(1) have "sa_attemptCount a \<le> 3" by (simp add: pipeline_inv_def)
    with a(2) show "sa_attemptCount b \<le> 3" by (auto simp: same_count_def)
  qed
  have c3: "\<forall>j \<in> set (judgeReviewQueue w').
        j_attemptNumber (q_data j) \<le> 3
      \<and> (\<forall>b \<in> set (stockAnalyses w').
            sa_id b = j_stockAnalysisId (q_data j) \<longrightarrow>
            sa_attemptCount b = j_attemptNumber (q_data j))"
  proof
    fix j assume j: "j \<in> set (judgeReviewQueue w')"
    with jq have old: "j \<in> set (judgeReviewQueue w)" by blast
    from inv old have le: "j_attemptNumber (q_data j) \<le> 3"
      and cnt: "\<forall>a \<in> set (stockAnalyses w).
          sa_id a = j_stockAnalysisId (q_data j) \<longrightarrow>
          sa_attemptCount a = j_attemptNumber (q_data j)"
      by (simp_all add: pipeline_inv_def)
    have "sa_attemptCount b = j_attemptNumber (q_data j)"
      if b: "b \<in> set (stockAnalyses w')" and i: "sa_id b = j_stockAnalysisId (q_data j)" for b
    proof -
      from src[OF b] obtain a where a: "a \<in> set (stockAnalyses w)" "same_count a b" by blast
      from a(2) i have "sa_id a = j_stockAnalysisId (q_data j)" "sa_attemptCount b = sa_attemptCount a"
        by (auto simp: same_count_def)
      with cnt a(1) show ?thesis by simp
    qed
    with le show "j_attemptNumber (q_data j) \<le> 3
      \<and> (\<forall>b \<in> set (stockAnalyses w').
            sa_id b = j_stockAnalysisId (q_data j) \<longrightarrow>
            sa_attemptCount b = j_attemptNumber (q_data j))" by blast
  qed
  have c5: "set (pending_ids w') \<subseteq> sa_id ` set (stockAnalyses w')"
    using e inv unfolding idset by (auto simp: pipeline_inv_def)
  from c1 sq c3 d c5 show ?thesis
    unfolding pipeline_inv_def by blast
qed

lemma inv_grown:
  assumes inv: "pipeline_inv w" and g: "grown w w'"
  shows "pipeline_inv w'"
proof -
  from g obtain rows jobs where
        r: "stockAnalyses w' = stockAnalyses w @ rows"
    and q: "stockAnalysisQueue w' = stockAnalysisQueue w @ jobs"
    and j: "judgeReviewQueue w' = judgeReviewQueue w"
    and fresh: "\<forall>a \<in> set rows. sa_attemptCount a = 1 \<and> sa_id a \<notin> sa_id ` set (stockAnalyses w)"
    and one: "\<forall>j \<in> set jobs. a_attemptNumber (q_data j) = 1"
    and dj: "distinct (map (\<lambda>j. a_stockAnalysisId (q_data j)) jobs)"
    and sub: "set (map (\<lambda>j. a_stockAnalysisId (q_data j)) jobs) \<subseteq> sa_id ` set rows"
    unfolding grown_def by blast
  from inv have i1: "\<forall>a \<in> set (stockAnalyses w). sa_attemptCount a \<le> 3"
    and i2: "\<forall>j \<in> set (stockAnalysisQueue w). a_attemptNumber (q_data j) \<le> 3"
    and i3: "\<forall>j \<in> set (judgeReviewQueue w).
        j_attemptNumber (q_data j) \<le> 3
      \<and> (\<forall>a \<in> set (stockAnalyses w).
            sa_id a = j_stockAnalysisId (q_data j) \<longrightarrow>
            sa_attemptCount a = j_attemptNumber (q_data j))"
    and i4: "distinct (pending_ids w)"
    and i5: "set (pending_ids w) \<subseteq> sa_id ` set (stockAnalyses w)"
    unfolding pipeline_inv_def by blast+
  have c1: "\<forall>a \<in> set (stockAnalyses w'). sa_attemptCount a \<le> 3"
    unfolding r using i1 fresh by auto
  have c2: "\<forall>j \<in> set (stockAnalysisQueue w'). a_attemptNumber (q_data j) \<le> 3"
    unfolding q using i2 one by auto
  have c3: "\<forall>j \<in> set (judgeReviewQueue w').
        j_attemptNumber (q_data j) \<le> 3
      \<and> (\<forall>a \<in> set (stockAnalyses w').
            sa_id a = j_stockAnalysisId (q_data j) \<longrightarrow>
            sa_attemptCount a = j_attemptNumber (q_data j))"
  proof
    fix jb assume jb: "jb \<in> set (judgeReviewQueue w')"
    then have old: "jb \<in> set (judgeReviewQueue w)" by (simp add: j)
    then have "j_stockAnalysisId (q_data jb) \<in> set (pending_ids w)"
      by (auto simp: pending_ids_def)
    with i5 have known: "j_stockAnalysisId (q_data jb) \<in> sa_id ` set (stockAnalyses w)" by blast
    from i3 old have le: "j_attemptNumber (q_data jb) \<le> 3"
      and cnt: "\<forall>a \<in> set (stockAnalyses w).
            sa_id a = j_stockAnalysisId (q_data jb) \<longrightarrow>
            sa_attemptCount a = j_attemptNumber (q_data jb)"
      by blast+
    have "sa_attemptCount a = j_attemptNumber (q_data jb)"
      if a: "a \<in> set (stockAnalyses w')" and i: "sa_id a = j_stockAnalysisId (q_data jb)" for a
    proof (cases "a \<in> set (stockAnalyses w)")
      case True
      with cnt i show ?thesis by blast
    next
      case False
      with a r have "a \<in> set rows" by simp
      with fresh have "sa_id a \<notin> sa_id ` set (stockAnalyses w)" by blast
      with known i show ?thesis by simp
    qed
    with le show "j_attemptNumber (q_data jb) \<le> 3
      \<and> (\<forall>a \<in> set (stockAnalyses w').
            sa_id a = j_stockAnalysisId (q_data jb) \<longrightarrow>
            sa_attemptCount a = j_attemptNumber (q_data jb))" by blast
  qed
  have newfresh: "set (map (\<lambda>j. a_stockAnalysisId (q_data j)) jobs) \<inter> set (pending_ids w) = {}"
    using sub fresh i5 by blast
  have c4: "distinct (pending_ids w')"
    using i4 dj newfresh unfolding pending_ids_def q j by auto
  have c5: "set (pending_ids w') \<subseteq> sa_id ` set (stockAnalyses w')"
    using i5 sub unfolding pending_ids_def q j r by auto
  from c1 c2 c3 c4 c5 show ?thesis
    unfolding pipeline_inv_def by blast
qed

lemma rk_any_grown:
  assumes "rk_any w0 w"
  shows "grown w0 w"
proof -
  from assms obtain rows jobs where a: "rk_added w0 rows jobs w"
    unfolding rk_any_def by blast
  then have "stockAnalyses w = stockAnalyses w0 @ rows
      \<and> stockAnalysisQueue w = stockAnalysisQueue w0 @ jobs
      \<and> judgeReviewQueue w = judgeReviewQueue w0
      \<and> (\<forall>a \<in> set rows. sa_attemptCount a = 1 \<and> sa_id a \<notin> sa_id ` set (stockAnalyses w0))
      \<and> (\<forall>j \<in> set jobs. a_attemptNumber (q_data j) = 1)
      \<and> distinct (map (\<lambda>j. a_stockAnalysisId (q_data j)) jobs)
      \<and> set (map (\<lambda>j. a_stockAnalysisId (q_data j)) jobs) \<subseteq> sa_id ` set rows"
    unfolding rk_added_def by (auto simp: list_all_iff)
  then show ?thesis unfolding grown_def by blast
qed

lemma inv_frame [simp]:
  "pipeline_inv (w\<lparr>jobStatuses := js\<rparr>) = pipeline_inv w"
  "pipeline_inv (w\<lparr>stocks := st\<rparr>) = pipeline_inv w"
  "pipeline_inv (w\<lparr>subSectors := ss\<rparr>) = pipeline_inv w"
  "pipeline_inv (w\<lparr>formatInsightsQueue := fq\<rparr>) = pipeline_inv w"
  by (simp_all add: pipeline_inv_def pending_ids_def)

lemma inv_rank:
  "pipeline_inv w \<Longrightarrow> pipeline_inv (step (Rank newId jid d) w)"
  using inv_grown[OF _ rk_any_grown[OF stockRanking_effect]] by simp

lemma grown_refl: "grown w w"
  unfolding grown_def by (intro exI[of _ "[]"]) simp

lemma grownI:
  assumes "stockAnalyses w' = stockAnalyses w @ [row]"
      and "stockAnalysisQueue w' = stockAnalysisQueue w @ [job]"
      and "judgeReviewQueue w' = judgeReviewQueue w"
      and "sa_attemptCount row = 1"
      and "sa_id row \<notin> sa_id ` set (stockAnalyses w)"
      and "a_attemptNumber (q_data job) = 1"
      and "a_stockAnalysisId (q_data job) = sa_id row"
  shows "grown w w'"
  unfolding grown_def
  by (intro exI[of _ "[row]"] exI[of _ "[job]"]) (use assms in simp)

lemma startAnalysis_grown:
  "grown w (step (Start newId assigned stock subSectorName) w)"
proof (cases "list_ex (\<lambda>a. sa_id a = newId \<or> sa_stockId a = st_id stock) (stockAnalyses w)")
  case True
  then have "step (Start newId assigned stock subSectorName) w = w"
    by (simp add: startAnalysis_def bind_io_def stockAnalysis_create_def)
  then show ?thesis by (simp add: grown_refl)
next
  case False
  define row where "row = \<lparr>sa_id = newId, sa_stockId = st_id stock, sa_status = ''pending'',
                       sa_rawAnalysis = [], sa_judgeReview = [], sa_insights = None,
                       sa_attemptCount = 1, sa_failureReason = None\<rparr>"
  define job :: "StockAnalysisJobData queued" where "job = \<lparr>q_name = ''stock-analysis'',
       q_data = \<lparr>a_stockId = st_id stock, a_stockAnalysisId = newId,
                 a_companyName = st_companyName stock,
                 a_ticker = (case st_ticker stock of
                               None \<Rightarrow> None
                             | Some t \<Rightarrow> if t = [] then None else Some t),
                 a_subSectorName = subSectorName, a_attemptNumber = 1\<rparr>,
       q_jobId = None, q_delay = None, q_priority = None\<rparr>"
  from False have fresh: "newId \<notin> sa_id ` set (stockAnalyses w)"
    by (auto simp: list_ex_iff)
  show ?thesis
    by (rule grownI[where row=row and job=job])
       (use False fresh in \<open>simp_all add: startAnalysis_def bind_io_def stockAnalysis_create_def
          stockAnalysisQueue_add_def createJobStatus_def Let_def row_def job_def\<close>)
qed

lemma grown_row:
  assumes "stockAnalyses w' = stockAnalyses w @ [row]"
      and "stockAnalysisQueue w' = stockAnalysisQueue w"
      and "judgeReviewQueue w' = judgeReviewQueue w"
      and "sa_attemptCount row = 1"
      and "sa_id row \<notin> sa_id ` set (stockAnalyses w)"
  shows "grown w w'"
  unfolding grown_def
  by (intro exI[of _ "[row]"] exI[of _ "[]"]) (use assms in simp)

lemma reanalyze_grown:
  "grown w (snd (reanalyze newId assigned stockId w))"
proof (cases "findUnique st_id stockId (stocks w)")
  case None
  then show ?thesis by (simp add: reanalyze_def grown_refl)
next
  case stock: (Some stock)
  show ?thesis
  proof (cases "deepAnalysis stock w")
    case (Some existing)
    with stock show ?thesis by (simp add: reanalyze_def grown_refl)
  next
    case noan: None
    show ?thesis
    proof (cases "list_ex (\<lambda>a. sa_id a = newId \<or> sa_stockId a = stockId) (stockAnalyses w)")
      case True
      with stock noan show ?thesis
        by (simp add: reanalyze_def bind_io_def stockAnalysis_create_def grown_refl)
    next
      case False
      define row where "row = \<lparr>sa_id = newId, sa_stockId = stockId, sa_status = ''pending'',
                       sa_rawAnalysis = [], sa_judgeReview = [], sa_insights = None,
                       sa_attemptCount = 1, sa_failureReason = None\<rparr>"
      from False have fresh: "newId \<notin> sa_id ` set (stockAnalyses w)"
        by (auto simp: list_ex_iff)
      show ?thesis
      proof (cases "findUnique ss_id (st_subSectorId stock) (subSectors w)")
        case None
        show ?thesis
          by (rule grown_row[where row=row])
             (use stock noan False None fresh in \<open>simp_all add: reanalyze_def bind_io_def
                stockAnalysis_create_def Let_def row_def\<close>)
      next
        case (Some subSector)
        define job :: "StockAnalysisJobData queued" where "job = \<lparr>q_name = ''stock-analysis'',
           q_data = \<lparr>a_stockId = stockId, a_stockAnalysisId = newId,
                     a_companyName = st_companyName stock,
                     a_ticker = (case st_ticker stock of
                                   None \<Rightarrow> None
                                 | Some t \<Rightarrow> if t = [] then None else Some t),
                     a_subSectorName = ss_name subSector, a_attemptNumber = 1\<rparr>,
           q_jobId = None, q_delay = None, q_priority = None\<rparr>"
        show ?thesis
          by (rule grownI[where row=row and job=job])
             (use stock noan False Some fresh in \<open>simp_all add: reanalyze_def bind_io_def
                then_io_def return_io_def stockAnalysis_create_def stockAnalysisQueue_add_def
                createJobStatus_def Let_def row_def job_def\<close>)
      qed
    qed
  qed
qed

lemma inv_reanalyze:
  "pipeline_inv w \<Longrightarrow> pipeline_inv (step (Reanalyze newId assigned stockId) w)"
  using inv_grown[OF _ reanalyze_grown] by simp

lemma inv_start:
  "pipeline_inv w \<Longrightarrow> pipeline_inv (step (Start newId assigned stock subSectorName) w)"
  by (rule inv_grown[OF _ startAnalysis_grown])


lemma inv_analyse:
  assumes inv: "pipeline_inv w"
  shows "pipeline_inv (step (Analyse k assigned again) w)"
proof (cases "k < length (stockAnalysisQueue w)")
  case False
  with inv show ?thesis by simp
next
  case True
  define job where "job = stockAnalysisQueue w ! k"
  define d where "d = q_data job"
  define w1 where "w1 = w\<lparr>stockAnalysisQueue := take_job k (stockAnalysisQueue w)\<rparr>"
  define r where "r = processStockAnalysis (job_id assigned job) d w1"
  define w2 where "w2 = snd r"
  let ?aid = "\<lambda>j. a_stockAnalysisId (q_data j)"
  let ?jid = "\<lambda>j. j_stockAnalysisId (q_data j)"
  have run: "run_analysis k assigned w = (fst r, w2)"
    by (simp add: run_analysis_def r_def w1_def d_def job_def Let_def w2_def)
  have w1: "stockAnalyses w1 = stockAnalyses w" "judgeReviewQueue w1 = judgeReviewQueue w"
    "stockAnalysisQueue w1 = take_job k (stockAnalysisQueue w)"
    by (simp_all add: w1_def)
  have jobin: "job \<in> set (stockAnalysisQueue w)"
    using True by (simp add: job_def)
  from inv have i2: "\<forall>j \<in> set (stockAnalysisQueue w). a_attemptNumber (q_data j) \<le> 3"
    and dist: "distinct (pending_ids w)"
    unfolding pipeline_inv_def by blast+
  from i2 jobin have n3: "a_attemptNumber d \<le> 3"
    by (simp add: d_def)
  have xk: "a_stockAnalysisId d = map ?aid (stockAnalysisQueue w) ! k"
    using True by (simp add: d_def job_def)
  have xin: "a_stockAnalysisId d \<in> set (map ?aid (stockAnalysisQueue w))"
    using jobin by (auto simp: d_def)
  have xnj: "a_stockAnalysisId d \<notin> set (map ?jid (judgeReviewQueue w))"
    using dist xin unfolding pending_ids_def by auto
  have len: "k < length (map ?aid (stockAnalysisQueue w))"
    using True by simp
  have d0: "distinct (map ?aid (stockAnalysisQueue w) @ map ?jid (judgeReviewQueue w))"
    using dist by (simp add: pending_ids_def)
  have old3: "\<forall>j \<in> set (take_job k (stockAnalysisQueue w)). a_attemptNumber (q_data j) \<le> 3"
    using i2 set_take_job[of k "stockAnalysisQueue w"] by blast
  have eff: "case fst r of Inr res \<Rightarrow> sa_after w1 d w2 | Inl e \<Rightarrow> sa_before w1 d w2"
    unfolding w2_def r_def by (rule stockAnalysis_effect)
  show ?thesis
  proof (cases "fst r")
    case (Inr res)
    with eff have a: "sa_after w1 d w2" by simp
    have st: "step (Analyse k assigned again) w = w2"
      using True run Inr by simp
    from a have rows: "list_all2 (count_set (a_stockAnalysisId d) (a_attemptNumber d))
                         (stockAnalyses w) (stockAnalyses w2)"
      and sq: "stockAnalysisQueue w2 = take_job k (stockAnalysisQueue w)"
      and jq: "judgeReviewQueue w2 = judgeReviewQueue w @ [judge_job d]"
      and cnt: "sa_count d w2"
      by (simp_all add: sa_after_def sa_rows_def w1)
    have jd: "j_stockAnalysisId (q_data (judge_job d)) = a_stockAnalysisId d"
      "j_attemptNumber (q_data (judge_job d)) = a_attemptNumber d"
      by (simp_all add: judge_job_def)
    have p: "pending_ids w2 = take_job k (map ?aid (stockAnalysisQueue w))
               @ map ?jid (judgeReviewQueue w) @ [map ?aid (stockAnalysisQueue w) ! k]"
      by (simp add: pending_ids_def sq jq map_take_job jd xk)
    have dd: "distinct (pending_ids w2)"
      unfolding p by (rule distinct_left_to_end[OF len d0])
    have ee: "set (pending_ids w2) \<subseteq> set (pending_ids w)"
      unfolding p using set_take_job[of k "map ?aid (stockAnalysisQueue w)"] len
      by (auto simp: pending_ids_def)
    have j': "\<forall>j \<in> set (judgeReviewQueue w2).
                 j \<in> set (judgeReviewQueue w)
               \<or> (j_attemptNumber (q_data j) = a_attemptNumber d
                  \<and> (\<forall>b \<in> set (stockAnalyses w2).
                        sa_id b = j_stockAnalysisId (q_data j) \<longrightarrow>
                        sa_attemptCount b = a_attemptNumber d))"
      using cnt by (auto simp: jq jd sa_count_def)
    show ?thesis
      unfolding st
      by (rule inv_move[OF inv rows n3 xnj _ j' dd ee]) (simp add: sq old3)
  next
    case (Inl e)
    with eff have a: "sa_before w1 d w2" by simp
    from a have rows: "list_all2 (count_set (a_stockAnalysisId d) (a_attemptNumber d))
                         (stockAnalyses w) (stockAnalyses w2)"
      and sq: "stockAnalysisQueue w2 = take_job k (stockAnalysisQueue w)"
      and jq: "judgeReviewQueue w2 = judgeReviewQueue w"
      by (simp_all add: sa_before_def sa_rows_def w1)
    have j': "\<forall>j \<in> set (judgeReviewQueue w').
                 j \<in> set (judgeReviewQueue w)
               \<or> (j_attemptNumber (q_data j) = a_attemptNumber d
                  \<and> (\<forall>b \<in> set (stockAnalyses w').
                        sa_id b = j_stockAnalysisId (q_data j) \<longrightarrow>
                        sa_attemptCount b = a_attemptNumber d))"
      if "judgeReviewQueue w' = judgeReviewQueue w" for w'
      using that by simp
    show ?thesis
    proof (cases again)
      case False
      have st: "step (Analyse k assigned again) w = w2"
        using True run Inl False by simp
      have p: "pending_ids w2 = take_job k (map ?aid (stockAnalysisQueue w))
               @ map ?jid (judgeReviewQueue w)"
        by (simp add: pending_ids_def sq jq map_take_job)
      have dd: "distinct (pending_ids w2)"
        unfolding p by (rule distinct_take_job_left[OF d0])
      have ee: "set (pending_ids w2) \<subseteq> set (pending_ids w)"
        unfolding p using set_take_job[of k "map ?aid (stockAnalysisQueue w)"]
        by (auto simp: pending_ids_def)
      show ?thesis
        unfolding st
        by (rule inv_move[OF inv rows n3 xnj _ j'[OF jq] dd ee]) (simp add: sq old3)
    next
      case again: True
      define w3 where "w3 = w2\<lparr>stockAnalysisQueue := stockAnalysisQueue w2 @ [job]\<rparr>"
      have st: "step (Analyse k assigned again) w = w3"
        using True run Inl again by (simp add: w3_def job_def)
      have w3: "stockAnalyses w3 = stockAnalyses w2" "judgeReviewQueue w3 = judgeReviewQueue w"
        "stockAnalysisQueue w3 = take_job k (stockAnalysisQueue w) @ [job]"
        by (simp_all add: w3_def sq jq)
      have p: "pending_ids w3 = (take_job k (map ?aid (stockAnalysisQueue w))
               @ [map ?aid (stockAnalysisQueue w) ! k]) @ map ?jid (judgeReviewQueue w)"
        using True by (simp add: pending_ids_def w3 map_take_job job_def)
      have dd: "distinct (pending_ids w3)"
        unfolding p by (rule distinct_left_requeue[OF len d0])
      have ee: "set (pending_ids w3) \<subseteq> set (pending_ids w)"
        unfolding p using set_take_job[of k "map ?aid (stockAnalysisQueue w)"] len
        by (auto simp: pending_ids_def)
      have sq3: "\<forall>j \<in> set (stockAnalysisQueue w3). a_attemptNumber (q_data j) \<le> 3"
        using old3 i2 jobin by (simp add: w3)
      have rows3: "list_all2 (count_set (a_stockAnalysisId d) (a_attemptNumber d))
                         (stockAnalyses w) (stockAnalyses w3)"
        using rows by (simp add: w3)
      show ?thesis
        unfolding st
        by (rule inv_move[OF inv rows3 n3 xnj sq3 j'[OF w3(2)] dd ee])
    qed
  qed
qed


lemma inv_judge:
  assumes inv: "pipeline_inv w"
  shows "pipeline_inv (step (Judge k assigned mockApproved again) w)"
proof (cases "k < length (judgeReviewQueue w)")
  case False
  with inv show ?thesis by simp
next
  case True
  define job where "job = judgeReviewQueue w ! k"
  define d where "d = q_data job"
  define w1 where "w1 = w\<lparr>judgeReviewQueue := take_job k (judgeReviewQueue w)\<rparr>"
  define r where "r = processJudgeReview mockApproved (job_id assigned job) d w1"
  define w2 where "w2 = snd r"
  let ?aid = "\<lambda>j. a_stockAnalysisId (q_data j)"
  let ?jid = "\<lambda>j. j_stockAnalysisId (q_data j)"
  have run: "run_judge k assigned mockApproved w = (fst r, w2)"
    by (simp add: run_judge_def r_def w1_def d_def job_def Let_def w2_def)
  have w1: "stockAnalyses w1 = stockAnalyses w" "stockAnalysisQueue w1 = stockAnalysisQueue w"
    "judgeReviewQueue w1 = take_job k (judgeReviewQueue w)"
    by (simp_all add: w1_def)
  have jobin: "job \<in> set (judgeReviewQueue w)"
    using True by (simp add: job_def)
  from inv have i2: "\<forall>j \<in> set (stockAnalysisQueue w). a_attemptNumber (q_data j) \<le> 3"
    and dist: "distinct (pending_ids w)"
    unfolding pipeline_inv_def by blast+
  have xk: "j_stockAnalysisId d = map ?jid (judgeReviewQueue w) ! k"
    using True by (simp add: d_def job_def)
  have len: "k < length (map ?jid (judgeReviewQueue w))"
    using True by simp
  have d0: "distinct (map ?aid (stockAnalysisQueue w) @ map ?jid (judgeReviewQueue w))"
    using dist by (simp add: pending_ids_def)
  have sub: "set (take_job k (judgeReviewQueue w)) \<subseteq> set (judgeReviewQueue w)"
    by (rule set_take_job)
  have eff: "case fst r of Inr res \<Rightarrow> jr_post w1 mockApproved d res w2 | Inl e \<Rightarrow> jr_before w1 w2"
    unfolding w2_def r_def by (rule judgeReview_effect)
  have kept: "pipeline_inv w'"
    if rows: "list_all2 same_count (stockAnalyses w) (stockAnalyses w')"
      and sq: "stockAnalysisQueue w' = stockAnalysisQueue w"
      and jq: "judgeReviewQueue w' = take_job k (judgeReviewQueue w)" for w'
  proof -
    have p: "pending_ids w' = map ?aid (stockAnalysisQueue w)
               @ take_job k (map ?jid (judgeReviewQueue w))"
      by (simp add: pending_ids_def sq jq map_take_job)
    have dd: "distinct (pending_ids w')"
      unfolding p by (rule distinct_take_job_right[OF d0])
    have ee: "set (pending_ids w') \<subseteq> set (pending_ids w)"
      unfolding p using set_take_job[of k "map ?jid (judgeReviewQueue w)"]
      by (auto simp: pending_ids_def)
    show ?thesis
      by (rule inv_keep[OF inv rows _ _ dd ee]) (simp_all add: sq jq i2 sub)
  qed
  show ?thesis
  proof (cases "fst r")
    case (Inr res)
    with eff have post: "jr_post w1 mockApproved d res w2" by simp
    have st: "step (Judge k assigned mockApproved again) w = w2"
      using True run Inr by simp
    show ?thesis
    proof (cases res)
      case (Approved i)
      with post have "jr_format w1 mockApproved d w2" by (simp add: jr_post_def)
      then have "list_all2 same_count (stockAnalyses w) (stockAnalyses w2)"
        "stockAnalysisQueue w2 = stockAnalysisQueue w"
        "judgeReviewQueue w2 = take_job k (judgeReviewQueue w)"
        by (simp_all add: jr_format_def jr_rows_def w1)
      then show ?thesis unfolding st by (rule kept)
    next
      case MaxRetriesExceeded
      with post have "jr_failed w1 mockApproved d w2" by (simp add: jr_post_def)
      then have "list_all2 same_count (stockAnalyses w) (stockAnalyses w2)"
        "stockAnalysisQueue w2 = stockAnalysisQueue w"
        "judgeReviewQueue w2 = take_job k (judgeReviewQueue w)"
        by (simp_all add: jr_failed_def jr_before_def jr_rows_def w1)
      then show ?thesis unfolding st by (rule kept)
    next
      case (RetryQueued i)
      with post have "jr_retry w1 mockApproved d w2" by (simp add: jr_post_def)
      then have rows: "list_all2 same_count (stockAnalyses w) (stockAnalyses w2)"
        and sq: "stockAnalysisQueue w2 = stockAnalysisQueue w @ [retry_job d]"
        and jq: "judgeReviewQueue w2 = take_job k (judgeReviewQueue w)"
        and n: "j_attemptNumber d < 3"
        by (simp_all add: jr_retry_def jr_rows_def w1)
      have rd: "a_stockAnalysisId (q_data (retry_job d)) = j_stockAnalysisId d"
        "a_attemptNumber (q_data (retry_job d)) = j_attemptNumber d + 1"
        by (simp_all add: retry_job_def)
      have p: "pending_ids w2 = (map ?aid (stockAnalysisQueue w) @ [map ?jid (judgeReviewQueue w) ! k])
               @ take_job k (map ?jid (judgeReviewQueue w))"
        by (simp add: pending_ids_def sq jq map_take_job rd xk)
      have dd: "distinct (pending_ids w2)"
        unfolding p by (rule distinct_right_to_left[OF len d0])
      have ee: "set (pending_ids w2) \<subseteq> set (pending_ids w)"
        unfolding p using set_take_job[of k "map ?jid (judgeReviewQueue w)"] len
        by (auto simp: pending_ids_def)
      have sq3: "\<forall>j \<in> set (stockAnalysisQueue w2). a_attemptNumber (q_data j) \<le> 3"
        using i2 n by (simp add: sq rd)
      show ?thesis
        unfolding st
        by (rule inv_keep[OF inv rows sq3 _ dd ee]) (simp add: jq sub)
    qed
  next
    case (Inl e)
    with eff have "jr_before w1 w2" by simp
    then have rows: "list_all2 same_count (stockAnalyses w) (stockAnalyses w2)"
      and sq: "stockAnalysisQueue w2 = stockAnalysisQueue w"
      and jq: "judgeReviewQueue w2 = take_job k (judgeReviewQueue w)"
      by (simp_all add: jr_before_def jr_rows_def w1)
    show ?thesis
    proof (cases again)
      case False
      have st: "step (Judge k assigned mockApproved again) w = w2"
        using True run Inl False by simp
      show ?thesis unfolding st by (rule kept[OF rows sq jq])
    next
      case again: True
      define w3 where "w3 = w2\<lparr>judgeReviewQueue := judgeReviewQueue w2 @ [job]\<rparr>"
      have st: "step (Judge k assigned mockApproved again) w = w3"
        using True run Inl again by (simp add: w3_def job_def)
      have w3: "stockAnalyses w3 = stockAnalyses w2" "stockAnalysisQueue w3 = stockAnalysisQueue w"
        "judgeReviewQueue w3 = take_job k (judgeReviewQueue w) @ [job]"
        by (simp_all add: w3_def sq jq)
      have p: "pending_ids w3 = map ?aid (stockAnalysisQueue w)
               @ take_job k (map ?jid (judgeReviewQueue w)) @ [map ?jid (judgeReviewQueue w) ! k]"
        using True by (simp add: pending_ids_def w3 map_take_job job_def)
      have dd: "distinct (pending_ids w3)"
        unfolding p by (rule distinct_right_requeue[OF len d0])
      have ee: "set (pending_ids w3) \<subseteq> set (pending_ids w)"
        unfolding p using set_take_job[of k "map ?jid (judgeReviewQueue w)"] len
        by (auto simp: pending_ids_def)
      have rows3: "list_all2 same_count (stockAnalyses w) (stockAnalyses w3)"
        using rows by (simp add: w3)
      show ?thesis
        unfolding st
        by (rule inv_keep[OF inv rows3 _ _ dd ee]) (use sub jobin in \<open>auto simp: w3 i2\<close>)
    qed
  qed
qed

lemma inv_format:
  assumes inv: "pipeline_inv w"
  shows "pipeline_inv (step (Format k assigned again) w)"
proof (cases "k < length (formatInsightsQueue w)")
  case False
  with inv show ?thesis by simp
next
  case True
  define job where "job = formatInsightsQueue w ! k"
  define w1 where "w1 = w\<lparr>formatInsightsQueue := take_job k (formatInsightsQueue w)\<rparr>"
  define r where "r = processFormatInsights (job_id assigned job) (q_data job) w1"
  define w2 where "w2 = snd r"
  have run: "run_format k assigned w = (fst r, w2)"
    by (simp add: run_format_def r_def w1_def job_def Let_def w2_def)
  have w1: "stockAnalyses w1 = stockAnalyses w" "stockAnalysisQueue w1 = stockAnalysisQueue w"
    "judgeReviewQueue w1 = judgeReviewQueue w"
    by (simp_all add: w1_def)
  have "fi_keep w1 w2"
    unfolding w2_def r_def by (rule formatInsights_effect)
  then have rows: "list_all2 same_count (stockAnalyses w) (stockAnalyses w2)"
    and sq: "stockAnalysisQueue w2 = stockAnalysisQueue w"
    and jq: "judgeReviewQueue w2 = judgeReviewQueue w"
    by (simp_all add: fi_keep_def jr_rows_def w1)
  from inv have i2: "\<forall>j \<in> set (stockAnalysisQueue w). a_attemptNumber (q_data j) \<le> 3"
    and dist: "distinct (pending_ids w)"
    unfolding pipeline_inv_def by blast+
  have p: "pending_ids w2 = pending_ids w"
    by (simp add: pending_ids_def sq jq)
  have i: "pipeline_inv w2"
    by (rule inv_keep[OF inv rows]) (simp_all add: sq jq i2 p dist)
  have "step (Format k assigned again) w = w2
      \<or> step (Format k assigned again) w
          = w2\<lparr>formatInsightsQueue := formatInsightsQueue w2 @ [formatInsightsQueue w ! k]\<rparr>"
    using True run by (cases "fst r") simp_all
  then show ?thesis
  proof
    assume e: "step (Format k assigned again) w = w2"
    show ?thesis unfolding e by (rule i)
  next
    assume e: "step (Format k assigned again) w
          = w2\<lparr>formatInsightsQueue := formatInsightsQueue w2 @ [formatInsightsQueue w ! k]\<rparr>"
    show ?thesis unfolding e using i by (simp only: inv_frame)
  qed
qed

lemma inv_step: "pipeline_inv w \<Longrightarrow> pipeline_inv (step e w)"
proof (cases e)
  case (Catalogue st ss)
  assume "pipeline_inv w"
  with Catalogue show ?thesis by simp
next
  case (Tracked js)
  assume "pipeline_inv w"
  with Tracked show ?thesis by simp
next
  case (Rank newId jid d)
  assume "pipeline_inv w"
  then show ?thesis unfolding Rank by (rule inv_rank)
next
  case (Reanalyze newId assigned stockId)
  assume "pipeline_inv w"
  then show ?thesis unfolding Reanalyze by (rule inv_reanalyze)
next
  case (Start newId assigned stock name)
  assume "pipeline_inv w"
  then show ?thesis unfolding Start by (rule inv_start)
next
  case (Analyse k assigned again)
  assume "pipeline_inv w"
  then show ?thesis unfolding Analyse by (rule inv_analyse)
next
  case (Judge k assigned b again)
  assume "pipeline_inv w"
  then show ?thesis unfolding Judge by (rule inv_judge)
next
  case (Format k assigned again)
  assume "pipeline_inv w"
  then show ?thesis unfolding Format by (rule inv_format)
qed

lemma inv_foldl:
  "pipeline_inv w \<Longrightarrow> pipeline_inv (foldl (\<lambda>w e. step e w) w es)"
  by (induction es arbitrary: w) (simp_all add: inv_step)

lemma inv_pipeline: "pipeline_inv (pipeline es)"
  unfolding pipeline_def
  by (rule inv_foldl) (simp add: pipeline_inv_def pending_ids_def empty_world_def)

text \<open>
  Claim C3. Take any state the pipeline reaches from the empty store, by any sequence of
  events: analyses started by the routes, runs of the ranking worker, runs of the
  stock-analysis, judge-review and format-insights workers on waiting jobs in any order
  and with any verdicts, rejected runs repeated or not, and any contents of the stock,
  sub-sector and tracker tables (worker runs are taken one at a time). In such a state
  every StockAnalysis has an attempt count of at most 3. And whenever the judge-review
  worker, run on a waiting job, ends in its max-retries branch, the job's attempt number
  is 3, the StockAnalysis it names exists, and after the run that StockAnalysis has
  status \<open>review_failed\<close> and attempt count exactly 3.
\<close>

theorem attemptCount_bounded:
  "(\<forall>a \<in> set (stockAnalyses (pipeline es)). sa_attemptCount a \<le> 3)
 \<and> (k < length (judgeReviewQueue (pipeline es))
      \<and> fst (run_judge k assigned mockApproved (pipeline es)) = Inr MaxRetriesExceeded \<longrightarrow>
      j_attemptNumber (q_data (judgeReviewQueue (pipeline es) ! k)) = 3
    \<and> j_stockAnalysisId (q_data (judgeReviewQueue (pipeline es) ! k))
        \<in> sa_id ` set (stockAnalyses (snd (run_judge k assigned mockApproved (pipeline es))))
    \<and> (\<forall>a \<in> set (stockAnalyses (snd (run_judge k assigned mockApproved (pipeline es)))).
          sa_id a = j_stockAnalysisId (q_data (judgeReviewQueue (pipeline es) ! k)) \<longrightarrow>
          sa_status a = ''review_failed'' \<and> sa_attemptCount a = 3))"
proof -
  define w where "w = pipeline es"
  have inv: "pipeline_inv w" unfolding w_def by (rule inv_pipeline)
  then have bound: "\<forall>a \<in> set (stockAnalyses w). sa_attemptCount a \<le> 3"
    by (simp add: pipeline_inv_def)
  have branch: "j_attemptNumber (q_data (judgeReviewQueue w ! k)) = 3
    \<and> j_stockAnalysisId (q_data (judgeReviewQueue w ! k))
        \<in> sa_id ` set (stockAnalyses (snd (run_judge k assigned mockApproved w)))
    \<and> (\<forall>a \<in> set (stockAnalyses (snd (run_judge k assigned mockApproved w))).
          sa_id a = j_stockAnalysisId (q_data (judgeReviewQueue w ! k)) \<longrightarrow>
          sa_status a = ''review_failed'' \<and> sa_attemptCount a = 3)"
    if k: "k < length (judgeReviewQueue w)"
      and res: "fst (run_judge k assigned mockApproved w) = Inr MaxRetriesExceeded"
  proof -
    define job where "job = judgeReviewQueue w ! k"
    define d where "d = q_data job"
    define w1 where "w1 = w\<lparr>judgeReviewQueue := take_job k (judgeReviewQueue w)\<rparr>"
    define r where "r = processJudgeReview mockApproved (job_id assigned job) d w1"
    define w2 where "w2 = snd r"
    have run: "run_judge k assigned mockApproved w = r"
      by (simp add: run_judge_def r_def w1_def d_def job_def Let_def)
    have jobin: "job \<in> set (judgeReviewQueue w)"
      using k by (simp add: job_def)
    from inv jobin have le: "j_attemptNumber d \<le> 3"
      and cnt: "\<forall>a \<in> set (stockAnalyses w).
            sa_id a = j_stockAnalysisId d \<longrightarrow> sa_attemptCount a = j_attemptNumber d"
      by (simp_all add: pipeline_inv_def d_def)
    from inv jobin have known: "j_stockAnalysisId d \<in> sa_id ` set (stockAnalyses w)"
      by (auto simp: pipeline_inv_def pending_ids_def d_def)
    have eff: "case fst r of Inr res \<Rightarrow> jr_post w1 mockApproved d res w2 | Inl e \<Rightarrow> jr_before w1 w2"
      unfolding w2_def r_def by (rule judgeReview_effect)
    from res run have "fst r = Inr MaxRetriesExceeded" by simp
    with eff have "jr_failed w1 mockApproved d w2" by (simp add: jr_post_def)
    then have ge: "3 \<le> j_attemptNumber d"
      and rows: "list_all2 same_count (stockAnalyses w) (stockAnalyses w2)"
      and failed: "\<forall>a \<in> set (stockAnalyses w2).
            sa_id a = j_stockAnalysisId d \<longrightarrow> sa_status a = ''review_failed''"
      by (simp_all add: jr_failed_def jr_before_def jr_rows_def w1_def)
    from le ge have n: "j_attemptNumber d = 3" by simp
    have ids: "sa_id ` set (stockAnalyses w2) = sa_id ` set (stockAnalyses w)"
      using same_count_ids[OF rows] by (metis set_map)
    have three: "sa_attemptCount a = 3"
      if a: "a \<in> set (stockAnalyses w2)" and i: "sa_id a = j_stockAnalysisId d" for a
    proof -
      from list_all2_setD[OF rows a] obtain a0
        where a0: "a0 \<in> set (stockAnalyses w)" "same_count a0 a" by blast
      with i have "sa_id a0 = j_stockAnalysisId d" "sa_attemptCount a = sa_attemptCount a0"
        by (simp_all add: same_count_def)
      with cnt a0(1) n show ?thesis by simp
    qed
    from n known ids failed three show ?thesis
      unfolding run w2_def[symmetric] d_def job_def by blast
  qed
  from bound branch show ?thesis unfolding w_def by blast
qed

theorem attemptCount_bounded_witness:
  "0 < length (judgeReviewQueue (pipeline rejected_twice))
 \<and> fst (run_judge 0 [] False (pipeline rejected_twice)) = Inr MaxRetriesExceeded
 \<and> map sa_id (stockAnalyses (snd (run_judge 0 [] False (pipeline rejected_twice)))) = [''a1'']
 \<and> sa_status (hd (stockAnalyses (snd (run_judge 0 [] False (pipeline rejected_twice)))))
     = ''review_failed''
 \<and> sa_attemptCount (hd (stockAnalyses (snd (run_judge 0 [] False (pipeline rejected_twice))))) = 3
 \<and> sa_attemptCount (hd (stockAnalyses (pipeline rejected_twice))) \<le> 3"
proof -
  let ?w = "pipeline rejected_twice"
  let ?rows = "stockAnalyses (snd (run_judge 0 [] False ?w))"
  have run: "map (j_stockAnalysisId \<circ> q_data) (judgeReviewQueue ?w) = [''a1'']
      \<and> map sa_id (stockAnalyses ?w) = [''a1'']
      \<and> fst (run_judge 0 [] False ?w) = Inr MaxRetriesExceeded
      \<and> map sa_id ?rows = [''a1'']"
    by code_simp
  then have k: "0 < length (judgeReviewQueue ?w)"
    and x: "j_stockAnalysisId (q_data (judgeReviewQueue ?w ! 0)) = ''a1''"
    by (cases "judgeReviewQueue ?w"; simp)+
  from run have res: "fst (run_judge 0 [] False ?w) = Inr MaxRetriesExceeded"
    and ids: "map sa_id ?rows = [''a1'']"
    and ne: "map sa_id (stockAnalyses ?w) = [''a1'']"
    by blast+
  from ids have h: "hd ?rows \<in> set ?rows" "sa_id (hd ?rows) = ''a1''"
    by (cases ?rows; simp)+
  from ne have h0: "hd (stockAnalyses ?w) \<in> set (stockAnalyses ?w)"
    by (cases "stockAnalyses ?w") simp_all
  from attemptCount_bounded[of rejected_twice 0 "[]" False] k res
  have t1: "\<forall>a \<in> set (stockAnalyses ?w). sa_attemptCount a \<le> 3"
    and t2: "\<forall>a \<in> set ?rows.
          sa_id a = j_stockAnalysisId (q_data (judgeReviewQueue ?w ! 0)) \<longrightarrow>
          sa_status a = ''review_failed'' \<and> sa_attemptCount a = 3"
    by blast+
  from t2 h have a: "sa_status (hd ?rows) = ''review_failed'' \<and> sa_attemptCount (hd ?rows) = 3"
    unfolding x by blast
  from t1 h0 have b: "sa_attemptCount (hd (stockAnalyses ?w)) \<le> 3"
    by blast
  from k res ids a b show ?thesis by blast
qed



end
